(* ===== verification/Go_Prelude.thy ===== *)
theory Go_Prelude
  imports Complex_Main "HOL-Library.Word" "HOL-Library.Multiset" "HOL-Library.Code_Target_Nat"
begin

text \<open>
  What every component of the Go services shares: Go's error values with their wrapping
  chains, \<open>time.Time\<close> and \<open>time.Duration\<close>, \<open>float64\<close> with the IEEE comparisons, 64-bit and
  32-bit integer conversions, and the generic lemmas on lists, results and state passing that
  the component theories use.

  Conventions. A call that reads or changes the outside world takes the world \<open>'s\<close> and returns
  the new one first: \<open>'s \<Rightarrow> 's \<times> r\<close>. A Go result \<open>(v, err)\<close> is \<open>goerr + v\<close> (\<open>Inl\<close> the
  error), a bare \<open>error\<close> is \<open>goerr option\<close> (\<open>None\<close> is \<open>nil\<close>).
\<close>

named_theorems go_defs \<open>definitions of the shared Go vocabulary that proofs may unfold\<close>

section \<open>Errors\<close>

text \<open>
  The package-level error variables of the repository, and the ones of the libraries that the
  code compares against with \<open>errors.Is\<close>.
\<close>

datatype sentinel =
    ErrEngineUnavailable | ErrTimeout | ErrInvalidBatch | ErrGraphNotLoaded
  | ErrBatchTooLarge | ErrCancelled
  | ErrEmptyRequestID | ErrMalformedMessage
  | ErrNotAcquired
  | ErrInvalidKey | ErrRateLimited | ErrKeyNotFound
  | RedisNil | ContextCanceled | ContextDeadlineExceeded | IoEOF

fun sentinel_text :: "sentinel \<Rightarrow> string" where
  "sentinel_text ErrEngineUnavailable = ''matching engine unavailable''"
| "sentinel_text ErrTimeout = ''matching engine timed out''"
| "sentinel_text ErrInvalidBatch = ''invalid batch''"
| "sentinel_text ErrGraphNotLoaded = ''road graph not loaded on engine''"
| "sentinel_text ErrBatchTooLarge = ''batch too large for engine''"
| "sentinel_text ErrCancelled = ''call cancelled''"
| "sentinel_text ErrEmptyRequestID = ''queue: RequestID must be set''"
| "sentinel_text ErrMalformedMessage = ''queue: malformed message''"
| "sentinel_text ErrNotAcquired = ''locks: lease is held by someone else''"
| "sentinel_text ErrInvalidKey = ''auth: invalid API key''"
| "sentinel_text ErrRateLimited = ''auth: rate limit exceeded''"
| "sentinel_text ErrKeyNotFound = ''auth: key not found''"
| "sentinel_text RedisNil = ''redis: nil''"
| "sentinel_text ContextCanceled = ''context canceled''"
| "sentinel_text ContextDeadlineExceeded = ''context deadline exceeded''"
| "sentinel_text IoEOF = ''EOF''"

text \<open>
  An error value. \<open>Wrapf\<close> is \<open>fmt.Errorf\<close> with a \<open>%w\<close> verb: the text before and after it.
  \<open>RedisError\<close> is an error reply of the Redis server (go-redis' \<open>redis.Error\<close>), \<open>NetError\<close> a
  failure of the transport, \<open>ForeignError\<close> any other error a library hands back.
\<close>

datatype goerr =
    Sent sentinel
  | Errorf string
  | Wrapf string goerr string
  | RedisError string
  | NetError string
  | ForeignError nat string

fun error_text :: "goerr \<Rightarrow> string" where
  "error_text (Sent x) = sentinel_text x"
| "error_text (Errorf m) = m"
| "error_text (Wrapf pre e post) = pre @ error_text e @ post"
| "error_text (RedisError m) = m"
| "error_text (NetError m) = m"
| "error_text (ForeignError _ m) = m"

text \<open>\<open>errors.Is\<close> against a package variable and \<open>errors.As\<close> against \<open>redis.Error\<close>: both walk
  the chain of wrapped errors. \<open>redis.Nil\<close> is itself a \<open>redis.Error\<close>.\<close>

fun errors_is :: "goerr \<Rightarrow> sentinel \<Rightarrow> bool" where
  "errors_is (Sent x) t \<longleftrightarrow> x = t"
| "errors_is (Wrapf _ e _) t \<longleftrightarrow> errors_is e t"
| "errors_is _ t \<longleftrightarrow> False"

fun errors_as_redis :: "goerr \<Rightarrow> bool" where
  "errors_as_redis (RedisError _) \<longleftrightarrow> True"
| "errors_as_redis (Sent RedisNil) \<longleftrightarrow> True"
| "errors_as_redis (Wrapf _ e _) \<longleftrightarrow> errors_as_redis e"
| "errors_as_redis _ \<longleftrightarrow> False"

lemma errors_is_unique: "errors_is e x \<Longrightarrow> errors_is e y \<Longrightarrow> x = y"
  by (induction e x rule: errors_is.induct) auto

text \<open>The UTF-8 bytes of the dash that some messages of the source contain.\<close>

definition em_dash :: string where
  "em_dash = [CHR 0xE2, CHR 0x80, CHR 0x94]"

section \<open>Time\<close>

text \<open>
  \<open>time.Time\<close> is an instant in nanoseconds since the Unix epoch and \<open>time.Duration\<close> a number of
  nanoseconds. The zero \<open>time.Time\<close> (\<open>IsZero\<close>) is January 1 of the year 1.
\<close>

type_synonym gotime = int
type_synonym duration = int

abbreviation millisecond :: duration where "millisecond \<equiv> 1000000"
abbreviation second :: duration where "second \<equiv> 1000000000"

definition zero_time :: gotime where
  "zero_time = - 62135596800 * second"

definition is_zero :: "gotime \<Rightarrow> bool" where
  "is_zero t \<longleftrightarrow> t = zero_time"

text \<open>\<open>UnixMilli\<close> rounds down: the nanosecond part of a \<open>time.Time\<close> is never negative.\<close>

definition unix_milli :: "gotime \<Rightarrow> int" where
  "unix_milli t = t div millisecond"

definition time_unix_milli :: "int \<Rightarrow> gotime" where
  "time_unix_milli ms = ms * millisecond"

definition unix_sec :: "gotime \<Rightarrow> int" where
  "unix_sec t = t div second"

text \<open>\<open>Time.Sub\<close> saturates at the bounds of a 64-bit duration.\<close>

definition time_sub :: "gotime \<Rightarrow> gotime \<Rightarrow> duration" where
  "time_sub t u = max (- (2 ^ 63)) (min (2 ^ 63 - 1) (t - u))"

lemma unix_milli_of_milli [simp]: "unix_milli (time_unix_milli ms) = ms"
  by (simp add: unix_milli_def time_unix_milli_def)

lemma time_unix_milli_le: "time_unix_milli (unix_milli t) \<le> t"
  by (simp add: unix_milli_def time_unix_milli_def)

lemma time_unix_milli_close: "t - time_unix_milli (unix_milli t) < millisecond"
  by (simp add: unix_milli_def time_unix_milli_def minus_div_mult_eq_mod)

lemma unix_milli_mono: "t \<le> u \<Longrightarrow> unix_milli t \<le> unix_milli u"
  by (simp add: unix_milli_def zdiv_mono1)

section \<open>Integers of fixed width\<close>

text \<open>Go's \<open>int32(x)\<close> keeps the low 32 bits, read as two's complement; \<open>int\<close> and \<open>int64\<close> are
  64 bits wide.\<close>

definition to_int32 :: "int \<Rightarrow> int" where
  "to_int32 x = sint (word_of_int x :: 32 word)"

definition wrap64 :: "int \<Rightarrow> int" where
  "wrap64 x = sint (word_of_int x :: 64 word)"

definition in_int64 :: "int \<Rightarrow> bool" where
  "in_int64 x \<longleftrightarrow> - (2 ^ 63) \<le> x \<and> x < 2 ^ 63"

lemma in_int64_wrap64 [simp]: "in_int64 (wrap64 x)"
  using sint_greater_eq [of "word_of_int x :: 64 word"] sint_less [of "word_of_int x :: 64 word"]
  by (simp add: in_int64_def wrap64_def)

lemma to_int32_id: "- (2 ^ 31) \<le> x \<Longrightarrow> x < 2 ^ 31 \<Longrightarrow> to_int32 x = x"
  by (simp add: to_int32_def signed_take_bit_int_eq_self sint_sbintrunc')

lemma wrap64_id: "in_int64 x \<Longrightarrow> wrap64 x = x"
  by (simp add: wrap64_def in_int64_def signed_take_bit_int_eq_self sint_sbintrunc')

text \<open>Integer division of Go truncates towards zero.\<close>

definition go_div :: "int \<Rightarrow> int \<Rightarrow> int" where
  "go_div a b = sgn a * sgn b * (\<bar>a\<bar> div \<bar>b\<bar>)"

lemma go_div_nonneg: "0 \<le> a \<Longrightarrow> 0 < b \<Longrightarrow> go_div a b = a div b"
  by (cases "a = 0") (simp_all add: go_div_def)

section \<open>Floating point\<close>

text \<open>
  A \<open>float64\<close>: a finite value (a dyadic rational, here any rational), an infinity or NaN. The code only compares
  coordinates and divides by two; the comparisons are IEEE's, where NaN is unordered.
\<close>

datatype float64 = NaN | PInf | NInf | Fin rat

fun f_less :: "float64 \<Rightarrow> float64 \<Rightarrow> bool" where
  "f_less (Fin a) (Fin b) \<longleftrightarrow> a < b"
| "f_less NInf (Fin _) \<longleftrightarrow> True"
| "f_less NInf PInf \<longleftrightarrow> True"
| "f_less (Fin _) PInf \<longleftrightarrow> True"
| "f_less _ _ \<longleftrightarrow> False"

definition is_nan :: "float64 \<Rightarrow> bool" where
  "is_nan x \<longleftrightarrow> x = NaN"

definition is_inf :: "float64 \<Rightarrow> bool" where
  "is_inf x \<longleftrightarrow> x = PInf \<or> x = NInf"

text \<open>\<open>out_of_range lo hi x\<close> is the guard \<open>x < lo || x > hi\<close> that the code writes.\<close>

definition out_of_range :: "rat \<Rightarrow> rat \<Rightarrow> float64 \<Rightarrow> bool" where
  "out_of_range lo hi x \<longleftrightarrow> f_less x (Fin lo) \<or> f_less (Fin hi) x"

lemma out_of_range_Fin [simp]: "out_of_range lo hi (Fin r) \<longleftrightarrow> r < lo \<or> hi < r"
  by (simp add: out_of_range_def)

lemma out_of_range_special [simp]:
  "\<not> out_of_range lo hi NaN" "out_of_range lo hi PInf" "out_of_range lo hi NInf"
  by (simp_all add: out_of_range_def)

lemma in_range_cases: "\<not> out_of_range lo hi x \<Longrightarrow> x = NaN \<or> (\<exists>r. x = Fin r \<and> lo \<le> r \<and> r \<le> hi)"
  by (cases x) auto

section \<open>Lists and results\<close>

text \<open>A Go map built by a loop of assignments, as an association list with distinct keys:
  assigning a key that is present replaces its value in place.\<close>

definition assoc_put :: "'k \<Rightarrow> 'v \<Rightarrow> ('k \<times> 'v) list \<Rightarrow> ('k \<times> 'v) list" where
  "assoc_put k v m =
     (if k \<in> fst ` set m then map (\<lambda>(k', v'). if k' = k then (k', v) else (k', v')) m
      else m @ [(k, v)])"

lemma assoc_put_keys: "map fst (assoc_put k v m) = map fst m @ (if k \<in> fst ` set m then [] else [k])"
  by (auto simp: assoc_put_def)

lemma set_assoc_put_keys [simp]: "fst ` set (assoc_put k v m) = insert k (fst ` set m)"
proof -
  have "set (map fst (assoc_put k v m)) = insert k (set (map fst m))"
    by (auto simp: assoc_put_keys)
  then show ?thesis by simp
qed

lemma distinct_assoc_put: "distinct (map fst m) \<Longrightarrow> distinct (map fst (assoc_put k v m))"
  by (auto simp: assoc_put_keys)

lemma map_of_map_update:
  "map_of (map (\<lambda>(k', v'). if k' = k then (k', v) else (k', v')) m) =
     (if k \<in> fst ` set m then (map_of m)(k \<mapsto> v) else map_of m)"
  by (induction m) (auto simp: fun_eq_iff)

lemma map_of_assoc_put [simp]: "map_of (assoc_put k v m) = (map_of m)(k \<mapsto> v)"
proof (cases "k \<in> fst ` set m")
  case True
  then show ?thesis by (simp add: assoc_put_def map_of_map_update)
next
  case False
  then have "map_of m k = None" by (simp add: map_of_eq_None_iff)
  with False show ?thesis
    by (auto simp: assoc_put_def map_add_def fun_eq_iff split: option.splits)
qed

lemma length_assoc_put:
  "length (assoc_put k v m) = (if k \<in> fst ` set m then length m else Suc (length m))"
  by (simp add: assoc_put_def)

lemma dropWhile_drop:
  assumes "n \<le> length xs - length (dropWhile P xs)"
  shows "dropWhile P (drop n xs) = dropWhile P xs"
proof -
  have len: "length xs = length (takeWhile P xs) + length (dropWhile P xs)"
    by (metis length_append takeWhile_dropWhile_id)
  have "drop n xs = drop n (takeWhile P xs) @ dropWhile P xs"
    using assms len by (metis append_Nil diff_add_inverse2 diff_is_0_eq drop0 drop_append takeWhile_dropWhile_id)
  moreover have "\<forall>x \<in> set (drop n (takeWhile P xs)). P x"
    by (meson in_set_dropD set_takeWhileD)
  ultimately show ?thesis by (simp add: dropWhile_append2)
qed

lemma dropWhile_snoc: "dropWhile P xs \<noteq> [] \<Longrightarrow> dropWhile P (xs @ [x]) = dropWhile P xs @ [x]"
  by (metis dropWhile_append1 dropWhile_eq_Nil_conv)

end
