(* ===== verification/Strconv.thy ===== *)
theory Strconv
  imports Go_Prelude "HOL-Library.Sublist"
begin

text \<open>
  The functions of Go's \<open>strconv\<close>, \<open>strings\<close> and \<open>encoding/hex\<close> that the services use on
  integers, keys and header values. Strings are byte strings. \<open>format_int\<close> is \<open>FormatInt(n, 10)\<close>
  and \<open>Itoa\<close>; \<open>parse_int\<close> is \<open>ParseInt(s, 10, 64)\<close> with its two kinds of failure, of which a
  range failure still carries the clamped value that \<open>Atoi\<close> returns when its error is ignored.
\<close>

section \<open>Decimal integers\<close>

definition digit_char :: "nat \<Rightarrow> char" where
  "digit_char d = char_of (48 + d)"

definition char_digit :: "char \<Rightarrow> nat option" where
  "char_digit c = (let n = of_char c in if 48 \<le> n \<and> n \<le> 57 then Some (n - 48) else None)"

lemma char_digit_char [simp]: "d < 10 \<Longrightarrow> char_digit (digit_char d) = Some d"
  by (simp add: char_digit_def digit_char_def)

fun dec_nat :: "nat \<Rightarrow> string" where
  "dec_nat n = (if n < 10 then [digit_char n] else dec_nat (n div 10) @ [digit_char (n mod 10)])"

declare dec_nat.simps [simp del]

definition format_int :: "int \<Rightarrow> string" where
  "format_int i = (if i < 0 then CHR ''-'' # dec_nat (nat (- i)) else dec_nat (nat i))"

datatype parsed_int = Parsed int | SyntaxFailure | RangeFailure int

text \<open>The accumulator of \<open>ParseUint\<close>: \<open>None\<close> for a byte that is no digit, \<open>Some None\<close> as soon as
  the value leaves 64 bits (later bytes are then not looked at).\<close>

fun parse_digits :: "nat \<Rightarrow> string \<Rightarrow> nat option option" where
  "parse_digits acc [] = Some (Some acc)"
| "parse_digits acc (c # cs) =
     (case char_digit c of
        None \<Rightarrow> None
      | Some d \<Rightarrow> if 2 ^ 64 \<le> acc * 10 + d then Some None else parse_digits (acc * 10 + d) cs)"

definition parse_uint :: "string \<Rightarrow> nat option option" where
  "parse_uint s = (if s = [] then None else parse_digits 0 s)"

definition parse_int :: "string \<Rightarrow> parsed_int" where
  "parse_int s =
     (let neg = (s \<noteq> [] \<and> hd s = CHR ''-'');
          body = (if s \<noteq> [] \<and> (hd s = CHR ''+'' \<or> hd s = CHR ''-'') then tl s else s)
      in case parse_uint body of
           None \<Rightarrow> SyntaxFailure
         | Some None \<Rightarrow> RangeFailure (if neg then - (2 ^ 63) else 2 ^ 63 - 1)
         | Some (Some u) \<Rightarrow>
             if \<not> neg \<and> 2 ^ 63 \<le> u then RangeFailure (2 ^ 63 - 1)
             else if neg \<and> 2 ^ 63 < u then RangeFailure (- (2 ^ 63))
             else Parsed (if neg then - int u else int u))"

fun parsed_ok :: "parsed_int \<Rightarrow> int option" where
  "parsed_ok (Parsed i) = Some i"
| "parsed_ok _ = None"

text \<open>The value half of \<open>v, _ := strconv.Atoi(s)\<close>.\<close>

fun parsed_value :: "parsed_int \<Rightarrow> int" where
  "parsed_value (Parsed i) = i"
| "parsed_value SyntaxFailure = 0"
| "parsed_value (RangeFailure i) = i"

lemma dec_nat_nonempty [simp]: "dec_nat n \<noteq> []"
  by (subst dec_nat.simps) simp

lemma dec_nat_digits: "c \<in> set (dec_nat n) \<Longrightarrow> \<exists>d<10. c = digit_char d"
proof (induction n rule: dec_nat.induct)
  case (1 n)
  show ?case
  proof (cases "n < 10")
    case True
    with "1.prems" show ?thesis by (auto simp: dec_nat.simps [of n])
  next
    case False
    with "1.prems" have "c \<in> set (dec_nat (n div 10)) \<or> c = digit_char (n mod 10)"
      by (auto simp: dec_nat.simps [of n])
    then show ?thesis
    proof
      assume "c \<in> set (dec_nat (n div 10))"
      with "1.IH" False show ?thesis by blast
    next
      assume "c = digit_char (n mod 10)"
      moreover have "n mod 10 < 10" by simp
      ultimately show ?thesis by blast
    qed
  qed
qed

lemma parse_digits_append:
  assumes "parse_digits acc s = Some (Some v)"
  shows "parse_digits acc (s @ t) = parse_digits v t"
  using assms
  by (induction acc s rule: parse_digits.induct) (auto split: option.splits if_splits)

lemma parse_digits_dec_nat:
  "n < 2 ^ 64 \<Longrightarrow> parse_digits 0 (dec_nat n) = Some (Some n)"
proof (induction n rule: dec_nat.induct)
  case (1 n)
  show ?case
  proof (cases "n < 10")
    case True
    then show ?thesis by (simp add: dec_nat.simps [of n])
  next
    case False
    with "1.prems" have "n div 10 < 2 ^ 64" by simp
    with "1.IH" False have IH: "parse_digits 0 (dec_nat (n div 10)) = Some (Some (n div 10))"
      by blast
    have "n div 10 * 10 + n mod 10 = n" by simp
    with "1.prems" False show ?thesis
      by (simp add: dec_nat.simps [of n] parse_digits_append [OF IH])
  qed
qed

lemma hd_dec_nat: "hd (dec_nat n) \<noteq> CHR ''-''" "hd (dec_nat n) \<noteq> CHR ''+''"
proof -
  obtain d where "d < 10" "hd (dec_nat n) = digit_char d"
    using dec_nat_digits [of "hd (dec_nat n)" n] by auto
  then have d: "char_digit (hd (dec_nat n)) = Some d" by simp
  show "hd (dec_nat n) \<noteq> CHR ''-''" "hd (dec_nat n) \<noteq> CHR ''+''"
    using d by (auto simp: char_digit_def)
qed

lemma parse_format_int: "in_int64 i \<Longrightarrow> parse_int (format_int i) = Parsed i"
proof -
  assume i: "in_int64 i"
  show ?thesis
  proof (cases "i < 0")
    case True
    let ?n = "nat (- i)"
    from i True have n: "?n \<le> 2 ^ 63" by (simp add: in_int64_def nat_le_iff)
    then have "?n < 2 ^ 64" by simp
    then have "parse_uint (dec_nat ?n) = Some (Some ?n)"
      by (simp add: parse_uint_def parse_digits_dec_nat)
    with True n show ?thesis by (simp add: parse_int_def format_int_def)
  next
    case False
    let ?n = "nat i"
    from i False have n: "?n < 2 ^ 63" by (simp add: in_int64_def nat_less_iff)
    then have "?n < 2 ^ 64" by simp
    then have "parse_uint (dec_nat ?n) = Some (Some ?n)"
      by (simp add: parse_uint_def parse_digits_dec_nat)
    with False n show ?thesis by (simp add: parse_int_def format_int_def hd_dec_nat)
  qed
qed

lemma format_int_nonempty [simp]: "format_int i \<noteq> []"
  by (simp add: format_int_def)

lemma format_int_inj: "in_int64 i \<Longrightarrow> in_int64 j \<Longrightarrow> format_int i = format_int j \<longleftrightarrow> i = j"
  by (metis parse_format_int parsed_int.inject(1))

section \<open>Hexadecimal\<close>

definition hex_char :: "nat \<Rightarrow> char" where
  "hex_char d = (if d < 10 then char_of (48 + d) else char_of (87 + d))"

fun hex_encode :: "8 word list \<Rightarrow> string" where
  "hex_encode [] = []"
| "hex_encode (b # bs) = hex_char (unat b div 16) # hex_char (unat b mod 16) # hex_encode bs"

lemma length_hex_encode [simp]: "length (hex_encode bs) = 2 * length bs"
  by (induction bs) auto

lemma hex_char_inj: "d < 16 \<Longrightarrow> e < 16 \<Longrightarrow> hex_char d = hex_char e \<longleftrightarrow> d = e"
proof -
  assume "d < 16" "e < 16"
  moreover have "hex_char n = hex_char m \<Longrightarrow>
    (of_char (hex_char n) :: nat) = of_char (hex_char m)" for n m by simp
  ultimately show ?thesis by (auto simp: hex_char_def split: if_splits)
qed

lemma unat_byte_less [simp]: "unat (b :: 8 word) div 16 < 16" "unat (b :: 8 word) < 256"
  using unsigned_less [of b, where ?'a = nat] by (simp_all add: less_mult_imp_div_less)

lemma byte_of_nibbles:
  "unat (a :: 8 word) div 16 = unat b div 16 \<Longrightarrow> unat a mod 16 = unat b mod 16 \<Longrightarrow> a = b"
  by (metis div_mult_mod_eq word_unat_eq_iff)

lemma hex_encode_inj: "hex_encode xs = hex_encode ys \<longleftrightarrow> xs = ys"
proof
  show "hex_encode xs = hex_encode ys \<Longrightarrow> xs = ys"
  proof (induction xs arbitrary: ys)
    case Nil
    then show ?case by (cases ys) auto
  next
    case (Cons x xs)
    then obtain y ys' where ys: "ys = y # ys'" by (cases ys) auto
    with Cons.prems have "x = y" by (auto simp: hex_char_inj intro: byte_of_nibbles)
    with Cons ys show ?case by simp
  qed
qed simp

lemma hex_char_not_underscore: "d < 16 \<Longrightarrow> CHR ''_'' \<noteq> hex_char d"
proof -
  assume "d < 16"
  then have "(of_char (hex_char d) :: nat) \<noteq> of_char (CHR ''_'')" by (auto simp: hex_char_def)
  then show ?thesis by metis
qed

lemma hex_encode_no_underscore: "CHR ''_'' \<notin> set (hex_encode bs)"
  by (induction bs) (simp_all add: hex_char_not_underscore)

section \<open>Byte strings\<close>

text \<open>\<open>strings.Split(s, sep)\<close> for a separator of one byte: always at least one part.\<close>

fun split_on :: "char \<Rightarrow> string \<Rightarrow> string list" where
  "split_on c [] = [[]]"
| "split_on c (x # xs) =
     (if x = c then [] # split_on c xs
      else case split_on c xs of [] \<Rightarrow> [[x]] | p # ps \<Rightarrow> (x # p) # ps)"

lemma split_on_nonempty [simp]: "split_on c s \<noteq> []"
  by (induction s) (auto split: list.splits)

lemma split_on_no_sep: "c \<notin> set s \<Longrightarrow> split_on c s = [s]"
  by (induction s) auto

lemma split_on_append: "c \<notin> set p \<Longrightarrow> split_on c (p @ c # s) = p # split_on c s"
  by (induction p) auto

definition has_prefix :: "string \<Rightarrow> string \<Rightarrow> bool" where
  "has_prefix s p \<longleftrightarrow> prefix p s"

lemma has_prefix_code [code]: "has_prefix s p \<longleftrightarrow> take (length p) s = p"
  by (auto simp: has_prefix_def prefix_def) (metis append_take_drop_id)

text \<open>\<open>strings.CutPrefix\<close>.\<close>

definition cut_prefix :: "string \<Rightarrow> string \<Rightarrow> string option" where
  "cut_prefix s p = (if take (length p) s = p then Some (drop (length p) s) else None)"

lemma cut_prefix_append [simp]: "cut_prefix (p @ s) p = Some s"
  by (simp add: cut_prefix_def)

lemma cut_prefix_Some: "cut_prefix s p = Some t \<longleftrightarrow> s = p @ t"
  by (auto simp: cut_prefix_def) (metis append_take_drop_id)

text \<open>\<open>strings.TrimSpace\<close>: the white space of \<open>unicode.IsSpace\<close> in its UTF-8 encoding, first from the
  left and then from the right. A malformed sequence is no white space.\<close>

definition ascii_spaces :: "string list" where
  "ascii_spaces = [[CHR 0x09], [CHR 0x0A], [CHR 0x0B], [CHR 0x0C], [CHR 0x0D], [CHR 0x20]]"

definition unicode_spaces :: "string list" where
  "unicode_spaces = ascii_spaces @
     [[CHR 0xC2, CHR 0x85], [CHR 0xC2, CHR 0xA0], [CHR 0xE1, CHR 0x9A, CHR 0x80]] @
     map (\<lambda>n. [CHR 0xE2, CHR 0x80, char_of n]) ([128..<139] @ [168, 169, 175 :: nat]) @
     [[CHR 0xE2, CHR 0x81, CHR 0x9F], [CHR 0xE3, CHR 0x80, CHR 0x80]]"

function trim_left :: "string list \<Rightarrow> string \<Rightarrow> string" where
  "trim_left seqs s =
     (case find (\<lambda>p. p \<noteq> [] \<and> take (length p) s = p) seqs of
        None \<Rightarrow> s
      | Some p \<Rightarrow> trim_left seqs (drop (length p) s))"
  by pat_completeness auto
termination
proof (relation "measure (\<lambda>(_, s). length s)")
  fix seqs s p
  assume "find (\<lambda>p. p \<noteq> [] \<and> take (length p) s = p) seqs = Some p"
  then have "p \<noteq> []" "take (length p) s = p" by (auto simp: find_Some_iff)
  then have "0 < length p" "s \<noteq> []" by auto
  then show "((seqs, drop (length p) s), seqs, s) \<in> measure (\<lambda>(_, s). length s)" by simp
qed simp

declare trim_left.simps [simp del]

definition trim_space :: "string \<Rightarrow> string" where
  "trim_space s = rev (trim_left (map rev unicode_spaces) (rev (trim_left unicode_spaces s)))"

text \<open>Text of visible ASCII characters is left alone.\<close>

definition visible :: "char \<Rightarrow> bool" where
  "visible c \<longleftrightarrow> 32 < (of_char c :: nat) \<and> (of_char c :: nat) < 127"

lemma trim_left_visible:
  assumes "\<forall>c\<in>set s. visible c" "\<forall>p\<in>set seqs. \<exists>c\<in>set p. \<not> visible c"
  shows "trim_left seqs s = s"
proof -
  have "\<not> (p \<noteq> [] \<and> take (length p) s = p)" if "p \<in> set seqs" for p
    using assms that by (metis in_set_takeD)
  then have "find (\<lambda>p. p \<noteq> [] \<and> take (length p) s = p) seqs = None"
    by (auto simp: find_None_iff)
  then show ?thesis by (simp add: trim_left.simps [of seqs s])
qed

lemma unicode_spaces_invisible: "\<forall>p\<in>set unicode_spaces. \<exists>c\<in>set p. \<not> visible c"
  by (auto simp: unicode_spaces_def ascii_spaces_def visible_def)

lemma trim_space_visible: "\<forall>c\<in>set s. visible c \<Longrightarrow> trim_space s = s"
  using unicode_spaces_invisible by (simp add: trim_space_def trim_left_visible)

lemma hex_char_visible: "d < 16 \<Longrightarrow> visible (hex_char d)"
  by (simp add: visible_def hex_char_def)

lemma hex_encode_visible: "\<forall>c\<in>set (hex_encode bs). visible c"
  by (induction bs) (simp_all add: hex_char_visible)

end
