(* ===== verification/Locks.thy ===== *)
theory Locks
  imports Strconv "HOL-Library.While_Combinator"
begin

text \<open>
  \<open>internal/locks\<close>: leases on drivers and on geohash partitions, kept in Redis keys with a time to
  live. \<open>kv_client\<close> are the commands and the source of randomness; a Lua script of the package is
  a function of the server's state (\<open>release_script\<close>, \<open>extend_script\<close>) that \<open>kv_eval\<close> runs as one
  unit. The geohash is the loop of the source, run by \<open>while_option\<close>; partitions are computed on
  32-bit words. The interval bounds of the loop are halves of halves of 90 and 180, which \<open>float64\<close>
  represents exactly for every precision in use, so they are rationals.
\<close>

section \<open>Data\<close>

record Lease =
  l_DriverID :: string
  l_Token :: string
  l_ExpiresAt :: gotime

record 's LockOptions =
  ko_TenantID :: string
  ko_TTL :: duration
  ko_Partitions :: int
  ko_Now :: "'s \<Rightarrow> gotime"

text \<open>\<open>kv_get\<close>, \<open>kv_del\<close> and \<open>kv_pexpire\<close> are the commands inside a script.\<close>

record 's kv_client =
  setnx :: "string \<Rightarrow> string \<Rightarrow> duration \<Rightarrow> 's \<Rightarrow> 's \<times> (goerr + bool)"
  kv_eval :: "('s \<Rightarrow> 's \<times> int) \<Rightarrow> 's \<Rightarrow> 's \<times> (goerr + int)"
  kv_get :: "string \<Rightarrow> 's \<Rightarrow> string option"
  kv_del :: "string \<Rightarrow> 's \<Rightarrow> 's \<times> int"
  kv_pexpire :: "string \<Rightarrow> int \<Rightarrow> 's \<Rightarrow> 's \<times> int"
  kv_exists :: "string \<Rightarrow> 's \<Rightarrow> 's \<times> (goerr + int)"
  kv_ping :: "'s \<Rightarrow> 's \<times> goerr option"
  rand_read :: "nat \<Rightarrow> 's \<Rightarrow> 's \<times> (goerr + 8 word list)"

record 's Manager =
  lm_client :: "'s kv_client"
  lm_opts :: "'s LockOptions"

definition LockDefaultOptions :: "('s \<Rightarrow> gotime) \<Rightarrow> 's LockOptions" where
  "LockDefaultOptions now = \<lparr>ko_TenantID = ''default'', ko_TTL = 10 * second, ko_Partitions = 256, ko_Now = now\<rparr>"

definition NewManager ::
  "(string \<Rightarrow> string \<Rightarrow> 's kv_client) \<Rightarrow> string \<Rightarrow> 's LockOptions \<Rightarrow> goerr + 's Manager" where
  "NewManager connect addr opts =
     (if ko_TenantID opts = [] then Inl (Errorf ''locks: TenantID must be set'')
      else if ko_TTL opts \<le> 0
      then Inl (Errorf (''locks: TTL must be positive '' @ em_dash @ '' a lease without one is a deadlock''))
      else let opts' = (if ko_Partitions opts \<le> 0
                        then opts\<lparr>ko_Partitions := ko_Partitions (LockDefaultOptions (ko_Now opts))\<rparr> else opts);
               network = (if addr \<noteq> [] \<and> hd addr = CHR ''/'' then ''unix'' else ''tcp'')
           in Inr \<lparr>lm_client = connect network addr, lm_opts = opts'\<rparr>)"

definition lock_Ping :: "'s Manager \<Rightarrow> 's \<Rightarrow> 's \<times> goerr option" where
  "lock_Ping m s = kv_ping (lm_client m) s"

definition lock_key :: "'s Manager \<Rightarrow> string \<Rightarrow> string" where
  "lock_key m driverID = ''lock:driver:'' @ ko_TenantID (lm_opts m) @ '':'' @ driverID"

definition newToken :: "'s kv_client \<Rightarrow> 's \<Rightarrow> 's \<times> (goerr + string)" where
  "newToken c s =
     (let (s1, r) = rand_read c 16 s
      in (s1, case r of Inl e \<Rightarrow> Inl (Wrapf ''locks: token: '' e []) | Inr bs \<Rightarrow> Inr (hex_encode bs)))"

section \<open>Driver leases\<close>

definition Acquire :: "'s Manager \<Rightarrow> string \<Rightarrow> 's \<Rightarrow> 's \<times> (goerr + Lease)" where
  "Acquire m driverID s =
     (if driverID = [] then (s, Inl (Errorf ''locks: driverID must not be empty''))
      else
        let (s1, t) = newToken (lm_client m) s
        in case t of
             Inl e \<Rightarrow> (s1, Inl e)
           | Inr token \<Rightarrow>
               let (s2, r) = setnx (lm_client m) (lock_key m driverID) token (ko_TTL (lm_opts m)) s1
               in case r of
                    Inl e \<Rightarrow> (s2, Inl (Wrapf ''locks: acquire: '' e []))
                  | Inr ok \<Rightarrow>
                      if \<not> ok then (s2, Inl (Sent ErrNotAcquired))
                      else (s2, Inr \<lparr>l_DriverID = driverID, l_Token = token,
                                    l_ExpiresAt = ko_Now (lm_opts m) s2 + ko_TTL (lm_opts m)\<rparr>))"

fun AcquireMany :: "'s Manager \<Rightarrow> string list \<Rightarrow> 's \<Rightarrow> 's \<times> Lease list \<times> goerr option" where
  "AcquireMany m [] s = (s, [], None)"
| "AcquireMany m (i # is) s =
     (let (s1, r) = Acquire m i s in
      case r of
        Inl e \<Rightarrow> if errors_is e ErrNotAcquired then AcquireMany m is s1 else (s1, [], Some e)
      | Inr lease \<Rightarrow> (let (s2, ls, err) = AcquireMany m is s1 in (s2, lease # ls, err)))"

text \<open>The Lua scripts, each executed atomically by the server.\<close>

definition release_script :: "'s kv_client \<Rightarrow> string \<Rightarrow> string \<Rightarrow> 's \<Rightarrow> 's \<times> int" where
  "release_script c k token s = (if kv_get c k s = Some token then kv_del c k s else (s, 0))"

definition extend_script :: "'s kv_client \<Rightarrow> string \<Rightarrow> string \<Rightarrow> int \<Rightarrow> 's \<Rightarrow> 's \<times> int" where
  "extend_script c k token ms s = (if kv_get c k s = Some token then kv_pexpire c k ms s else (s, 0))"

text \<open>\<open>Int64\<close> of a script that returned \<open>redis.Nil\<close> is 0.\<close>

definition script_result :: "string \<Rightarrow> goerr + int \<Rightarrow> goerr + int" where
  "script_result pre r =
     (case r of
        Inl e \<Rightarrow> if errors_is e RedisNil then Inr 0 else Inl (Wrapf pre e [])
      | Inr n \<Rightarrow> Inr n)"

definition Release :: "'s Manager \<Rightarrow> Lease \<Rightarrow> 's \<Rightarrow> 's \<times> (goerr + bool)" where
  "Release m lease s =
     (if l_DriverID lease = [] \<or> l_Token lease = []
      then (s, Inl (Errorf ''locks: release needs a driver id and a token''))
      else
        let (s1, r) = kv_eval (lm_client m)
              (release_script (lm_client m) (lock_key m (l_DriverID lease)) (l_Token lease)) s
        in (s1, case script_result ''locks: release: '' r of Inl e \<Rightarrow> Inl e | Inr res \<Rightarrow> Inr (res = 1)))"

fun ReleaseMany :: "'s Manager \<Rightarrow> Lease list \<Rightarrow> 's \<Rightarrow> 's \<times> goerr option" where
  "ReleaseMany m [] s = (s, None)"
| "ReleaseMany m (l # ls) s =
     (let (s1, r) = Release m l s;
          (s2, rest) = ReleaseMany m ls s1
      in (s2, case r of Inl e \<Rightarrow> Some e | Inr _ \<Rightarrow> rest))"

definition Extend :: "'s Manager \<Rightarrow> Lease \<Rightarrow> 's \<Rightarrow> 's \<times> Lease \<times> goerr option" where
  "Extend m lease s =
     (let ms = go_div (ko_TTL (lm_opts m)) millisecond;
          (s1, r) = kv_eval (lm_client m)
            (extend_script (lm_client m) (lock_key m (l_DriverID lease)) (l_Token lease) ms) s
      in case script_result ''locks: extend: '' r of
           Inl e \<Rightarrow> (s1, lease, Some e)
         | Inr res \<Rightarrow>
             if res \<noteq> 1 then (s1, lease, Some (Sent ErrNotAcquired))
             else (s1, lease\<lparr>l_ExpiresAt := ko_Now (lm_opts m) s1 + ko_TTL (lm_opts m)\<rparr>, None))"

definition IsHeld :: "'s Manager \<Rightarrow> string \<Rightarrow> 's \<Rightarrow> 's \<times> (goerr + bool)" where
  "IsHeld m driverID s =
     (let (s1, r) = kv_exists (lm_client m) (lock_key m driverID) s
      in (s1, case r of Inl e \<Rightarrow> Inl (Wrapf ''locks: exists: '' e []) | Inr n \<Rightarrow> Inr (n = 1)))"

section \<open>Geohash partitions\<close>

definition geohashAlphabet :: string where
  "geohashAlphabet = ''0123456789bcdefghjkmnpqrstuvwxyz''"

record gh_state =
  gh_lat0 :: rat
  gh_lat1 :: rat
  gh_lng0 :: rat
  gh_lng1 :: rat
  gh_bit :: nat
  gh_ch :: nat
  gh_even :: bool
  gh_out :: string

definition gh_init :: gh_state where
  "gh_init = \<lparr>gh_lat0 = - 90, gh_lat1 = 90, gh_lng0 = - 180, gh_lng1 = 180, gh_bit = 0, gh_ch = 0,
     gh_even = True, gh_out = []\<rparr>"

text \<open>The first half of an iteration: one bit of the longitude or of the latitude.\<close>

definition gh_halve :: "float64 \<Rightarrow> float64 \<Rightarrow> gh_state \<Rightarrow> gh_state" where
  "gh_halve lat lng st =
     (if gh_even st then
        (let mid = (gh_lng0 st + gh_lng1 st) / 2 in
         if f_less (Fin mid) lng then st\<lparr>gh_ch := 2 * gh_ch st + 1, gh_lng0 := mid\<rparr>
         else st\<lparr>gh_ch := 2 * gh_ch st, gh_lng1 := mid\<rparr>)
      else
        (let mid = (gh_lat0 st + gh_lat1 st) / 2 in
         if f_less (Fin mid) lat then st\<lparr>gh_ch := 2 * gh_ch st + 1, gh_lat0 := mid\<rparr>
         else st\<lparr>gh_ch := 2 * gh_ch st, gh_lat1 := mid\<rparr>))"

definition gh_step :: "float64 \<Rightarrow> float64 \<Rightarrow> gh_state \<Rightarrow> gh_state" where
  "gh_step lat lng st =
     (let st1 = gh_halve lat lng st;
          st2 = st1\<lparr>gh_even := \<not> gh_even st1, gh_bit := gh_bit st1 + 1\<rparr>
      in if gh_bit st2 = 5
         then st2\<lparr>gh_out := gh_out st2 @ [geohashAlphabet ! gh_ch st2], gh_bit := 0, gh_ch := 0\<rparr>
         else st2)"

text \<open>\<open>None\<close> would be a loop that does not end.\<close>

definition geohash_run :: "float64 \<Rightarrow> float64 \<Rightarrow> nat \<Rightarrow> gh_state option" where
  "geohash_run lat lng precision =
     while_option (\<lambda>st. length (gh_out st) < precision) (gh_step lat lng) gh_init"

definition Geohash :: "float64 \<Rightarrow> float64 \<Rightarrow> int \<Rightarrow> string" where
  "Geohash lat lng precision =
     (let p = (if precision \<le> 0 then 6 else nat precision)
      in case geohash_run lat lng p of Some st \<Rightarrow> gh_out st | None \<Rightarrow> [])"

definition fnv1a :: "string \<Rightarrow> 32 word" where
  "fnv1a s = fold (\<lambda>c h. xor h (word_of_nat (of_char c)) * 16777619) s 2166136261"

definition PartitionFor :: "'s Manager \<Rightarrow> float64 \<Rightarrow> float64 \<Rightarrow> int" where
  "PartitionFor m lat lng = uint (fnv1a (Geohash lat lng 5) mod word_of_int (ko_Partitions (lm_opts m)))"

definition PartitionKey :: "'s Manager \<Rightarrow> int \<Rightarrow> string" where
  "PartitionKey m part = ''lock:partition:'' @ ko_TenantID (lm_opts m) @ '':'' @ format_int part"

definition partition_lease_id :: "int \<Rightarrow> string" where
  "partition_lease_id part = ''__partition_'' @ format_int part"

definition AcquirePartition :: "'s Manager \<Rightarrow> float64 \<Rightarrow> float64 \<Rightarrow> 's \<Rightarrow> 's \<times> (goerr + Lease)" where
  "AcquirePartition m lat lng s =
     (let part = PartitionFor m lat lng;
          (s1, t) = newToken (lm_client m) s
      in case t of
           Inl e \<Rightarrow> (s1, Inl e)
         | Inr token \<Rightarrow>
             let (s2, r) = setnx (lm_client m) (PartitionKey m part) token (ko_TTL (lm_opts m)) s1
             in case r of
                  Inl e \<Rightarrow> (s2, Inl (Wrapf ''locks: acquire partition: '' e []))
                | Inr ok \<Rightarrow>
                    if \<not> ok then (s2, Inl (Sent ErrNotAcquired))
                    else (s2, Inr \<lparr>l_DriverID = partition_lease_id part, l_Token = token,
                                  l_ExpiresAt = ko_Now (lm_opts m) s2 + ko_TTL (lm_opts m)\<rparr>))"

text \<open>\<open>fmt.Sscanf(id, "__partition_%d", &n)\<close>: the literal, then optional blanks, a sign and the
  longest run of digits; what follows is not looked at.\<close>

definition scan_partition :: "string \<Rightarrow> int option" where
  "scan_partition i =
     (case cut_prefix i ''__partition_'' of
        None \<Rightarrow> None
      | Some rest \<Rightarrow>
          let t = trim_left (remove1 [CHR 0x0A] unicode_spaces) rest;
              sign = (if t \<noteq> [] \<and> (hd t = CHR ''-'' \<or> hd t = CHR ''+'') then [hd t] else []);
              digits = takeWhile (\<lambda>c. char_digit c \<noteq> None) (drop (length sign) t)
          in parsed_ok (parse_int (sign @ digits)))"

definition ReleasePartition :: "(string \<Rightarrow> string) \<Rightarrow> 's Manager \<Rightarrow> Lease \<Rightarrow> 's \<Rightarrow> 's \<times> (goerr + bool)" where
  "ReleasePartition quote m lease s =
     (case scan_partition (l_DriverID lease) of
        None \<Rightarrow> (s, Inl (Errorf (''locks: '' @ quote (l_DriverID lease) @ '' is not a partition lease'')))
      | Some part \<Rightarrow>
          let (s1, r) = kv_eval (lm_client m)
                (release_script (lm_client m) (PartitionKey m part) (l_Token lease)) s
          in (s1, case script_result ''locks: release partition: '' r of Inl e \<Rightarrow> Inl e | Inr res \<Rightarrow> Inr (res = 1)))"

definition SpreadScore :: "'s Manager \<Rightarrow> (float64 \<times> float64) list \<Rightarrow> rat" where
  "SpreadScore m coords =
     (if coords = [] then 0
      else of_nat (card (set (map (\<lambda>(la, lo). PartitionFor m la lo) coords))) /
           min (of_nat (length coords)) (of_int (ko_Partitions (lm_opts m))))"

end
