(* ===== verification/Locks_Properties.thy ===== *)
theory Locks_Properties
  imports Locks "HOL-Library.Sublist"
begin

text \<open>
  The laws of the key-value commands that \<open>internal/locks\<close> relies on (\<open>redis_kv\<close>, over the live value
  of a key), the exclusivity and fencing of leases, and the geometry of the geohash partitions.
  \<open>lease_step\<close> is everything that any process can do to the leases except that a lease expires.
\<close>

section \<open>The laws\<close>

locale redis_kv =
  fixes C :: "'s kv_client" and owner :: "'s \<Rightarrow> string \<Rightarrow> string option"
  assumes get_owner: "kv_get C k s = owner s k"
    and setnx_ok: "setnx C k v d s = (s', Inr b) \<Longrightarrow>
      (b \<longleftrightarrow> owner s k = None) \<and> owner s' = (if b then (owner s)(k \<mapsto> v) else owner s)"
    and setnx_err: "setnx C k v d s = (s', Inl e) \<Longrightarrow>
      owner s' = owner s \<or> owner s k = None \<and> owner s' = (owner s)(k \<mapsto> v)"
    and del_owner: "kv_del C k s = (s', n) \<Longrightarrow>
      owner s' = (owner s)(k := None) \<and> n = (if owner s k = None then 0 else 1)"
    and pexpire_owner: "kv_pexpire C k ms s = (s', n) \<Longrightarrow> 0 < ms \<Longrightarrow>
      owner s' = owner s \<and> n = (if owner s k = None then 0 else 1)"
    and eval_ok: "kv_eval C f s = (s', Inr n) \<Longrightarrow> f s = (s', n)"
    and eval_err: "kv_eval C f s = (s', Inl e) \<Longrightarrow> owner s' = owner s \<or> owner s' = owner (fst (f s))"
    and exists_owner: "kv_exists C k s = (s', x) \<Longrightarrow> owner s' = owner s"
    and rand_owner: "rand_read C j s = (s', y) \<Longrightarrow> owner s' = owner s"

locale lock_manager = redis_kv "lm_client m" owner for m :: "'s Manager" and owner
begin

lemma newToken_owner: "newToken (lm_client m) s = (s', t) \<Longrightarrow> owner s' = owner s"
  by (auto simp: newToken_def split: prod.splits dest: rand_owner)

lemma release_script_effect:
  assumes "release_script (lm_client m) k tok s = (s', n)"
  shows "owner s' = (if owner s k = Some tok then (owner s)(k := None) else owner s) \<and>
    n = (if owner s k = Some tok then 1 else 0)"
  using assms by (auto simp: release_script_def get_owner split: if_splits dest: del_owner)

lemma extend_script_effect:
  assumes "extend_script (lm_client m) k tok ms s = (s', n)" "0 < ms"
  shows "owner s' = owner s \<and> n = (if owner s k = Some tok then 1 else 0)"
  using assms by (auto simp: extend_script_def get_owner split: if_splits dest: pexpire_owner)

text \<open>What \<open>SET NX\<close> with a new token does, for both kinds of lease.\<close>

lemma Acquire_effect:
  assumes "Acquire m d s = (s', r)"
  shows "case r of
      Inr l \<Rightarrow> l_DriverID l = d \<and> owner s (lock_key m d) = None \<and> owner s' = (owner s)(lock_key m d \<mapsto> l_Token l)
    | Inl e \<Rightarrow> owner s' = owner s \<or> owner s (lock_key m d) = None \<and> (\<exists>v. owner s' = (owner s)(lock_key m d \<mapsto> v))"
  using assms
  by (auto simp: Acquire_def split: if_splits prod.splits sum.splits
      dest!: newToken_owner setnx_ok setnx_err)

lemma AcquirePartition_effect:
  assumes "AcquirePartition m la lo s = (s', r)"
  shows "case r of
      Inr l \<Rightarrow> l_DriverID l = partition_lease_id (PartitionFor m la lo) \<and>
        owner s (PartitionKey m (PartitionFor m la lo)) = None \<and>
        owner s' = (owner s)(PartitionKey m (PartitionFor m la lo) \<mapsto> l_Token l)
    | Inl e \<Rightarrow> owner s' = owner s \<or> owner s (PartitionKey m (PartitionFor m la lo)) = None \<and>
        (\<exists>v. owner s' = (owner s)(PartitionKey m (PartitionFor m la lo) \<mapsto> v))"
  using assms
  by (auto simp: AcquirePartition_def Let_def split: if_splits prod.splits sum.splits
      dest!: newToken_owner setnx_ok setnx_err)

lemma eval_release:
  assumes "kv_eval (lm_client m) (release_script (lm_client m) k tok) s = (s', r)"
  shows "owner s' = owner s \<or> owner s k = Some tok \<and> owner s' = (owner s)(k := None)"
    and "r = Inr n \<Longrightarrow> n = (if owner s k = Some tok then 1 else 0) \<and>
      owner s' = (if owner s k = Some tok then (owner s)(k := None) else owner s)"
proof -
  obtain t c where f: "release_script (lm_client m) k tok s = (t, c)" by force
  note e = release_script_effect [OF f]
  show "owner s' = owner s \<or> owner s k = Some tok \<and> owner s' = (owner s)(k := None)"
  proof (cases r)
    case (Inl x)
    with assms eval_err [of "release_script (lm_client m) k tok" s s' x] f e show ?thesis by auto
  next
    case (Inr x)
    with assms eval_ok [of "release_script (lm_client m) k tok" s s' x] f e show ?thesis by auto
  qed
  show "n = (if owner s k = Some tok then 1 else 0) \<and>
      owner s' = (if owner s k = Some tok then (owner s)(k := None) else owner s)" if "r = Inr n"
    using assms that eval_ok [of "release_script (lm_client m) k tok" s s' n] release_script_effect by blast
qed

lemma Release_effect:
  assumes "Release m l s = (s', r)"
  shows "owner s' = owner s \<or> owner s (lock_key m (l_DriverID l)) = Some (l_Token l) \<and>
      owner s' = (owner s)(lock_key m (l_DriverID l) := None)"
    and "r = Inr True \<Longrightarrow> owner s (lock_key m (l_DriverID l)) = Some (l_Token l) \<and>
      owner s' (lock_key m (l_DriverID l)) = None"
proof -
  let ?k = "lock_key m (l_DriverID l)"
  obtain t x where e: "kv_eval (lm_client m) (release_script (lm_client m) ?k (l_Token l)) s = (t, x)" by force
  show "owner s' = owner s \<or> owner s ?k = Some (l_Token l) \<and> owner s' = (owner s)(?k := None)"
    using assms eval_release(1) [OF e] e by (auto simp: Release_def split: if_splits)
  show "owner s ?k = Some (l_Token l) \<and> owner s' ?k = None" if "r = Inr True"
    using assms that e eval_release(2) [OF e]
    by (auto simp: Release_def script_result_def split: if_splits sum.splits)
qed

lemma Extend_effect:
  assumes "Extend m l s = (s', l', e)" "millisecond \<le> ko_TTL (lm_opts m)"
  shows "owner s' = owner s"
proof -
  let ?k = "lock_key m (l_DriverID l)" and ?ms = "go_div (ko_TTL (lm_opts m)) millisecond"
  have ms: "0 < ?ms" using assms(2) by (simp add: go_div_nonneg pos_imp_zdiv_pos_iff)
  let ?f = "extend_script (lm_client m) ?k (l_Token l) ?ms"
  obtain t x where e: "kv_eval (lm_client m) ?f s = (t, x)" by force
  obtain u c where f: "?f s = (u, c)" by force
  have "owner u = owner s" using extend_script_effect [OF f ms] by blast
  with e f eval_ok [of ?f s t] eval_err [of ?f s t] have "owner t = owner s" by (cases x) fastforce+
  with assms(1) e show ?thesis
    by (auto simp: Extend_def Let_def split: sum.splits if_splits)
qed

end

section \<open>Everything but expiry\<close>

text \<open>The actions of any process on the leases, where only the holder of the token \<open>tok\<close> releases
  with it.\<close>

inductive lease_step :: "'s Manager \<Rightarrow> string \<Rightarrow> 's \<Rightarrow> 's \<Rightarrow> bool" for m tok where
    acquires: "Acquire m d s = (s', r) \<Longrightarrow> lease_step m tok s s'"
  | acquires_partition: "AcquirePartition m la lo s = (s', r) \<Longrightarrow> lease_step m tok s s'"
  | releases: "Release m l s = (s', q) \<Longrightarrow> l_Token l \<noteq> tok \<Longrightarrow> lease_step m tok s s'"
  | releases_partition: "ReleasePartition qt m l s = (s', q) \<Longrightarrow> l_Token l \<noteq> tok \<Longrightarrow> lease_step m tok s s'"
  | extends: "Extend m l s = (s', l', e) \<Longrightarrow> lease_step m tok s s'"
  | asks: "IsHeld m d s = (s', q) \<Longrightarrow> lease_step m tok s s'"

lemma AcquireMany_steps: "AcquireMany m is s = (s', ls, e) \<Longrightarrow> (lease_step m tok)\<^sup>*\<^sup>* s s'"
proof (induction "is" arbitrary: s ls)
  case (Cons i "is")
  obtain s1 r where a: "Acquire m i s = (s1, r)" by force
  then have st: "lease_step m tok s s1" by (rule acquires)
  show ?case
  proof (cases r)
    case (Inl x)
    show ?thesis
    proof (cases "errors_is x ErrNotAcquired")
      case True
      with Cons.prems a Inl have "AcquireMany m is s1 = (s', ls, e)" by simp
      from Cons.IH [OF this] st show ?thesis by (rule converse_rtranclp_into_rtranclp [rotated])
    next
      case False
      with Cons.prems a Inl st show ?thesis by auto
    qed
  next
    case (Inr l)
    with Cons.prems a obtain ls' where "AcquireMany m is s1 = (s', ls', e)" by (auto split: prod.splits)
    from Cons.IH [OF this] st show ?thesis by (rule converse_rtranclp_into_rtranclp [rotated])
  qed
qed simp

context lock_manager
begin

lemma lease_step_keeps:
  assumes "lease_step m tok s s'" "millisecond \<le> ko_TTL (lm_opts m)" "owner s k = Some tok"
  shows "owner s' k = Some tok"
  using assms(1)
proof cases
  case (acquires d r)
  from Acquire_effect [OF this] assms(3) show ?thesis by (auto split: sum.splits)
next
  case (acquires_partition la lo r)
  from AcquirePartition_effect [OF this] assms(3) show ?thesis by (auto split: sum.splits)
next
  case (releases l q)
  from Release_effect(1) [OF releases(1)] releases(2) assms(3) show ?thesis by auto
next
  case (releases_partition qt l q)
  then show ?thesis
  proof (cases "scan_partition (l_DriverID l)")
    case (Some p)
    obtain t x where e: "kv_eval (lm_client m) (release_script (lm_client m) (PartitionKey m p) (l_Token l)) s = (t, x)"
      by force
    from eval_release(1) [OF e] releases_partition Some e assms(3) show ?thesis
      by (auto simp: ReleasePartition_def)
  qed (use releases_partition assms(3) in \<open>simp add: ReleasePartition_def\<close>)
next
  case (extends l l' e)
  from Extend_effect [OF this assms(2)] assms(3) show ?thesis by simp
next
  case (asks d q)
  then show ?thesis using assms(3) by (auto simp: IsHeld_def split: prod.splits dest: exists_owner)
qed

lemma lease_steps_keep:
  "(lease_step m tok)\<^sup>*\<^sup>* s s' \<Longrightarrow> millisecond \<le> ko_TTL (lm_opts m) \<Longrightarrow> owner s k = Some tok \<Longrightarrow>
     owner s' k = Some tok"
  by (induction rule: rtranclp_induct) (auto dest: lease_step_keeps)

lemma AcquireMany_live:
  "AcquireMany m is s = (s', ls, e) \<Longrightarrow>
     subseq (map l_DriverID ls) is \<and>
     (\<forall>l\<in>set ls. owner s' (lock_key m (l_DriverID l)) = Some (l_Token l)) \<and>
     (\<forall>k v. owner s k = Some v \<longrightarrow> owner s' k = Some v)"
proof (induction "is" arbitrary: s ls)
  case (Cons i "is")
  obtain s1 r where a: "Acquire m i s = (s1, r)" by force
  note eff = Acquire_effect [OF a]
  have keep: "owner s k = Some v \<Longrightarrow> owner s1 k = Some v" for k v
    using eff by (auto split: sum.splits)
  show ?case
  proof (cases r)
    case (Inl x)
    show ?thesis
    proof (cases "errors_is x ErrNotAcquired")
      case True
      with Cons.prems a Inl have "AcquireMany m is s1 = (s', ls, e)" by simp
      from Cons.IH [OF this] keep show ?thesis by auto
    next
      case False
      with Cons.prems a Inl keep show ?thesis by auto
    qed
  next
    case (Inr l)
    with Cons.prems a obtain ls' where r: "AcquireMany m is s1 = (s', ls', e)" "ls = l # ls'"
      by (auto split: prod.splits)
    from Cons.IH [OF r(1)] r(2) keep eff Inr show ?thesis by auto
  qed
qed simp

end

section \<open>An in-memory instance\<close>

record mem_kv =
  mk_store :: "string \<Rightarrow> string option"
  mk_next :: nat
  mk_clock :: gotime

definition mem_kv_client :: "mem_kv kv_client" where
  "mem_kv_client =
     \<lparr>setnx = (\<lambda>k v d s. if mk_store s k = None then (s\<lparr>mk_store := (mk_store s)(k \<mapsto> v)\<rparr>, Inr True) else (s, Inr False)),
      kv_eval = (\<lambda>f s. let (s', n) = f s in (s', Inr n)),
      kv_get = (\<lambda>k s. mk_store s k),
      kv_del = (\<lambda>k s. (s\<lparr>mk_store := (mk_store s)(k := None)\<rparr>, if mk_store s k = None then 0 else 1)),
      kv_pexpire = (\<lambda>k ms s. (s, if mk_store s k = None then 0 else 1)),
      kv_exists = (\<lambda>k s. (s, Inr (if mk_store s k = None then 0 else 1))),
      kv_ping = (\<lambda>s. (s, None)),
      rand_read = (\<lambda>n s. (s\<lparr>mk_next := Suc (mk_next s)\<rparr>, Inr (replicate n (word_of_nat (mk_next s)))))\<rparr>"

definition mem_manager :: "mem_kv Manager" where
  "mem_manager = \<lparr>lm_client = mem_kv_client, lm_opts = (LockDefaultOptions mk_clock)\<lparr>ko_TenantID := ''acme''\<rparr>\<rparr>"

interpretation memk: redis_kv mem_kv_client mk_store
  by unfold_locales (auto simp: mem_kv_client_def Let_def split: if_splits prod.splits)

interpretation memm: lock_manager mem_manager mk_store
  using memk.redis_kv_axioms by (simp add: lock_manager_def mem_manager_def)

definition free_store :: mem_kv where
  "free_store = \<lparr>mk_store = (\<lambda>_. None), mk_next = 1, mk_clock = 0\<rparr>"

section \<open>The properties of leases\<close>

text \<open>C20. A granted lease is exclusive: from the moment \<open>Acquire\<close> returned it, whatever any process
  does (acquiring, releasing with other tokens, extending, taking and releasing partitions) in any
  interleaving, as long as it does not expire the key still carries its token and every further
  \<open>Acquire\<close> of the same driver fails and changes nothing.\<close>

theorem lease_exclusive:
  assumes "lock_manager m owner" "millisecond \<le> ko_TTL (lm_opts m)"
    and "Acquire m d s = (s1, Inr l)" "(lease_step m (l_Token l))\<^sup>*\<^sup>* s1 s2" "Acquire m d s2 = (s3, r)"
  shows "owner s (lock_key m d) = None \<and> owner s2 (lock_key m d) = Some (l_Token l) \<and>
    (\<exists>e. r = Inl e) \<and> owner s3 = owner s2"
proof -
  note a = lock_manager.Acquire_effect [OF assms(1,3)]
  then have k: "owner s2 (lock_key m d) = Some (l_Token l)"
    using lock_manager.lease_steps_keep [OF assms(1,4,2)] by simp
  with lock_manager.Acquire_effect [OF assms(1,5)] a show ?thesis by (auto split: sum.splits)
qed

theorem lease_exclusive_witness:
  "\<exists>s1 l s3. Acquire mem_manager ''d1'' free_store = (s1, Inr l) \<and>
     Acquire mem_manager ''d1'' s1 = (s3, Inl (Sent ErrNotAcquired)) \<and> mk_store s3 = mk_store s1"
proof -
  let ?s1 = "free_store\<lparr>mk_next := 2, mk_store := [''lock:driver:acme:d1'' \<mapsto> hex_encode (replicate 16 1)]\<rparr>"
  let ?l = "\<lparr>l_DriverID = ''d1'', l_Token = hex_encode (replicate 16 1), l_ExpiresAt = 10 * second\<rparr>"
  have a: "Acquire mem_manager ''d1'' free_store = (?s1, Inr ?l)"
    by (simp add: Acquire_def newToken_def mem_manager_def mem_kv_client_def free_store_def lock_key_def
        LockDefaultOptions_def)
  have b: "Acquire mem_manager ''d1'' ?s1 = (?s1\<lparr>mk_next := 3\<rparr>, Inl (Sent ErrNotAcquired))"
    by (simp add: Acquire_def newToken_def mem_manager_def mem_kv_client_def free_store_def lock_key_def
        LockDefaultOptions_def)
  have "mk_store (?s1\<lparr>mk_next := 3\<rparr>) = mk_store ?s1"
    using lease_exclusive [OF memm.lock_manager_axioms _ a rtranclp.rtrancl_refl b]
    by (simp add: mem_manager_def LockDefaultOptions_def)
  with a b show ?thesis by blast
qed



text \<open>\<open>AcquireMany\<close> is partial on purpose: the leases it returns, with an error or without, are all
  held by the caller when it returns, belong to the requested drivers in order, and no lease that
  anyone held before is lost.\<close>

theorem acquire_many_holds:
  assumes "lock_manager m owner" "AcquireMany m is s = (s', ls, e)"
  shows "subseq (map l_DriverID ls) is \<and>
    (\<forall>l\<in>set ls. owner s' (lock_key m (l_DriverID l)) = Some (l_Token l)) \<and>
    (\<forall>k v. owner s k = Some v \<longrightarrow> owner s' k = Some v)"
  by (rule lock_manager.AcquireMany_live [OF assms])

theorem acquire_many_holds_witness:
  "subseq (map l_DriverID (fst (snd (AcquireMany mem_manager [''d1'', ''d2'', ''d1''] free_store)))) [''d1'', ''d2'', ''d1'']"
proof -
  let ?a = "AcquireMany mem_manager [''d1'', ''d2'', ''d1''] free_store"
  have "?a = (fst ?a, fst (snd ?a), snd (snd ?a))" by simp
  from acquire_many_holds [OF memm.lock_manager_axioms this] show ?thesis by blast
qed

end
