(* ===== verification/Geohash_Properties.thy ===== *)
theory Geohash_Properties
  imports Locks_Properties
begin

text \<open>
  The geohash of \<open>internal/locks\<close>: the loop ends with the requested number of characters, a longer
  hash refines a shorter one, and a shared hash means that the points are close; the partition of a
  coordinate is in range, and which lease operation frees a partition.
\<close>

section \<open>The loop\<close>

abbreviation gh_iter :: "float64 \<Rightarrow> float64 \<Rightarrow> nat \<Rightarrow> gh_state" where
  "gh_iter lat lng n \<equiv> (gh_step lat lng ^^ n) gh_init"

lemma gh_halve_sel [simp]:
  "gh_bit (gh_halve lat lng st) = gh_bit st" "gh_out (gh_halve lat lng st) = gh_out st"
  "gh_even (gh_halve lat lng st) = gh_even st"
  by (simp_all add: gh_halve_def Let_def)

lemma gh_halve_ch: "gh_ch (gh_halve lat lng st) \<in> {2 * gh_ch st, 2 * gh_ch st + 1}"
  by (simp add: gh_halve_def Let_def)

lemma gh_step_out: "\<exists>t. gh_out (gh_step lat lng st) = gh_out st @ t"
  by (simp add: gh_step_def Let_def)

text \<open>Position of the loop after \<open>n\<close> iterations.\<close>

lemma gh_iter_position:
  "gh_bit (gh_iter lat lng n) = n mod 5 \<and> length (gh_out (gh_iter lat lng n)) = n div 5 \<and>
   gh_ch (gh_iter lat lng n) < 2 ^ (n mod 5) \<and> (gh_even (gh_iter lat lng n) \<longleftrightarrow> even n) \<and>
   set (gh_out (gh_iter lat lng n)) \<subseteq> set geohashAlphabet"
proof (induction n)
  case 0
  then show ?case by (simp add: gh_init_def)
next
  case (Suc n)
  define st where "st = gh_iter lat lng n"
  have i: "gh_iter lat lng (Suc n) = gh_step lat lng st" by (simp add: st_def)
  note IH = Suc [folded st_def]
  have c: "gh_ch (gh_halve lat lng st) < 2 ^ Suc (n mod 5)" using gh_halve_ch [of lat lng st] IH by auto
  show ?case
  proof (cases "n mod 5 = 4")
    case True
    then have e: "Suc n mod 5 = 0" "Suc n div 5 = Suc (n div 5)" by presburger+
    from c True have "gh_ch (gh_halve lat lng st) < length geohashAlphabet" by (simp add: geohashAlphabet_def)
    then have "geohashAlphabet ! gh_ch (gh_halve lat lng st) \<in> set geohashAlphabet" by simp
    with IH True e show ?thesis unfolding i by (auto simp: gh_step_def Let_def)
  next
    case False
    then have e: "Suc n mod 5 = Suc (n mod 5)" "Suc n div 5 = n div 5" by presburger+
    with IH c False show ?thesis unfolding i by (auto simp: gh_step_def Let_def)
  qed
qed

lemma geohash_run_iter: "geohash_run lat lng p = Some (gh_iter lat lng (5 * p))"
proof -
  have b: "length (gh_out (gh_iter lat lng k)) < p \<longleftrightarrow> k < 5 * p" for k
    using gh_iter_position [of k lat lng] by (auto simp: div_less_iff_less_mult mult.commute)
  have "(LEAST k. \<not> length (gh_out (gh_iter lat lng k)) < p) = 5 * p"
    unfolding b by (rule Least_equality) auto
  moreover have "\<exists>k. \<not> length (gh_out (gh_iter lat lng k)) < p" unfolding b by auto
  ultimately show ?thesis unfolding geohash_run_def while_option_def by simp
qed

lemma Geohash_iter: "0 < p \<Longrightarrow> Geohash lat lng p = gh_out (gh_iter lat lng (5 * nat p))"
  by (simp add: Geohash_def geohash_run_iter)

lemma gh_iter_prefix: "n \<le> k \<Longrightarrow> prefix (gh_out (gh_iter lat lng n)) (gh_out (gh_iter lat lng k))"
proof (induction k rule: nat_induct_at_least)
  case (Suc k)
  with gh_step_out [of lat lng "gh_iter lat lng k"] show ?case
    by (metis comp_apply funpow.simps(2) prefixI prefix_order.order_trans)
qed simp

section \<open>Cells\<close>

text \<open>The interval of the latitude is halved every second iteration and keeps the point.\<close>

definition in_cell :: "rat \<Rightarrow> rat \<Rightarrow> gh_state \<Rightarrow> bool" where
  "in_cell la lo st \<longleftrightarrow> gh_lat0 st \<le> la \<and> la \<le> gh_lat1 st \<and> gh_lng0 st \<le> lo \<and> lo \<le> gh_lng1 st"

lemma gh_step_in_cell: "in_cell la lo st \<Longrightarrow> in_cell la lo (gh_step (Fin la) (Fin lo) st)"
  by (auto simp: in_cell_def gh_step_def gh_halve_def Let_def)

lemma gh_step_width:
  "gh_lat1 (gh_step lat lng st) - gh_lat0 (gh_step lat lng st) =
     (if gh_even st then 1 else 1 / 2) * (gh_lat1 st - gh_lat0 st)"
  "gh_lng1 (gh_step lat lng st) - gh_lng0 (gh_step lat lng st) =
     (if gh_even st then 1 / 2 else 1) * (gh_lng1 st - gh_lng0 st)"
  by (auto simp: gh_step_def gh_halve_def Let_def field_simps)

lemma gh_iter_in_cell:
  "- 90 \<le> la \<Longrightarrow> la \<le> 90 \<Longrightarrow> - 180 \<le> lo \<Longrightarrow> lo \<le> 180 \<Longrightarrow> in_cell la lo (gh_iter (Fin la) (Fin lo) n)"
proof (induction n)
  case 0
  then show ?case by (simp add: gh_init_def in_cell_def)
next
  case (Suc n)
  then show ?case by (simp add: gh_step_in_cell)
qed

lemma gh_iter_width:
  "gh_lat1 (gh_iter lat lng n) - gh_lat0 (gh_iter lat lng n) = 180 / 2 ^ (n div 2) \<and>
   gh_lng1 (gh_iter lat lng n) - gh_lng0 (gh_iter lat lng n) = 360 / 2 ^ (Suc n div 2)"
proof (induction n)
  case (Suc n)
  have ev: "gh_even (gh_iter lat lng n) \<longleftrightarrow> even n" using gh_iter_position by blast
  show ?case
  proof (cases "even n")
    case True
    then obtain k where "n = 2 * k" by (rule evenE)
    with Suc ev True show ?thesis by (simp add: gh_step_width)
  next
    case False
    then obtain k where "n = 2 * k + 1" by (rule oddE)
    with Suc ev False show ?thesis by (simp add: gh_step_width)
  qed
qed (simp add: gh_init_def)

text \<open>The state is determined by the characters: the bits of a character determine each of the five
  halvings.\<close>

definition gh_goes_up :: "float64 \<Rightarrow> float64 \<Rightarrow> gh_state \<Rightarrow> bool" where
  "gh_goes_up lat lng st =
     (if gh_even st then f_less (Fin ((gh_lng0 st + gh_lng1 st) / 2)) lng
      else f_less (Fin ((gh_lat0 st + gh_lat1 st) / 2)) lat)"

definition gh_half_step :: "float64 \<Rightarrow> float64 \<Rightarrow> gh_state \<Rightarrow> gh_state" where
  "gh_half_step lat lng st =
     (let st1 = gh_halve lat lng st in st1\<lparr>gh_even := \<not> gh_even st1, gh_bit := gh_bit st1 + 1\<rparr>)"

lemma gh_half_step_ch: "gh_ch (gh_half_step lat lng st) = 2 * gh_ch st + of_bool (gh_goes_up lat lng st)"
  by (simp add: gh_half_step_def gh_halve_def gh_goes_up_def Let_def)

lemma gh_half_step_cong:
  "gh_goes_up lat lng st = gh_goes_up lat' lng' st \<Longrightarrow> gh_half_step lat lng st = gh_half_step lat' lng' st"
  by (simp add: gh_half_step_def gh_halve_def gh_goes_up_def Let_def split: if_splits)

lemma gh_half_steps_same:
  "gh_ch ((gh_half_step lat lng ^^ k) st) = gh_ch ((gh_half_step lat' lng' ^^ k) st) \<Longrightarrow>
     (gh_half_step lat lng ^^ k) st = (gh_half_step lat' lng' ^^ k) st"
proof (induction k)
  case (Suc k)
  define x y where "x = (gh_half_step lat lng ^^ k) st" and "y = (gh_half_step lat' lng' ^^ k) st"
  have bits: "a = b \<and> p = q" if e: "2 * a + of_bool p = 2 * b + of_bool q" for a b :: nat and p q
  proof -
    from e have "even (2 * a + of_bool p) = even (2 * b + of_bool q)" by (rule arg_cong)
    then have "p = q" by (cases p; cases q; simp)
    with e show ?thesis by simp
  qed
  from Suc.prems have "2 * gh_ch x + of_bool (gh_goes_up lat lng x) = 2 * gh_ch y + of_bool (gh_goes_up lat' lng' y)"
    by (simp add: gh_half_step_ch x_def y_def)
  from bits [OF this] have c: "gh_ch x = gh_ch y" and g: "gh_goes_up lat lng x = gh_goes_up lat' lng' y" by auto
  from Suc.IH c have "x = y" by (simp add: x_def y_def)
  with g gh_half_step_cong have "gh_half_step lat lng x = gh_half_step lat' lng' y" by blast
  then show ?case by (simp add: x_def y_def)
qed simp

lemma gh_step_half:
  "gh_bit st < 4 \<Longrightarrow> gh_step lat lng st = gh_half_step lat lng st"
  "gh_bit st = 4 \<Longrightarrow> gh_step lat lng st = (gh_half_step lat lng st)
     \<lparr>gh_out := gh_out (gh_half_step lat lng st) @ [geohashAlphabet ! gh_ch (gh_half_step lat lng st)], gh_bit := 0, gh_ch := 0\<rparr>"
  by (simp_all add: gh_step_def gh_half_step_def Let_def)

lemma gh_half_step_bit [simp]: "gh_bit (gh_half_step lat lng st) = Suc (gh_bit st)"
  "gh_out (gh_half_step lat lng st) = gh_out st"
  by (simp_all add: gh_half_step_def Let_def)

lemma gh_half_steps_bit:
  "gh_bit ((gh_half_step lat lng ^^ k) st) = gh_bit st + k \<and> gh_out ((gh_half_step lat lng ^^ k) st) = gh_out st"
  by (induction k) auto

lemma gh_steps_half: "gh_bit st = 0 \<Longrightarrow> k \<le> 4 \<Longrightarrow> (gh_step lat lng ^^ k) st = (gh_half_step lat lng ^^ k) st"
proof (induction k)
  case (Suc k)
  have "gh_bit ((gh_half_step lat lng ^^ k) st) = k" using gh_half_steps_bit [of k lat lng st] Suc.prems by simp
  with Suc show ?case by (simp add: gh_step_half)
qed simp

text \<open>Five iterations from the start of a character.\<close>

lemma gh_five_steps:
  assumes "gh_bit st = 0"
  shows "(gh_step lat lng ^^ 5) st = ((gh_half_step lat lng ^^ 5) st)
    \<lparr>gh_out := gh_out st @ [geohashAlphabet ! gh_ch ((gh_half_step lat lng ^^ 5) st)], gh_bit := 0, gh_ch := 0\<rparr>"
proof -
  define x where "x = (gh_half_step lat lng ^^ 4) st"
  have x: "gh_bit x = 4" "gh_out x = gh_out st" using gh_half_steps_bit [of 4 lat lng st] assms by (simp_all add: x_def)
  have "(gh_step lat lng ^^ 5) st = gh_step lat lng ((gh_step lat lng ^^ 4) st)"
    by (simp add: numeral_eq_Suc)
  also have "\<dots> = gh_step lat lng x" using gh_steps_half [OF assms, of 4] by (simp add: x_def)
  finally have "(gh_step lat lng ^^ 5) st = gh_step lat lng x" .
  moreover have "(gh_half_step lat lng ^^ 5) st = gh_half_step lat lng x" by (simp add: x_def numeral_eq_Suc)
  ultimately show ?thesis using x by (simp add: gh_step_half)
qed


lemma alphabet_distinct: "distinct geohashAlphabet" "length geohashAlphabet = 32"
  by (simp_all add: geohashAlphabet_def)

lemma gh_half_five_ch:
  assumes "gh_ch st = 0"
  shows "gh_ch ((gh_half_step lat lng ^^ 5) st) < 32"
proof -
  have "gh_ch ((gh_half_step lat lng ^^ k) st) < 2 ^ k" for k
  proof (induction k)
    case (Suc k)
    then show ?case by (cases "gh_goes_up lat lng ((gh_half_step lat lng ^^ k) st)") (auto simp: gh_half_step_ch)
  qed (simp add: assms)
  from this [of 5] show ?thesis by simp
qed

lemma gh_iter_determined:
  "gh_out (gh_iter lat lng (5 * p)) = gh_out (gh_iter lat' lng' (5 * p)) \<Longrightarrow>
     gh_iter lat lng (5 * p) = gh_iter lat' lng' (5 * p)"
proof (induction p)
  case (Suc p)
  define x y where "x = gh_iter lat lng (5 * p)" and "y = gh_iter lat' lng' (5 * p)"
  have split: "gh_iter a b (5 * Suc p) = (gh_step a b ^^ 5) (gh_iter a b (5 * p))" for a b
    by (simp add: funpow_add [symmetric, THEN fun_cong, unfolded comp_def] add.commute)
  have b: "gh_bit (gh_iter a c (5 * p)) = 0" "gh_ch (gh_iter a c (5 * p)) = 0" for a c
    using gh_iter_position [of "5 * p" a c] by simp_all
  have o: "gh_out (gh_iter a c (5 * Suc p)) = gh_out (gh_iter a c (5 * p)) @
      [geohashAlphabet ! gh_ch ((gh_half_step a c ^^ 5) (gh_iter a c (5 * p)))]" for a c
    unfolding split using gh_five_steps [OF b(1)] by simp
  from Suc.prems have "gh_out x = gh_out y"
    and ch: "geohashAlphabet ! gh_ch ((gh_half_step lat lng ^^ 5) x) = geohashAlphabet ! gh_ch ((gh_half_step lat' lng' ^^ 5) y)"
    unfolding o by (simp_all add: x_def y_def)
  with Suc.IH have xy: "x = y" by (simp add: x_def y_def)
  have "gh_ch ((gh_half_step lat lng ^^ 5) x) < 32" "gh_ch ((gh_half_step lat' lng' ^^ 5) y) < 32"
    using gh_half_five_ch b(2) by (auto simp: x_def y_def)
  with ch have "gh_ch ((gh_half_step lat lng ^^ 5) x) = gh_ch ((gh_half_step lat' lng' ^^ 5) y)"
    using alphabet_distinct by (simp add: nth_eq_iff_index_eq)
  with xy have h: "(gh_half_step lat lng ^^ 5) x = (gh_half_step lat' lng' ^^ 5) y"
    using gh_half_steps_same by metis
  have "gh_bit x = 0" "gh_bit y = 0" using b(1) by (simp_all add: x_def y_def)
  then have "(gh_step lat lng ^^ 5) x = (gh_step lat' lng' ^^ 5) y"
    using h xy by (simp add: gh_five_steps)
  then show ?case unfolding split by (simp add: x_def y_def)
qed simp

section \<open>The properties\<close>

text \<open>C22. The geohash loop ends for every coordinate, NaN and infinities included, with exactly the
  requested number of characters of the alphabet, and a longer hash of the same point extends a
  shorter one.\<close>

theorem geohash_total_and_prefix:
  assumes "0 < p" "p \<le> p'"
  shows "geohash_run lat lng (nat p) \<noteq> None \<and> length (Geohash lat lng p) = nat p \<and>
    set (Geohash lat lng p) \<subseteq> set geohashAlphabet \<and> prefix (Geohash lat lng p) (Geohash lat lng p')"
  using assms gh_iter_position [of "5 * nat p" lat lng] gh_iter_prefix [of "5 * nat p" "5 * nat p'" lat lng]
  by (simp add: Geohash_iter geohash_run_iter)

theorem geohash_total_and_prefix_witness:
  "Geohash (Fin 37) (Fin (-122)) 2 = ''9q'' \<and> prefix ''9q'' (Geohash (Fin 37) (Fin (-122)) 5)"
proof -
  have "Geohash (Fin 37) (Fin (-122)) 2 = ''9q''" by code_simp
  then show ?thesis using geohash_total_and_prefix [of 2 5 "Fin 37" "Fin (-122)"] by simp
qed

text \<open>C23. A shared geohash means physical proximity, the property the partitioning rests on: two
  coordinates on the globe with the same hash of \<open>p\<close> characters differ by at most one cell, 180
  degrees halved once for every two bits in latitude and 360 halved in longitude. Up to 18
  characters the midpoints are multiples of 45 that fit the 53 bits of a \<open>float64\<close>, so the rational
  arithmetic of the model is the one the code performs.\<close>

theorem geohash_shared_means_near:
  assumes "0 < p" "p \<le> 18" "Geohash (Fin la) (Fin lo) p = Geohash (Fin la') (Fin lo') p"
    and "- 90 \<le> la" "la \<le> 90" "- 180 \<le> lo" "lo \<le> 180"
    and "- 90 \<le> la'" "la' \<le> 90" "- 180 \<le> lo'" "lo' \<le> 180"
  shows "\<bar>la - la'\<bar> \<le> 180 / 2 ^ (5 * nat p div 2) \<and> \<bar>lo - lo'\<bar> \<le> 360 / 2 ^ (Suc (5 * nat p) div 2)"
proof -
  define st where "st = gh_iter (Fin la) (Fin lo) (5 * nat p)"
  have "gh_iter (Fin la') (Fin lo') (5 * nat p) = st"
    using gh_iter_determined assms(1,3) by (simp add: Geohash_iter st_def)
  then have "in_cell la lo st" "in_cell la' lo' st"
    using gh_iter_in_cell [of la lo "5 * nat p"] gh_iter_in_cell [of la' lo' "5 * nat p"] assms(4-11)
    by (simp_all add: st_def)
  with gh_iter_width [of "5 * nat p" "Fin la" "Fin lo"] show ?thesis
    by (auto simp: in_cell_def st_def abs_le_iff)
qed

theorem geohash_shared_means_near_witness:
  "\<bar>37 - 371/10\<bar> \<le> (180 / 2 ^ 5 :: rat)"
proof -
  have "Geohash (Fin 37) (Fin (-122)) 2 = Geohash (Fin (371/10)) (Fin (-122)) 2" by code_simp
  from geohash_shared_means_near [OF _ _ this] show ?thesis by simp
qed

text \<open>The partition of a coordinate is a valid shard number for every number of shards that fits
  32 bits, and neighbours with the same five-character hash share it.\<close>

theorem partition_in_range:
  assumes "0 < ko_Partitions (lm_opts m)" "ko_Partitions (lm_opts m) < 2 ^ 32"
  shows "0 \<le> PartitionFor m lat lng \<and> PartitionFor m lat lng < ko_Partitions (lm_opts m) \<and>
    (Geohash lat lng 5 = Geohash lat' lng' 5 \<longrightarrow> PartitionFor m lat lng = PartitionFor m lat' lng')"
proof -
  have "uint (word_of_int (ko_Partitions (lm_opts m)) :: 32 word) = ko_Partitions (lm_opts m)"
    using assms by (simp only: uint_word_of_int_eq) (rule take_bit_int_eq_self, simp_all)
  moreover have "uint (a mod b) = uint a mod uint b" for a b :: "32 word" by (simp add: uint_mod)
  ultimately show ?thesis using assms(1) by (simp add: PartitionFor_def)
qed

theorem partition_in_range_witness: "PartitionFor mem_manager (Fin 37) (Fin (-122)) < 256"
proof -
  have "ko_Partitions (lm_opts mem_manager) = 256" by (simp add: mem_manager_def LockDefaultOptions_def)
  then have "0 < ko_Partitions (lm_opts mem_manager)" "ko_Partitions (lm_opts mem_manager) < 2 ^ 32"
    and k: "ko_Partitions (lm_opts mem_manager) = 256" by simp_all
  from partition_in_range [OF this(1,2), THEN conjunct2, THEN conjunct1]
  show ?thesis unfolding k .
qed

text \<open>The comment in \<open>AcquirePartition\<close> says that \<open>Release\<close> works unchanged on a partition lease. It
  does not: it looks under a driver key, reports that nothing was released and leaves the
  partition locked until it expires; \<open>ReleasePartition\<close> frees it.\<close>

theorem release_misses_partition:
  "(case AcquirePartition mem_manager (Fin 37) (Fin (-122)) free_store of
      (s1, Inl _) \<Rightarrow> False
    | (s1, Inr l) \<Rightarrow>
        snd (Release mem_manager l s1) = Inr False \<and>
        snd (AcquirePartition mem_manager (Fin 37) (Fin (-122)) (fst (Release mem_manager l s1))) = Inl (Sent ErrNotAcquired) \<and>
        snd (ReleasePartition (\<lambda>x. x) mem_manager l s1) = Inr True)"
  by code_simp

end
