(* ===== verification/Sha256.thy ===== *)
theory Sha256
  imports Strconv
begin

text \<open>
  \<open>crypto/sha256.Sum256\<close> of the standard library, which \<open>internal/auth\<close> stores instead of a secret:
  padding to blocks of 64 bytes, the message schedule and the 64 rounds on 32-bit words. The result
  always has 32 bytes, and the padded message is a whole number of blocks.
\<close>

unbundle bit_operations_syntax

definition rotr32 :: "nat \<Rightarrow> 32 word \<Rightarrow> 32 word" where
  "rotr32 n w = (drop_bit n w) OR (push_bit (32 - n) w)"

text \<open>The constants are the first 32 bits of the fractional parts of the cube roots of the first 64
  primes; the initial state comes from the square roots of the first eight. \<open>iroot k n\<close> is the \<open>k\<close>-th
  root of \<open>n\<close> rounded down, found bit by bit.\<close>

definition sha_primes :: "nat list" where
  "sha_primes = filter (\<lambda>n. list_all (\<lambda>d. n mod d \<noteq> 0) [2..<n]) [2..<312]"

definition iroot :: "nat \<Rightarrow> nat \<Rightarrow> nat" where
  "iroot k n = fold (\<lambda>b r. if (r + 2 ^ b) ^ k \<le> n then r + 2 ^ b else r) (rev [0..<36]) 0"

definition sha_k :: "32 word list" where
  "sha_k = map (\<lambda>p. word_of_nat (iroot 3 (p * 2 ^ 96))) sha_primes"

type_synonym sha_state = "32 word \<times> 32 word \<times> 32 word \<times> 32 word \<times> 32 word \<times> 32 word \<times> 32 word \<times> 32 word"

definition sha_init :: sha_state where
  "sha_init =
     (let r = (\<lambda>i. word_of_nat (iroot 2 (sha_primes ! i * 2 ^ 64)))
      in (r 0, r 1, r 2, r 3, r 4, r 5, r 6, r 7))"

text \<open>The schedule: the window of the last 16 words, oldest first, grows one word at a time.\<close>

fun sha_extend :: "nat \<Rightarrow> 32 word list \<Rightarrow> 32 word list" where
  "sha_extend 0 ws = ws"
| "sha_extend (Suc n) ws =
     (let i = length ws;
          w15 = ws ! (i - 15); w2 = ws ! (i - 2);
          s0 = rotr32 7 w15 XOR rotr32 18 w15 XOR drop_bit 3 w15;
          s1 = rotr32 17 w2 XOR rotr32 19 w2 XOR drop_bit 10 w2
      in sha_extend n (ws @ [ws ! (i - 16) + s0 + ws ! (i - 7) + s1]))"

fun sha_round :: "sha_state \<Rightarrow> 32 word \<Rightarrow> 32 word \<Rightarrow> sha_state" where
  "sha_round (a, b, c, d, e, f, g, h) k w =
     (let t1 = h + (rotr32 6 e XOR rotr32 11 e XOR rotr32 25 e) + ((e AND f) XOR (NOT e AND g)) + k + w;
          t2 = (rotr32 2 a XOR rotr32 13 a XOR rotr32 22 a) + ((a AND b) XOR (a AND c) XOR (b AND c))
      in (t1 + t2, a, b, c, d + t1, e, f, g))"

fun sha_add :: "sha_state \<Rightarrow> sha_state \<Rightarrow> sha_state" where
  "sha_add (a, b, c, d, e, f, g, h) (a', b', c', d', e', f', g', h') =
     (a + a', b + b', c + c', d + d', e + e', f + f', g + g', h + h')"

definition sha_block :: "32 word list \<Rightarrow> sha_state \<Rightarrow> sha_state" where
  "sha_block ws st = sha_add st (fold (\<lambda>(k, w) x. sha_round x k w) (zip sha_k (sha_extend 48 ws)) st)"

fun be_words :: "8 word list \<Rightarrow> 32 word list" where
  "be_words (a # b # c # d # bs) =
     (push_bit 24 (ucast a) OR push_bit 16 (ucast b) OR push_bit 8 (ucast c) OR ucast d) # be_words bs"
| "be_words _ = []"

definition be_bytes :: "32 word \<Rightarrow> 8 word list" where
  "be_bytes w = [ucast (drop_bit 24 w), ucast (drop_bit 16 w), ucast (drop_bit 8 w), ucast w]"

definition sha_pad :: "8 word list \<Rightarrow> 8 word list" where
  "sha_pad bs =
     (let n = length bs; len = (word_of_nat (8 * n) :: 64 word)
      in bs @ [0x80] @ replicate ((119 - n mod 64) mod 64) 0 @
         be_bytes (ucast (drop_bit 32 len)) @ be_bytes (ucast len))"

text \<open>The blocks of 16 words; the padding makes the number of words a multiple of 16.\<close>

fun sha_blocks :: "nat \<Rightarrow> 32 word list \<Rightarrow> sha_state \<Rightarrow> sha_state" where
  "sha_blocks 0 ws st = st"
| "sha_blocks (Suc n) ws st = sha_blocks n (drop 16 ws) (sha_block (take 16 ws) st)"

fun sha_digest :: "sha_state \<Rightarrow> 8 word list" where
  "sha_digest (a, b, c, d, e, f, g, h) = concat (map be_bytes [a, b, c, d, e, f, g, h])"

definition sha256 :: "8 word list \<Rightarrow> 8 word list" where
  "sha256 bs = (let ws = be_words (sha_pad bs) in sha_digest (sha_blocks (length ws div 16) ws sha_init))"

lemma length_sha256 [simp]: "length (sha256 bs) = 32"
proof -
  have "length (sha_digest st) = 32" for st
    by (cases st rule: sha_digest.cases) (simp add: be_bytes_def)
  then show ?thesis by (simp add: sha256_def Let_def)
qed

lemma length_be_words: "length (be_words bs) = length bs div 4"
  by (induction bs rule: be_words.induct) auto

lemma sha_pad_length: "r < 64 \<Longrightarrow> (r + 1 + (119 - r) mod 64 + 8) mod 64 = (0 :: nat)"
proof (cases "r \<le> 55")
  case True
  then have "119 - r = 64 + (55 - r)" by simp
  moreover have "55 - r < 64" by simp
  ultimately have "(119 - r) mod 64 = 55 - r" by (metis mod_add_self1 mod_less)
  with True show ?thesis by simp
next
  case False
  assume "r < 64"
  with False have "(119 - r) mod 64 = 119 - r" by simp
  with \<open>r < 64\<close> show ?thesis by simp
qed

lemma sha_pad_blocks: "64 dvd length (sha_pad bs)"
proof -
  define n where "n = length bs"
  have "length (sha_pad bs) = n + 1 + (119 - n mod 64) mod 64 + 8"
    by (simp add: sha_pad_def Let_def be_bytes_def n_def)
  moreover have "(n + (1 + (119 - n mod 64) mod 64 + 8)) mod 64 = (n mod 64 + (1 + (119 - n mod 64) mod 64 + 8)) mod 64"
    by (simp only: mod_add_left_eq)
  moreover have "(n mod 64 + 1 + (119 - n mod 64) mod 64 + 8) mod 64 = 0" by (rule sha_pad_length) simp
  ultimately show ?thesis by (simp only: dvd_eq_mod_eq_0 ac_simps)
qed

definition bytes_of :: "string \<Rightarrow> 8 word list" where
  "bytes_of s = map (\<lambda>c. word_of_nat (of_char c)) s"

end
