(* ===== verification/Http.thy ===== *)
theory Http
  imports Strconv
begin

text \<open>
  The parts of \<open>net/http\<close> that the services use. A request carries the values its context holds,
  the authenticated key and the request id. A \<open>ResponseWriter\<close> is a value: the header map, the
  status with the headers it was sent with (the first \<open>WriteHeader\<close> wins), and the documents
  written. \<open>rw_Calls\<close> are the arguments of the calls of \<open>WriteHeader\<close>. Bodies are documents rather than bytes: the JSON encoder only prints them. A handler
  returns or panics.
\<close>

datatype json_doc = JStr string | JInt int | JObj "(string \<times> json_doc) list"

datatype body_part = JsonDoc json_doc | PlainText string

type_synonym header = "(string \<times> string) list"

record 'k http_request =
  hr_Method :: string
  hr_Path :: string
  hr_Header :: header
  hr_Body :: string
  hr_RemoteAddr :: string
  ctx_apikey :: "'k option"
  ctx_request_id :: "string option"

record response =
  rw_Header :: header
  rw_Sent :: "(int \<times> header) option"
  rw_Body :: "body_part list"
  rw_Calls :: "int list"

datatype outcome = Returned | Panicked string

type_synonym ('k, 's) handler = "'k http_request \<Rightarrow> response \<Rightarrow> 's \<Rightarrow> 's \<times> response \<times> outcome"

definition fresh_response :: response where
  "fresh_response = \<lparr>rw_Header = [], rw_Sent = None, rw_Body = [], rw_Calls = []\<rparr>"

text \<open>Header names are compared in their canonical form, that is without regard to ASCII case.\<close>

definition lower :: "char \<Rightarrow> char" where
  "lower c = (let n = of_char c in if 65 \<le> n \<and> n \<le> (90 :: nat) then char_of (n + 32) else c)"

definition same_name :: "string \<Rightarrow> string \<Rightarrow> bool" where
  "same_name a b \<longleftrightarrow> map lower a = map lower b"

definition header_get :: "header \<Rightarrow> string \<Rightarrow> string" where
  "header_get h k = (case find (\<lambda>(n, _). same_name n k) h of None \<Rightarrow> [] | Some (_, v) \<Rightarrow> v)"

definition header_set :: "string \<Rightarrow> string \<Rightarrow> header \<Rightarrow> header" where
  "header_set k v h = filter (\<lambda>(n, _). \<not> same_name n k) h @ [(k, v)]"

definition set_header :: "string \<Rightarrow> string \<Rightarrow> response \<Rightarrow> response" where
  "set_header k v w = w\<lparr>rw_Header := header_set k v (rw_Header w)\<rparr>"

definition send_header :: "int \<Rightarrow> response \<Rightarrow> response" where
  "send_header code w = (if rw_Sent w = None then w\<lparr>rw_Sent := Some (code, rw_Header w)\<rparr> else w)"

definition write_header :: "int \<Rightarrow> response \<Rightarrow> response" where
  "write_header code w = send_header code (w\<lparr>rw_Calls := rw_Calls w @ [code]\<rparr>)"

text \<open>A write without a status sends 200.\<close>

definition write_body :: "body_part \<Rightarrow> response \<Rightarrow> response" where
  "write_body b w = (let w1 = send_header 200 w in w1\<lparr>rw_Body := rw_Body w1 @ [b]\<rparr>)"

text \<open>\<open>http.Error\<close>: plain text.\<close>

definition http_Error :: "response \<Rightarrow> string \<Rightarrow> int \<Rightarrow> response" where
  "http_Error w msg code =
     write_body (PlainText (msg @ [CHR 0x0A]))
       (write_header code
         (set_header ''X-Content-Type-Options'' ''nosniff''
           (set_header ''Content-Type'' ''text/plain; charset=utf-8'' w)))"

definition sent_status :: "response \<Rightarrow> int option" where
  "sent_status w = map_option fst (rw_Sent w)"

definition sent_header :: "response \<Rightarrow> string \<Rightarrow> string" where
  "sent_header w k = (case rw_Sent w of None \<Rightarrow> [] | Some (_, h) \<Rightarrow> header_get h k)"

lemma same_name_refl [simp]: "same_name a a"
  by (simp add: same_name_def)

lemma find_append: "find P (xs @ ys) = (case find P xs of None \<Rightarrow> find P ys | Some x \<Rightarrow> Some x)"
  by (induction xs) auto

lemma header_get_set_same: "same_name k k' \<Longrightarrow> header_get (header_set k v h) k' = v"
proof -
  assume k: "same_name k k'"
  then have "find (\<lambda>(n, _). same_name n k') (filter (\<lambda>(n, _). \<not> same_name n k) h) = None"
    by (auto simp: find_None_iff same_name_def)
  with k show ?thesis by (simp add: header_get_def header_set_def find_append)
qed

lemma header_get_set_other: "\<not> same_name k k' \<Longrightarrow> header_get (header_set k v h) k' = header_get h k'"
proof -
  assume k: "\<not> same_name k k'"
  then have "find (\<lambda>(n, _). same_name n k') (filter (\<lambda>(n, _). \<not> same_name n k) h) = find (\<lambda>(n, _). same_name n k') h"
    by (induction h) (auto simp: same_name_def)
  with k show ?thesis by (auto simp: header_get_def header_set_def find_append split: option.splits)
qed

lemma set_header_sel [simp]:
  "rw_Sent (set_header k v w) = rw_Sent w" "rw_Body (set_header k v w) = rw_Body w"
  "rw_Header (set_header k v w) = header_set k v (rw_Header w)" "rw_Calls (set_header k v w) = rw_Calls w"
  by (simp_all add: set_header_def)

lemma write_header_sel [simp]:
  "rw_Header (write_header c w) = rw_Header w" "rw_Body (write_header c w) = rw_Body w"
  "rw_Sent (write_header c w) = (case rw_Sent w of None \<Rightarrow> Some (c, rw_Header w) | Some x \<Rightarrow> Some x)"
  "rw_Calls (write_header c w) = rw_Calls w @ [c]"
  by (simp_all add: write_header_def send_header_def split: option.splits)

lemma write_body_sel [simp]:
  "rw_Header (write_body b w) = rw_Header w" "rw_Body (write_body b w) = rw_Body w @ [b]"
  "rw_Sent (write_body b w) = (case rw_Sent w of None \<Rightarrow> Some (200, rw_Header w) | Some x \<Rightarrow> Some x)"
  "rw_Calls (write_body b w) = rw_Calls w"
  by (simp_all add: write_body_def send_header_def Let_def split: option.splits)

lemma http_Error_sel [simp]:
  "rw_Body (http_Error w msg code) = rw_Body w @ [PlainText (msg @ [CHR 0x0A])]"
  "rw_Sent w = None \<Longrightarrow> sent_status (http_Error w msg code) = Some code"
  by (simp_all add: http_Error_def sent_status_def)

end
