(* ===== verification/Redis_Streams.thy ===== *)
theory Redis_Streams
  imports Strconv
begin

text \<open>
  The Redis Streams commands that \<open>internal/queue\<close> calls through go-redis. The server and its
  client library are not part of the repository, so the commands are a parameter of the model: a
  record of functions on the server's state. The locale \<open>redis_streams\<close> states what the queue
  relies on, from the documentation of the commands, over four observations of the state: the
  retained entries of a stream, the ids it has ever generated, and the delivery status of an id
  in a consumer group. An error leaves it open whether the command took effect, as a lost reply
  does. \<open>redis_accepting\<close> adds that the server never refuses a command that reaches it, so that a
  pipeline stops only where the connection broke.

  \<open>mem_streams\<close> is an executable in-memory server that satisfies both, with a schedule of injected
  failures; the witnesses of the queue and batcher properties run on it. \<open>oom_streams\<close> is the same
  server once it is out of memory: it refuses \<open>XADD\<close> and still executes \<open>XACK\<close>.
\<close>

section \<open>The commands\<close>

record xmessage =
  xm_id :: string
  xm_values :: "(string \<times> string) list"

record 's stream_client =
  xadd :: "string \<Rightarrow> int \<Rightarrow> (string \<times> string) list \<Rightarrow> 's \<Rightarrow> 's \<times> (goerr + string)"
  xreadgroup :: "string \<Rightarrow> string \<Rightarrow> string \<Rightarrow> int \<Rightarrow> duration \<Rightarrow> 's \<Rightarrow>
                   's \<times> (goerr + (string \<times> xmessage list) list)"
  xpending_ext :: "string \<Rightarrow> string \<Rightarrow> duration \<Rightarrow> int \<Rightarrow> 's \<Rightarrow> 's \<times> (goerr + (string \<times> int) list)"
  xclaim :: "string \<Rightarrow> string \<Rightarrow> string \<Rightarrow> duration \<Rightarrow> string list \<Rightarrow> 's \<Rightarrow>
               's \<times> (goerr + xmessage list)"
  xack :: "string \<Rightarrow> string \<Rightarrow> string list \<Rightarrow> 's \<Rightarrow> 's \<times> (goerr + int)"
  xpipe :: "('s \<Rightarrow> 's \<times> goerr option) list \<Rightarrow> 's \<Rightarrow> 's \<times> goerr option"
  xgroup_create_mkstream :: "string \<Rightarrow> string \<Rightarrow> string \<Rightarrow> 's \<Rightarrow> 's \<times> goerr option"
  xinfo_groups :: "string \<Rightarrow> 's \<Rightarrow> 's \<times> (goerr + (string \<times> int) list)"
  xpending :: "string \<Rightarrow> string \<Rightarrow> 's \<Rightarrow> 's \<times> (goerr + int)"
  xlen :: "string \<Rightarrow> 's \<Rightarrow> 's \<times> (goerr + int)"
  xping :: "'s \<Rightarrow> 's \<times> goerr option"

text \<open>The result of a command as a queued pipeline command reports it.\<close>

definition as_cmd :: "('s \<Rightarrow> 's \<times> (goerr + 'a)) \<Rightarrow> 's \<Rightarrow> 's \<times> goerr option" where
  "as_cmd f s = (case f s of (s', Inl e) \<Rightarrow> (s', Some e) | (s', Inr _) \<Rightarrow> (s', None))"

lemma as_cmd_cases:
  assumes "as_cmd f s = (s', r)"
  obtains e where "f s = (s', Inl e)" "r = Some e" | v where "f s = (s', Inr v)" "r = None"
  using assms by (auto simp: as_cmd_def split: prod.splits sum.splits)

text \<open>Executing queued commands one after the other, each whatever the others returned; the
  error is the first one, as \<open>Pipeline.Exec\<close> reports it.\<close>

fun run_cmds :: "('s \<Rightarrow> 's \<times> goerr option) list \<Rightarrow> 's \<Rightarrow> 's \<times> goerr option" where
  "run_cmds [] s = (s, None)"
| "run_cmds (c # cs) s =
     (let (s1, e) = c s; (s2, e') = run_cmds cs s1
      in (s2, case e of None \<Rightarrow> e' | Some _ \<Rightarrow> e))"

text \<open>One of the commands of a pipeline executing, whatever it answers.\<close>

definition step_of :: "('s \<Rightarrow> 's \<times> goerr option) list \<Rightarrow> 's \<Rightarrow> 's \<Rightarrow> bool" where
  "step_of cs t t' \<longleftrightarrow> (\<exists>c\<in>set cs. t' = fst (c t))"

lemma run_cmds_two:
  "run_cmds [a, b] s = (s', None) \<longleftrightarrow> (\<exists>s1. a s = (s1, None) \<and> b s1 = (s', None))"
  by (auto split: prod.splits option.splits)

section \<open>What the queue relies on\<close>

datatype delivery = Undelivered | Pending int | Settled

text \<open>\<open>appended\<close>: an entry with a new id at the end of the stream. \<open>MAXLEN ~ m\<close> may evict the
  oldest entries, and only while at least \<open>m\<close> remain.\<close>

definition appended ::
  "('s \<Rightarrow> string \<Rightarrow> xmessage list) \<Rightarrow> ('s \<Rightarrow> string \<Rightarrow> string set) \<Rightarrow>
   ('s \<Rightarrow> string \<Rightarrow> string \<Rightarrow> string \<Rightarrow> delivery) \<Rightarrow>
   string \<Rightarrow> int \<Rightarrow> (string \<times> string) list \<Rightarrow> string \<Rightarrow> 's \<Rightarrow> 's \<Rightarrow> bool" where
  "appended entries used deliv k m f i s s' \<longleftrightarrow>
     i \<notin> used s k \<and> i \<noteq> [] \<and> used s' = (used s)(k := insert i (used s k)) \<and>
     (\<exists>n. entries s' = (entries s)(k := drop n (entries s k @ [\<lparr>xm_id = i, xm_values = f\<rparr>])) \<and>
          (n = 0 \<or> m \<le> int (length (entries s' k)))) \<and>
     (\<forall>k' g j. deliv s' k' g j = (if k' = k \<and> j = i then Undelivered else deliv s k' g j))"

definition unchanged ::
  "('s \<Rightarrow> string \<Rightarrow> xmessage list) \<Rightarrow> ('s \<Rightarrow> string \<Rightarrow> string set) \<Rightarrow>
   ('s \<Rightarrow> string \<Rightarrow> string \<Rightarrow> string \<Rightarrow> delivery) \<Rightarrow> 's \<Rightarrow> 's \<Rightarrow> bool" where
  "unchanged entries used deliv s s' \<longleftrightarrow>
     entries s' = entries s \<and> used s' = used s \<and> deliv s' = deliv s"

text \<open>\<open>acked\<close>: the ids that were pending are settled, nothing else changes.\<close>

definition acked ::
  "('s \<Rightarrow> string \<Rightarrow> xmessage list) \<Rightarrow> ('s \<Rightarrow> string \<Rightarrow> string set) \<Rightarrow>
   ('s \<Rightarrow> string \<Rightarrow> string \<Rightarrow> string \<Rightarrow> delivery) \<Rightarrow>
   string \<Rightarrow> string \<Rightarrow> string list \<Rightarrow> 's \<Rightarrow> 's \<Rightarrow> bool" where
  "acked entries used deliv k g ids s s' \<longleftrightarrow>
     entries s' = entries s \<and> used s' = used s \<and>
     (\<forall>k' g' j. deliv s' k' g' j =
        (if k' = k \<and> g' = g \<and> j \<in> set ids \<and> deliv s k g j \<noteq> Undelivered
         then Settled else deliv s k' g' j))"

text \<open>\<open>delivered\<close>: undelivered entries become pending with delivery count 1. \<open>claimed\<close>: pending
  entries are taken over and their count grows by one; an id whose entry was evicted may be
  dropped from the pending list.\<close>

definition delivered ::
  "('s \<Rightarrow> string \<Rightarrow> xmessage list) \<Rightarrow> ('s \<Rightarrow> string \<Rightarrow> string set) \<Rightarrow>
   ('s \<Rightarrow> string \<Rightarrow> string \<Rightarrow> string \<Rightarrow> delivery) \<Rightarrow>
   string \<Rightarrow> string \<Rightarrow> xmessage list \<Rightarrow> 's \<Rightarrow> 's \<Rightarrow> bool" where
  "delivered entries used deliv k g es s s' \<longleftrightarrow>
     entries s' = entries s \<and> used s' = used s \<and> distinct (map xm_id es) \<and>
     set es \<subseteq> set (entries s k) \<and> (\<forall>e\<in>set es. deliv s k g (xm_id e) = Undelivered) \<and>
     (\<forall>k' g' j. deliv s' k' g' j =
        (if k' = k \<and> g' = g \<and> j \<in> xm_id ` set es then Pending 1 else deliv s k' g' j))"

definition claimed ::
  "('s \<Rightarrow> string \<Rightarrow> xmessage list) \<Rightarrow> ('s \<Rightarrow> string \<Rightarrow> string set) \<Rightarrow>
   ('s \<Rightarrow> string \<Rightarrow> string \<Rightarrow> string \<Rightarrow> delivery) \<Rightarrow>
   string \<Rightarrow> string \<Rightarrow> string list \<Rightarrow> xmessage list \<Rightarrow> 's \<Rightarrow> 's \<Rightarrow> bool" where
  "claimed entries used deliv k g ids es s s' \<longleftrightarrow>
     entries s' = entries s \<and> used s' = used s \<and> distinct (map xm_id es) \<and>
     set es \<subseteq> set (entries s k) \<and>
     (\<forall>e\<in>set es. xm_id e \<in> set ids \<and>
        (\<exists>c. deliv s k g (xm_id e) = Pending c \<and> deliv s' k g (xm_id e) = Pending (c + 1))) \<and>
     (\<forall>k' g' j. (k' = k \<and> g' = g \<and> j \<in> xm_id ` set es) \<or> deliv s' k' g' j = deliv s k' g' j \<or>
        (k' = k \<and> g' = g \<and> j \<notin> xm_id ` set (entries s k)))"

lemma unchanged_cong:
  assumes "unchanged entries used deliv s s1"
  shows "appended entries used deliv k m f i s1 s' = appended entries used deliv k m f i s s'"
    and "acked entries used deliv k g ids s1 s' = acked entries used deliv k g ids s s'"
    and "delivered entries used deliv k g es s1 s' = delivered entries used deliv k g es s s'"
    and "claimed entries used deliv k g ids es s1 s' = claimed entries used deliv k g ids es s s'"
    and "unchanged entries used deliv s1 s' = unchanged entries used deliv s s'"
  using assms
  by (simp_all only: unchanged_def appended_def acked_def delivered_def claimed_def)

lemma delivered_nil: "unchanged entries used deliv s s' \<Longrightarrow> delivered entries used deliv k g [] s s'"
  and claimed_nil: "unchanged entries used deliv s s' \<Longrightarrow> claimed entries used deliv k g ids [] s s'"
  by (simp_all add: unchanged_def delivered_def claimed_def)

locale redis_streams =
  fixes R :: "'s stream_client"
    and entries :: "'s \<Rightarrow> string \<Rightarrow> xmessage list"
    and used :: "'s \<Rightarrow> string \<Rightarrow> string set"
    and deliv :: "'s \<Rightarrow> string \<Rightarrow> string \<Rightarrow> string \<Rightarrow> delivery"
  assumes entries_used: "x \<in> set (entries s k) \<Longrightarrow> xm_id x \<in> used s k"
    and entries_distinct: "distinct (map xm_id (entries s k))"
    and xadd_ok: "xadd R k m f s = (s', Inr i) \<Longrightarrow> appended entries used deliv k m f i s s'"
    and xadd_err: "xadd R k m f s = (s', Inl e) \<Longrightarrow>
      unchanged entries used deliv s s' \<or> (\<exists>i. appended entries used deliv k m f i s s')"
    and xack_ok: "xack R k g ids s = (s', Inr n) \<Longrightarrow> acked entries used deliv k g ids s s'"
    and xack_err: "xack R k g ids s = (s', Inl e) \<Longrightarrow>
      unchanged entries used deliv s s' \<or> acked entries used deliv k g ids s s'"
    and xreadgroup_ok: "xreadgroup R k g c n b s = (s', Inr strs) \<Longrightarrow>
      delivered entries used deliv k g (concat (map snd strs)) s s'"
    and xreadgroup_err: "xreadgroup R k g c n b s = (s', Inl e) \<Longrightarrow>
      \<exists>es. delivered entries used deliv k g es s s'"
    and xpending_ext_ok: "xpending_ext R k g d n s = (s', Inr ps) \<Longrightarrow>
      unchanged entries used deliv s s' \<and> length ps \<le> nat n \<and>
      (\<forall>(i, c)\<in>set ps. deliv s k g i = Pending c)"
    and xpending_ext_err: "xpending_ext R k g d n s = (s', Inl e) \<Longrightarrow>
      unchanged entries used deliv s s'"
    and xclaim_ok: "xclaim R k g c d ids s = (s', Inr es) \<Longrightarrow>
      claimed entries used deliv k g ids es s s'"
    and xclaim_err: "xclaim R k g c d ids s = (s', Inl e) \<Longrightarrow>
      \<exists>es. claimed entries used deliv k g ids es s s'"
    and xpipe_ok: "xpipe R cs s = (s', None) \<Longrightarrow> run_cmds cs s = (s', None)"

locale redis_accepting = redis_streams +
  assumes xpipe_err: "xpipe R cs s = (s', Some e) \<Longrightarrow>
      \<exists>n \<le> length cs. fst (run_cmds (take n cs) s) = s' \<and>
        snd (run_cmds (take (n - 1) cs) s) = None"

section \<open>An in-memory server\<close>

text \<open>
  Every entry ever appended is kept in \<open>ms_log\<close>; the first \<open>ms_evicted\<close> of them are no longer
  retained. The id of the \<open>n\<close>-th entry is a string of \<open>n\<close> letters. A command fails without effect
  when the head of \<open>ms_faults\<close> is \<open>True\<close>.
\<close>

record mem_server =
  ms_log :: "string \<Rightarrow> (string \<times> string) list list"
  ms_evicted :: "string \<Rightarrow> nat"
  ms_deliv :: "string \<Rightarrow> string \<Rightarrow> string \<Rightarrow> delivery"
  ms_faults :: "bool list"
  ms_clock :: gotime

definition mem_id :: "nat \<Rightarrow> string" where
  "mem_id n = replicate (Suc n) (CHR ''i'')"

lemma mem_id_inj [simp]: "mem_id n = mem_id m \<longleftrightarrow> n = m"
  by (auto simp: mem_id_def dest: arg_cong [where f = length])

lemma mem_id_nonempty [simp]: "mem_id n \<noteq> []"
  by (simp add: mem_id_def)

fun number_from :: "nat \<Rightarrow> (string \<times> string) list list \<Rightarrow> xmessage list" where
  "number_from n [] = []"
| "number_from n (v # vs) = \<lparr>xm_id = mem_id n, xm_values = v\<rparr> # number_from (Suc n) vs"

definition mem_entries :: "mem_server \<Rightarrow> string \<Rightarrow> xmessage list" where
  "mem_entries s k = drop (ms_evicted s k) (number_from 0 (ms_log s k))"

definition mem_used :: "mem_server \<Rightarrow> string \<Rightarrow> string set" where
  "mem_used s k = mem_id ` {..<length (ms_log s k)}"

definition mem_fault :: "mem_server \<Rightarrow> bool \<times> mem_server" where
  "mem_fault s = (case ms_faults s of [] \<Rightarrow> (False, s) | b # bs \<Rightarrow> (b, s\<lparr>ms_faults := bs\<rparr>))"

text \<open>A command of the server: nothing happens when a fault is scheduled.\<close>

definition mem_cmd :: "(mem_server \<Rightarrow> mem_server \<times> 'a) \<Rightarrow> mem_server \<Rightarrow> mem_server \<times> (goerr + 'a)" where
  "mem_cmd f s =
     (let (b, s1) = mem_fault s
      in if b then (s1, Inl (NetError ''connection reset''))
         else let (s2, r) = f s1 in (s2, Inr r))"

definition mem_xadd :: "string \<Rightarrow> int \<Rightarrow> (string \<times> string) list \<Rightarrow> mem_server \<Rightarrow> mem_server \<times> string" where
  "mem_xadd k m f s =
     (let i = length (ms_log s k); log' = ms_log s k @ [f] in
      (s\<lparr>ms_log := (ms_log s)(k := log'),
         ms_evicted := (ms_evicted s)(k := max (min (ms_evicted s k) i) (length log' - nat m)),
         ms_deliv := (\<lambda>k' g j. if k' = k \<and> j = mem_id i then Undelivered else ms_deliv s k' g j)\<rparr>,
       mem_id i))"

definition mem_settle :: "string \<Rightarrow> string \<Rightarrow> string list \<Rightarrow> mem_server \<Rightarrow> mem_server" where
  "mem_settle k g ids s = s\<lparr>ms_deliv := (\<lambda>k' g' j.
     if k' = k \<and> g' = g \<and> j \<in> set ids \<and> ms_deliv s k g j \<noteq> Undelivered then Settled
     else ms_deliv s k' g' j)\<rparr>"

definition is_pending :: "delivery \<Rightarrow> bool" where
  "is_pending d = (case d of Pending _ \<Rightarrow> True | _ \<Rightarrow> False)"

definition mem_read :: "string \<Rightarrow> string \<Rightarrow> int \<Rightarrow> mem_server \<Rightarrow> mem_server \<times> (string \<times> xmessage list) list" where
  "mem_read k g n s =
     (let es = take (nat n) (filter (\<lambda>e. ms_deliv s k g (xm_id e) = Undelivered) (mem_entries s k))
      in (s\<lparr>ms_deliv := (\<lambda>k' g' j. if k' = k \<and> g' = g \<and> j \<in> xm_id ` set es then Pending 1
                                else ms_deliv s k' g' j)\<rparr>,
          [(k, es)]))"

definition mem_pending :: "string \<Rightarrow> string \<Rightarrow> mem_server \<Rightarrow> (string \<times> int) list" where
  "mem_pending k g s =
     concat (map (\<lambda>e. case ms_deliv s k g (xm_id e) of Pending c \<Rightarrow> [(xm_id e, c)] | _ \<Rightarrow> [])
       (mem_entries s k))"

definition bump :: "delivery \<Rightarrow> delivery" where
  "bump d = (case d of Pending c \<Rightarrow> Pending (c + 1) | _ \<Rightarrow> d)"

definition mem_claim :: "string \<Rightarrow> string \<Rightarrow> string list \<Rightarrow> mem_server \<Rightarrow> mem_server \<times> xmessage list" where
  "mem_claim k g ids s =
     (let es = filter (\<lambda>e. xm_id e \<in> set ids \<and> is_pending (ms_deliv s k g (xm_id e))) (mem_entries s k)
      in (s\<lparr>ms_deliv := (\<lambda>k' g' j. if k' = k \<and> g' = g \<and> j \<in> xm_id ` set es
                                then bump (ms_deliv s k g j) else ms_deliv s k' g' j)\<rparr>, es))"

fun run_until_error :: "('s \<Rightarrow> 's \<times> goerr option) list \<Rightarrow> 's \<Rightarrow> 's \<times> goerr option" where
  "run_until_error [] s = (s, None)"
| "run_until_error (c # cs) s =
     (let (s1, e) = c s in case e of None \<Rightarrow> run_until_error cs s1 | Some _ \<Rightarrow> (s1, e))"

definition mem_streams :: "mem_server stream_client" where
  "mem_streams =
     \<lparr>xadd = (\<lambda>k m f. mem_cmd (mem_xadd k m f)),
      xreadgroup = (\<lambda>k g c n b. mem_cmd (mem_read k g n)),
      xpending_ext = (\<lambda>k g d n. mem_cmd (\<lambda>s. (s, take (nat n) (mem_pending k g s)))),
      xclaim = (\<lambda>k g c d ids. mem_cmd (mem_claim k g ids)),
      xack = (\<lambda>k g ids. mem_cmd (\<lambda>s. (mem_settle k g ids s, int (length ids)))),
      xpipe = run_until_error,
      xgroup_create_mkstream = (\<lambda>k g i s. (s, None)),
      xinfo_groups = (\<lambda>k s. (s, Inr [])),
      xpending = (\<lambda>k g. mem_cmd (\<lambda>s. (s, int (length (mem_pending k g s))))),
      xlen = (\<lambda>k. mem_cmd (\<lambda>s. (s, int (length (mem_entries s k))))),
      xping = (\<lambda>s. (s, None))\<rparr>"

definition oom_streams :: "mem_server stream_client" where
  "oom_streams = mem_streams
     \<lparr>xadd := (\<lambda>k m f s. (s, Inl (RedisError ''OOM command not allowed''))), xpipe := run_cmds\<rparr>"

subsection \<open>The in-memory server keeps the contract\<close>

lemma number_from_ids: "map xm_id (number_from n vs) = map mem_id [n..<n + length vs]"
  by (induction vs arbitrary: n) (auto simp: upt_rec)

lemma length_number_from [simp]: "length (number_from n vs) = length vs"
  by (induction vs arbitrary: n) auto

lemma number_from_append:
  "number_from n (vs @ ws) = number_from n vs @ number_from (n + length vs) ws"
  by (induction vs arbitrary: n) auto

lemma mem_entries_ids: "map xm_id (mem_entries s k) = map mem_id [ms_evicted s k..<length (ms_log s k)]"
  unfolding mem_entries_def drop_map [symmetric] number_from_ids by (simp add: drop_map)

lemma mem_entries_distinct: "distinct (map xm_id (mem_entries s k))"
  by (simp add: mem_entries_ids distinct_map inj_on_def)

lemma mem_entries_used: "x \<in> set (mem_entries s k) \<Longrightarrow> xm_id x \<in> mem_used s k"
proof -
  assume "x \<in> set (mem_entries s k)"
  then have "xm_id x \<in> set (map xm_id (mem_entries s k))" by simp
  then show ?thesis unfolding mem_entries_ids by (auto simp: mem_used_def)
qed

lemma mem_fault_view:
  "mem_fault s = (b, s1) \<Longrightarrow>
     ms_log s1 = ms_log s \<and> ms_evicted s1 = ms_evicted s \<and> ms_deliv s1 = ms_deliv s"
  by (auto simp: mem_fault_def split: list.splits)

lemma mem_fault_unchanged:
  "mem_fault s = (b, s1) \<Longrightarrow> unchanged mem_entries mem_used ms_deliv s s1"
  by (drule mem_fault_view) (auto simp: unchanged_def mem_entries_def mem_used_def fun_eq_iff)

lemma mem_cmd_cases:
  assumes "mem_cmd f s = (s', r)"
  obtains (fault) e where "r = Inl e" "unchanged mem_entries mem_used ms_deliv s s'"
  | (run) s1 v where "unchanged mem_entries mem_used ms_deliv s s1" "f s1 = (s', v)" "r = Inr v"
  using assms
  by (auto simp: mem_cmd_def Let_def split: prod.splits if_splits dest: mem_fault_unchanged)

lemma mem_xadd_appended:
  assumes "mem_xadd k m f s = (s', i)"
  shows "appended mem_entries mem_used ms_deliv k m f i s s'"
proof -
  let ?l = "length (ms_log s k)" and ?e = "min (ms_evicted s k) (length (ms_log s k))"
  let ?n = "max ?e (Suc ?l - nat m) - ?e" and ?x = "\<lparr>xm_id = mem_id ?l, xm_values = f\<rparr>"
  have s': "ms_log s' = (ms_log s)(k := ms_log s k @ [f])" "i = mem_id ?l"
    "ms_evicted s' = (ms_evicted s)(k := max ?e (Suc ?l - nat m))"
    and d: "ms_deliv s' = (\<lambda>k' g j. if k' = k \<and> j = mem_id ?l then Undelivered else ms_deliv s k' g j)"
    using assms by (auto simp: mem_xadd_def Let_def)
  have old: "mem_entries s k = drop ?e (number_from 0 (ms_log s k))"
    by (simp add: mem_entries_def min_def)
  have "mem_entries s' k = drop (max ?e (Suc ?l - nat m)) (number_from 0 (ms_log s k) @ [?x])"
    by (simp add: mem_entries_def s' number_from_append)
  also have "\<dots> = drop ?n (drop ?e (number_from 0 (ms_log s k) @ [?x]))"
    by simp
  also have "\<dots> = drop ?n (mem_entries s k @ [?x])"
    by (simp add: old)
  finally have ent: "mem_entries s' k = drop ?n (mem_entries s k @ [?x])" .
  have len: "?n = 0 \<or> m \<le> int (length (mem_entries s' k))"
    unfolding ent old by (simp add: max_def) linarith
  have "mem_entries s' = (mem_entries s)(k := drop ?n (mem_entries s k @ [?x]))"
    using ent by (auto simp: fun_eq_iff mem_entries_def s'(1,3))
  with len have ex: "\<exists>n. mem_entries s' = (mem_entries s)(k := drop n (mem_entries s k @ [?x])) \<and>
      (n = 0 \<or> m \<le> int (length (mem_entries s' k)))"
    by blast
  have us: "mem_used s' = (mem_used s)(k := insert i (mem_used s k))"
    by (auto simp: fun_eq_iff mem_used_def s' lessThan_Suc)
  have "i \<notin> mem_used s k" "i \<noteq> []" by (auto simp: mem_used_def s'(2))
  with us ex d show ?thesis
    unfolding appended_def s'(2) by (simp only: simp_thms)
qed

lemma mem_view_deliv [simp]:
  "mem_entries (s\<lparr>ms_deliv := d\<rparr>) = mem_entries s" "mem_used (s\<lparr>ms_deliv := d\<rparr>) = mem_used s"
  by (simp_all add: mem_entries_def mem_used_def fun_eq_iff)

lemma mem_settle_acked: "acked mem_entries mem_used ms_deliv k g ids s (mem_settle k g ids s)"
  by (simp add: acked_def mem_settle_def)

lemma mem_read_delivered:
  assumes "mem_read k g n s = (s', strs)"
  shows "delivered mem_entries mem_used ms_deliv k g (concat (map snd strs)) s s'"
proof -
  define es where
    "es = take (nat n) (filter (\<lambda>e. ms_deliv s k g (xm_id e) = Undelivered) (mem_entries s k))"
  have d: "distinct (map xm_id es)"
    by (simp add: es_def take_map [symmetric] distinct_map_filter mem_entries_distinct)
  have sub: "set es \<subseteq> set (mem_entries s k)" "\<forall>e\<in>set es. ms_deliv s k g (xm_id e) = Undelivered"
    by (auto simp: es_def dest: in_set_takeD)
  have "s' = s\<lparr>ms_deliv := (\<lambda>k' g' j. if k' = k \<and> g' = g \<and> j \<in> xm_id ` set es then Pending 1
                                else ms_deliv s k' g' j)\<rparr>" "concat (map snd strs) = es"
    using assms by (auto simp: mem_read_def es_def Let_def)
  with d sub show ?thesis by (simp add: delivered_def)
qed

lemma mem_pending_sound: "(i, c) \<in> set (mem_pending k g s) \<Longrightarrow> ms_deliv s k g i = Pending c"
  by (auto simp: mem_pending_def split: delivery.splits)

lemma mem_claim_claimed:
  assumes "mem_claim k g ids s = (s', es)"
  shows "claimed mem_entries mem_used ms_deliv k g ids es s s'"
proof -
  have es: "es = filter (\<lambda>e. xm_id e \<in> set ids \<and> is_pending (ms_deliv s k g (xm_id e))) (mem_entries s k)"
    using assms by (simp add: mem_claim_def Let_def)
  then have d: "distinct (map xm_id es)"
    by (simp add: distinct_map_filter mem_entries_distinct)
  have sub: "set es \<subseteq> set (mem_entries s k)"
    and e: "e \<in> set es \<Longrightarrow> xm_id e \<in> set ids \<and> (\<exists>c. ms_deliv s k g (xm_id e) = Pending c)" for e
    using es by (auto simp: is_pending_def split: delivery.splits)
  have "s' = s\<lparr>ms_deliv := (\<lambda>k' g' j. if k' = k \<and> g' = g \<and> j \<in> xm_id ` set es
                                then bump (ms_deliv s k g j) else ms_deliv s k' g' j)\<rparr>"
    using assms by (simp add: mem_claim_def Let_def flip: es)
  with d sub e show ?thesis by (fastforce simp: claimed_def bump_def)
qed

lemma run_until_error_ok: "run_until_error cs s = (s', None) \<Longrightarrow> run_cmds cs s = (s', None)"
  by (induction cs arbitrary: s) (auto split: prod.splits option.splits)

lemma run_until_error_prefix:
  "run_until_error cs s = (s', Some e) \<Longrightarrow>
     \<exists>n \<le> length cs. fst (run_cmds (take n cs) s) = s' \<and> snd (run_cmds (take (n - 1) cs) s) = None"
proof (induction cs arbitrary: s)
  case Nil
  then show ?case by simp
next
  case (Cons c cs)
  obtain s1 r where c: "c s = (s1, r)" by force
  show ?case
  proof (cases r)
    case None
    with Cons.prems c have "run_until_error cs s1 = (s', Some e)" by simp
    then obtain n where n: "n \<le> length cs" "fst (run_cmds (take n cs) s1) = s'"
      "snd (run_cmds (take (n - 1) cs) s1) = None"
      using Cons.IH by blast
    with c None have "fst (run_cmds (take (Suc n) (c # cs)) s) = s'"
      by (simp split: prod.splits)
    moreover from n c None have "snd (run_cmds (take n (c # cs)) s) = None"
      by (cases n) (auto split: prod.splits)
    ultimately show ?thesis using n(1) by (intro exI [of _ "Suc n"]) simp
  next
    case (Some x)
    with Cons.prems c show ?thesis by (intro exI [of _ 1]) simp
  qed
qed

lemma mem_cmd_error: "mem_cmd f s = (s', Inl e) \<Longrightarrow> unchanged mem_entries mem_used ms_deliv s s'"
  by (erule mem_cmd_cases) auto

lemma mem_cmd_ok:
  assumes "mem_cmd f s = (s', Inr v)"
  obtains s1 where "unchanged mem_entries mem_used ms_deliv s s1" "f s1 = (s', v)"
  using assms by (rule mem_cmd_cases) auto

interpretation mem: redis_accepting mem_streams mem_entries mem_used ms_deliv
proof (unfold_locales, goal_cases)
  case (1 x s k)
  then show ?case by (rule mem_entries_used)
next
  case (2 s k)
  show ?case by (rule mem_entries_distinct)
next
  case (3 k m f s s' i)
  then have "mem_cmd (mem_xadd k m f) s = (s', Inr i)" by (simp add: mem_streams_def)
  then obtain s1 where u: "unchanged mem_entries mem_used ms_deliv s s1" and f: "mem_xadd k m f s1 = (s', i)"
    by (rule mem_cmd_ok)
  show ?case using mem_xadd_appended [OF f] unfolding unchanged_cong(1) [OF u] .
next
  case (4 k m f s s' e)
  then show ?case by (simp add: mem_streams_def mem_cmd_error)
next
  case (5 k g ids s s' n)
  then have "mem_cmd (\<lambda>s. (mem_settle k g ids s, int (length ids))) s = (s', Inr n)"
    by (simp add: mem_streams_def)
  then obtain s1 where u: "unchanged mem_entries mem_used ms_deliv s s1"
    and f: "s' = mem_settle k g ids s1"
    by (rule mem_cmd_ok) simp
  show ?case using mem_settle_acked [of k g ids s1] unfolding unchanged_cong(2) [OF u] f .
next
  case (6 k g ids s s' e)
  then show ?case by (simp add: mem_streams_def mem_cmd_error)
next
  case (7 k g c n b s s' strs)
  then have "mem_cmd (mem_read k g n) s = (s', Inr strs)" by (simp add: mem_streams_def)
  then obtain s1 where u: "unchanged mem_entries mem_used ms_deliv s s1" and f: "mem_read k g n s1 = (s', strs)"
    by (rule mem_cmd_ok)
  show ?case using mem_read_delivered [OF f] unfolding unchanged_cong(3) [OF u] .
next
  case (8 k g c n b s s' e)
  then have "unchanged mem_entries mem_used ms_deliv s s'"
    by (simp add: mem_streams_def mem_cmd_error)
  then show ?case by (blast intro: delivered_nil)
next
  case (9 k g d n s s' ps)
  then have "mem_cmd (\<lambda>s. (s, take (nat n) (mem_pending k g s))) s = (s', Inr ps)"
    by (simp add: mem_streams_def)
  then show ?case
    by (rule mem_cmd_ok) (auto simp: unchanged_def dest!: in_set_takeD mem_pending_sound)
next
  case (10 k g d n s s' e)
  then show ?case by (simp add: mem_streams_def mem_cmd_error)
next
  case (11 k g c d ids s s' es)
  then have "mem_cmd (mem_claim k g ids) s = (s', Inr es)" by (simp add: mem_streams_def)
  then obtain s1 where u: "unchanged mem_entries mem_used ms_deliv s s1" and f: "mem_claim k g ids s1 = (s', es)"
    by (rule mem_cmd_ok)
  show ?case using mem_claim_claimed [OF f] unfolding unchanged_cong(4) [OF u] .
next
  case (12 k g c d ids s s' e)
  then have "unchanged mem_entries mem_used ms_deliv s s'"
    by (simp add: mem_streams_def mem_cmd_error)
  then show ?case by (blast intro: claimed_nil)
next
  case (13 cs s s')
  then show ?case by (simp add: mem_streams_def run_until_error_ok)
next
  case (14 cs s s' e)
  then have "run_until_error cs s = (s', Some e)" by (simp add: mem_streams_def)
  then show ?case by (rule run_until_error_prefix)
qed

end
