(* ===== verification/Auth.thy ===== *)
theory Auth
  imports Sha256 Http Redis_Streams
begin

text \<open>
  \<open>internal/auth\<close>: API keys, their verification, the Redis store of key records with the fixed-window
  rate limiter, and the HTTP middleware. The commands of the store and the source of randomness
  are the parameter \<open>key_client\<close>; a Lua script is a function of the server's state that \<open>ak_eval\<close>
  runs as one unit.
\<close>

section \<open>apikey.go\<close>

record APIKey =
  ak_KeyID :: string
  ak_TenantID :: string
  ak_Name :: string
  ak_SecretHash :: string
  ak_CreatedAt :: gotime
  ak_ExpiresAt :: gotime
  ak_RevokedAt :: gotime
  ak_RateLimitPerMinute :: int
  ak_RotatedFrom :: string

definition Active :: "APIKey \<Rightarrow> gotime \<Rightarrow> bool" where
  "Active k now \<longleftrightarrow>
     \<not> (\<not> is_zero (ak_RevokedAt k) \<and> \<not> now < ak_RevokedAt k) \<and>
     \<not> (\<not> is_zero (ak_ExpiresAt k) \<and> \<not> now < ak_ExpiresAt k)"

record 's KeyStore =
  ks_Create :: "string \<Rightarrow> string \<Rightarrow> duration \<Rightarrow> int \<Rightarrow> 's \<Rightarrow> 's \<times> (goerr + string \<times> APIKey)"
  ks_Lookup :: "string \<Rightarrow> 's \<Rightarrow> 's \<times> (goerr + APIKey)"
  ks_Revoke :: "string \<Rightarrow> 's \<Rightarrow> 's \<times> goerr option"
  ks_Rotate :: "string \<Rightarrow> duration \<Rightarrow> 's \<Rightarrow> 's \<times> (goerr + string \<times> APIKey)"
  ks_Allow :: "string \<Rightarrow> int \<Rightarrow> 's \<Rightarrow> 's \<times> (goerr + bool \<times> int)"

definition KeyPrefix :: string where
  "KeyPrefix = ''rmk''"

definition keyIDBytes :: nat where
  "keyIDBytes = 8"

definition secretBytes :: nat where
  "secretBytes = 32"

definition HashSecret :: "string \<Rightarrow> string" where
  "HashSecret secret = hex_encode (sha256 (bytes_of secret))"

definition GenerateKey ::
  "(nat \<Rightarrow> 's \<Rightarrow> 's \<times> (goerr + 8 word list)) \<Rightarrow> 's \<Rightarrow> 's \<times> (goerr + string \<times> string \<times> string)" where
  "GenerateKey rand s =
     (let (s1, i) = rand keyIDBytes s
      in case i of
           Inl e \<Rightarrow> (s1, Inl (Wrapf ''auth: generate key id: '' e []))
         | Inr idBytes \<Rightarrow>
             let (s2, x) = rand secretBytes s1
             in case x of
                  Inl e \<Rightarrow> (s2, Inl (Wrapf ''auth: generate secret: '' e []))
                | Inr secret \<Rightarrow>
                    let keyID = hex_encode idBytes; secretHex = hex_encode secret
                    in (s2, Inr (KeyPrefix @ ''_'' @ keyID @ ''_'' @ secretHex, keyID, HashSecret secretHex)))"

definition ParseKey :: "string \<Rightarrow> goerr + string \<times> string" where
  "ParseKey raw =
     (let parts = split_on (CHR ''_'') raw
      in if length parts \<noteq> 3 \<or> parts ! 0 \<noteq> KeyPrefix \<or> parts ! 1 = [] \<or> parts ! 2 = []
         then Inl (Sent ErrInvalidKey) else Inr (parts ! 1, parts ! 2))"

text \<open>\<open>subtle.ConstantTimeCompare\<close>: every byte is looked at; 1 for equal slices.\<close>

definition ConstantTimeCompare :: "8 word list \<Rightarrow> 8 word list \<Rightarrow> int" where
  "ConstantTimeCompare x y =
     (if length x \<noteq> length y then 0
      else if fold (\<lambda>(a, b) v. or v (xor a b)) (zip x y) 0 = (0 :: 8 word) then 1 else 0)"

text \<open>The second component is the key the caller gets beside the error: \<open>ErrRateLimited\<close> comes
  with the key.\<close>

definition Verify :: "'s KeyStore \<Rightarrow> string \<Rightarrow> gotime \<Rightarrow> 's \<Rightarrow> 's \<times> APIKey option \<times> goerr option" where
  "Verify store raw now s =
     (case ParseKey raw of
        Inl _ \<Rightarrow> (s, None, Some (Sent ErrInvalidKey))
      | Inr (keyID, secret) \<Rightarrow>
          let (s1, l) = ks_Lookup store keyID s
          in case l of
               Inl e \<Rightarrow> if errors_is e ErrKeyNotFound then (s1, None, Some (Sent ErrInvalidKey))
                        else (s1, None, Some e)
             | Inr key \<Rightarrow>
                 let expected = bytes_of (ak_SecretHash key); presented = bytes_of (HashSecret secret)
                 in if ConstantTimeCompare expected presented \<noteq> 1 then (s1, None, Some (Sent ErrInvalidKey))
                    else if \<not> Active key now then (s1, None, Some (Sent ErrInvalidKey))
                    else let (s2, a) = ks_Allow store keyID (ak_RateLimitPerMinute key) s1
                         in case a of
                              Inl e \<Rightarrow> (s2, None, Some e)
                            | Inr (allowed, _) \<Rightarrow>
                                if \<not> allowed then (s2, Some key, Some (Sent ErrRateLimited))
                                else (s2, Some key, None))"

section \<open>redis_store.go\<close>

record 's key_client =
  hset :: "string \<Rightarrow> (string \<times> string) list \<Rightarrow> 's \<Rightarrow> 's \<times> goerr option"
  hgetall :: "string \<Rightarrow> 's \<Rightarrow> 's \<times> (goerr + (string \<times> string) list)"
  sadd :: "string \<Rightarrow> string \<Rightarrow> 's \<Rightarrow> 's \<times> goerr option"
  smembers :: "string \<Rightarrow> 's \<Rightarrow> 's \<times> (goerr + string list)"
  ak_pipe :: "('s \<Rightarrow> 's \<times> goerr option) list \<Rightarrow> 's \<Rightarrow> 's \<times> goerr option"
  ak_exists :: "string \<Rightarrow> 's \<Rightarrow> 's \<times> (goerr + int)"
  ak_eval :: "('s \<Rightarrow> 's \<times> (goerr + int)) \<Rightarrow> 's \<Rightarrow> 's \<times> (goerr + int)"
  incr :: "string \<Rightarrow> 's \<Rightarrow> 's \<times> (goerr + int)"
  expire :: "string \<Rightarrow> int \<Rightarrow> 's \<Rightarrow> 's"
  ak_ping :: "'s \<Rightarrow> 's \<times> goerr option"
  ak_rand :: "nat \<Rightarrow> 's \<Rightarrow> 's \<times> (goerr + 8 word list)"

record 's RedisStore =
  ks_client :: "'s key_client"
  ks_now :: "'s \<Rightarrow> gotime"

definition NewRedisStore :: "(string \<Rightarrow> string \<Rightarrow> 's key_client) \<Rightarrow> string \<Rightarrow> ('s \<Rightarrow> gotime) \<Rightarrow> 's RedisStore" where
  "NewRedisStore connect addr now =
     (let network = (if addr \<noteq> [] \<and> hd addr = CHR ''/'' then ''unix'' else ''tcp'')
      in \<lparr>ks_client = connect network addr, ks_now = now\<rparr>)"

definition key_Ping :: "'s RedisStore \<Rightarrow> 's \<Rightarrow> 's \<times> goerr option" where
  "key_Ping st s = ak_ping (ks_client st) s"

definition keyPath :: "string \<Rightarrow> string" where
  "keyPath keyID = ''apikey:'' @ keyID"

definition tenantPath :: "string \<Rightarrow> string" where
  "tenantPath tenant = ''apikey:tenant:'' @ tenant"

definition ratePath :: "string \<Rightarrow> string" where
  "ratePath keyID = ''ratelimit:'' @ keyID"

definition key_fields :: "APIKey \<Rightarrow> (string \<times> string) list" where
  "key_fields key =
     [(''tenant_id'', ak_TenantID key), (''name'', ak_Name key), (''secret_hash'', ak_SecretHash key),
      (''created_at'', format_int (unix_milli (ak_CreatedAt key))),
      (''rate_limit'', format_int (ak_RateLimitPerMinute key))] @
     (if \<not> is_zero (ak_ExpiresAt key) then [(''expires_at'', format_int (unix_milli (ak_ExpiresAt key)))] else []) @
     (if \<not> is_zero (ak_RevokedAt key) then [(''revoked_at'', format_int (unix_milli (ak_RevokedAt key)))] else []) @
     (if ak_RotatedFrom key \<noteq> [] then [(''rotated_from'', ak_RotatedFrom key)] else [])"

definition save :: "'s RedisStore \<Rightarrow> APIKey \<Rightarrow> 's \<Rightarrow> 's \<times> goerr option" where
  "save st key s =
     (let (s1, err) = ak_pipe (ks_client st)
            [hset (ks_client st) (keyPath (ak_KeyID key)) (key_fields key),
             sadd (ks_client st) (tenantPath (ak_TenantID key)) (ak_KeyID key)] s
      in (s1, case err of None \<Rightarrow> None | Some e \<Rightarrow> Some (Wrapf ''auth: save key: '' e [])))"

text \<open>The record that \<open>Create\<close> builds.\<close>

definition new_key :: "string \<Rightarrow> string \<Rightarrow> duration \<Rightarrow> int \<Rightarrow> gotime \<Rightarrow> string \<Rightarrow> string \<Rightarrow> APIKey" where
  "new_key tenantID name ttl rateLimit now keyID secretHash =
     \<lparr>ak_KeyID = keyID, ak_TenantID = tenantID, ak_Name = name, ak_SecretHash = secretHash,
      ak_CreatedAt = now, ak_ExpiresAt = (if 0 < ttl then now + ttl else zero_time),
      ak_RevokedAt = zero_time, ak_RateLimitPerMinute = rateLimit, ak_RotatedFrom = []\<rparr>"

definition Create ::
  "'s RedisStore \<Rightarrow> string \<Rightarrow> string \<Rightarrow> duration \<Rightarrow> int \<Rightarrow> 's \<Rightarrow> 's \<times> (goerr + string \<times> APIKey)" where
  "Create st tenantID name ttl rateLimit s =
     (if tenantID = [] then (s, Inl (Errorf ''auth: tenantID must be set''))
      else
        let rateLimit' = (if rateLimit \<le> 0 then 600 else rateLimit);
            (s1, g) = GenerateKey (ak_rand (ks_client st)) s
        in case g of
             Inl e \<Rightarrow> (s1, Inl e)
           | Inr (raw, keyID, secretHash) \<Rightarrow>
               let key = new_key tenantID name ttl rateLimit' (ks_now st s1) keyID secretHash;
                   (s2, err) = save st key s1
               in (s2, case err of Some e \<Rightarrow> Inl e | None \<Rightarrow> Inr (raw, key)))"

text \<open>The fields of a record: an absent or unreadable time is the zero time, an absent string is
  empty.\<close>

definition field_ms :: "(string \<times> string) list \<Rightarrow> string \<Rightarrow> gotime" where
  "field_ms flds k =
     (case map_of flds k of
        None \<Rightarrow> zero_time
      | Some v \<Rightarrow> (case parsed_ok (parse_int v) of None \<Rightarrow> zero_time | Some n \<Rightarrow> time_unix_milli n))"

definition field_str :: "(string \<times> string) list \<Rightarrow> string \<Rightarrow> string" where
  "field_str flds k = (case map_of flds k of None \<Rightarrow> [] | Some v \<Rightarrow> v)"

definition key_of_fields :: "string \<Rightarrow> (string \<times> string) list \<Rightarrow> APIKey" where
  "key_of_fields keyID flds =
     \<lparr>ak_KeyID = keyID, ak_TenantID = field_str flds ''tenant_id'', ak_Name = field_str flds ''name'',
      ak_SecretHash = field_str flds ''secret_hash'', ak_CreatedAt = field_ms flds ''created_at'',
      ak_ExpiresAt = field_ms flds ''expires_at'', ak_RevokedAt = field_ms flds ''revoked_at'',
      ak_RateLimitPerMinute = parsed_value (parse_int (field_str flds ''rate_limit'')),
      ak_RotatedFrom = field_str flds ''rotated_from''\<rparr>"

definition Lookup :: "'s RedisStore \<Rightarrow> string \<Rightarrow> 's \<Rightarrow> 's \<times> (goerr + APIKey)" where
  "Lookup st keyID s =
     (let (s1, r) = hgetall (ks_client st) (keyPath keyID) s
      in case r of
           Inl e \<Rightarrow> (s1, Inl (Wrapf ''auth: lookup: '' e []))
         | Inr flds \<Rightarrow> if flds = [] then (s1, Inl (Sent ErrKeyNotFound))
                         else (s1, Inr (key_of_fields keyID flds)))"

definition Revoke :: "'s RedisStore \<Rightarrow> string \<Rightarrow> 's \<Rightarrow> 's \<times> goerr option" where
  "Revoke st keyID s =
     (let (s1, x) = ak_exists (ks_client st) (keyPath keyID) s
      in case x of
           Inl e \<Rightarrow> (s1, Some (Wrapf ''auth: revoke: '' e []))
         | Inr n \<Rightarrow>
             if n = 0 then (s1, Some (Sent ErrKeyNotFound))
             else let (s2, err) = hset (ks_client st) (keyPath keyID)
                        [(''revoked_at'', format_int (unix_milli (ks_now st s1)))] s1
                  in (s2, case err of None \<Rightarrow> None | Some e \<Rightarrow> Some (Wrapf ''auth: revoke: '' e [])))"

definition Rotate :: "'s RedisStore \<Rightarrow> string \<Rightarrow> duration \<Rightarrow> 's \<Rightarrow> 's \<times> (goerr + string \<times> APIKey)" where
  "Rotate st keyID overlap s =
     (let (s1, l) = Lookup st keyID s
      in case l of
           Inl e \<Rightarrow> (s1, Inl e)
         | Inr old \<Rightarrow>
             let ttl = (if \<not> is_zero (ak_ExpiresAt old) then time_sub (ak_ExpiresAt old) (ks_now st s1) else 0);
                 (s2, c) = Create st (ak_TenantID old) (ak_Name old @ '' (rotated)'') ttl (ak_RateLimitPerMinute old) s1
             in case c of
                  Inl e \<Rightarrow> (s2, Inl e)
                | Inr (raw, fresh0) \<Rightarrow>
                    let fresh = fresh0\<lparr>ak_RotatedFrom := keyID\<rparr>;
                        (s3, e3) = save st fresh s2
                    in case e3 of
                         Some e \<Rightarrow> (s3, Inl e)
                       | None \<Rightarrow>
                           let (s4, e4) = save st (old\<lparr>ak_RevokedAt := ks_now st s3 + overlap\<rparr>) s3
                           in (s4, case e4 of Some e \<Rightarrow> Inl e | None \<Rightarrow> Inr (raw, fresh)))"

definition ListForTenant :: "'s RedisStore \<Rightarrow> string \<Rightarrow> 's \<Rightarrow> 's \<times> (goerr + string list)" where
  "ListForTenant st tenantID s =
     (let (s1, r) = smembers (ks_client st) (tenantPath tenantID) s
      in (s1, case r of Inl e \<Rightarrow> Inl (Wrapf ''auth: list: '' e []) | Inr ids \<Rightarrow> Inr ids))"

text \<open>The fixed-window counter script: the window is part of the key.\<close>

definition rateLimitScript :: "'s key_client \<Rightarrow> string \<Rightarrow> int \<Rightarrow> 's \<Rightarrow> 's \<times> (goerr + int)" where
  "rateLimitScript c key ttl s =
     (let (s1, r) = incr c key s
      in case r of
           Inl e \<Rightarrow> (s1, Inl e)
         | Inr current \<Rightarrow> (if current = 1 then expire c key ttl s1 else s1, Inr current))"

definition rate_window :: "gotime \<Rightarrow> int" where
  "rate_window t = go_div (unix_sec t) 60"

definition rate_key :: "string \<Rightarrow> int \<Rightarrow> string" where
  "rate_key keyID window = ratePath keyID @ '':'' @ format_int window"

definition Allow :: "'s RedisStore \<Rightarrow> string \<Rightarrow> int \<Rightarrow> 's \<Rightarrow> 's \<times> (goerr + bool \<times> int)" where
  "Allow st keyID limitPerMinute s =
     (if limitPerMinute \<le> 0 then (s, Inr (True, 0))
      else
        let key = rate_key keyID (rate_window (ks_now st s));
            (s1, r) = ak_eval (ks_client st) (rateLimitScript (ks_client st) key 70) s
        in case r of
             Inl _ \<Rightarrow> (s1, Inr (True, 0))
           | Inr cnt \<Rightarrow> (s1, Inr (cnt \<le> limitPerMinute, max 0 (limitPerMinute - cnt))))"

definition redis_key_store :: "'s RedisStore \<Rightarrow> 's KeyStore" where
  "redis_key_store st =
     \<lparr>ks_Create = Create st, ks_Lookup = Lookup st, ks_Revoke = Revoke st, ks_Rotate = Rotate st,
      ks_Allow = Allow st\<rparr>"

section \<open>middleware.go\<close>

type_synonym request = "APIKey http_request"

definition FromContext :: "request \<Rightarrow> APIKey option" where
  "FromContext r = ctx_apikey r"

definition TenantFromContext :: "request \<Rightarrow> string option" where
  "TenantFromContext r = (case FromContext r of None \<Rightarrow> None | Some key \<Rightarrow> Some (ak_TenantID key))"

record 's AuthOptions =
  ao_Store :: "'s KeyStore"
  ao_Now :: "'s \<Rightarrow> gotime"
  ao_WriteError :: "response \<Rightarrow> int \<Rightarrow> string \<Rightarrow> string \<Rightarrow> request \<Rightarrow> response"
  ao_SkipPaths :: "string list"

definition presentedKey :: "request \<Rightarrow> string" where
  "presentedKey r =
     (let x = header_get (hr_Header r) ''X-API-Key'' in
      if x \<noteq> [] then trim_space x
      else let v = header_get (hr_Header r) ''Authorization'' in
           if v \<noteq> [] then (case cut_prefix v ''Bearer '' of Some after \<Rightarrow> trim_space after | None \<Rightarrow> [])
           else [])"

fun proto_key :: "string list \<Rightarrow> string" where
  "proto_key [] = []"
| "proto_key (p # ps) = (case cut_prefix (trim_space p) ''apikey.'' of Some after \<Rightarrow> after | None \<Rightarrow> proto_key ps)"

definition WebSocketKey :: "request \<Rightarrow> string" where
  "WebSocketKey r =
     (let k = presentedKey r in
      if k \<noteq> [] then k
      else proto_key (split_on (CHR '','') (header_get (hr_Header r) ''Sec-WebSocket-Protocol'')))"

definition Middleware :: "'s AuthOptions \<Rightarrow> (APIKey, 's) handler \<Rightarrow> (APIKey, 's) handler" where
  "Middleware opts nxt r w s =
     (if hr_Path r \<in> set (ao_SkipPaths opts) then nxt r w s
      else
        let raw = presentedKey r in
        if raw = [] then
          (s, ao_WriteError opts w 401 ''unauthorized''
                ''an API key is required (X-API-Key header or Authorization: Bearer)'' r, Returned)
        else
          let (s1, key, err) = Verify (ao_Store opts) raw (ao_Now opts s) s
          in case err of
               None \<Rightarrow> nxt (r\<lparr>ctx_apikey := key\<rparr>) w s1
             | Some e \<Rightarrow>
                 if errors_is e ErrRateLimited then
                   let w1 = set_header ''Retry-After'' ''60'' w;
                       w2 = (case key of
                               None \<Rightarrow> w1
                             | Some k \<Rightarrow> set_header ''X-RateLimit-Remaining'' ''0''
                                          (set_header ''X-RateLimit-Limit'' (format_int (ak_RateLimitPerMinute k)) w1))
                   in (s1, ao_WriteError opts w2 429 ''rate_limited'' ''rate limit exceeded for this API key'' r, Returned)
                 else if errors_is e ErrInvalidKey then
                   (s1, ao_WriteError opts w 401 ''unauthorized'' ''invalid API key'' r, Returned)
                 else
                   (s1, ao_WriteError opts (set_header ''Retry-After'' ''1'' w) 503 ''unavailable''
                          ''could not verify credentials right now; please retry'' r, Returned))"

end
