(* ===== verification/Api.thy ===== *)
theory Api
  imports Auth Ride_Queue
begin

text \<open>
  \<open>internal/api\<close>: the rider-facing HTTP service. Handlers and middlewares are functions on requests
  and response values (theory \<open>Http\<close>), composed by \<open>Routes\<close> in the order of the source. The state is
  the server's counters, the metric samples and the outside world. \<open>encoding/json\<close> is the parameter
  \<open>ride_decoder\<close>: for a limit and a body, the result of the two calls of \<open>Decode\<close>. \<open>quote\<close> is the
  verb \<open>%q\<close>. Request paths are unescaped.
\<close>

section \<open>errors.go\<close>

definition writeError :: "response \<Rightarrow> int \<Rightarrow> string \<Rightarrow> string \<Rightarrow> string \<Rightarrow> string \<Rightarrow> response" where
  "writeError w status code message fld requestID =
     write_body
       (JsonDoc (JObj [(''error'', JObj ([(''code'', JStr code), (''message'', JStr message)] @
          (if fld = [] then [] else [(''field'', JStr fld)]) @ [(''request_id'', JStr requestID)]))]))
       (write_header status
         (set_header ''X-Request-ID'' requestID
           (set_header ''Content-Type'' ''application/json; charset=utf-8'' w)))"

definition writeJSON :: "response \<Rightarrow> int \<Rightarrow> string \<Rightarrow> json_doc \<Rightarrow> response" where
  "writeJSON w status requestID body =
     write_body (JsonDoc body)
       (write_header status
         (set_header ''X-Request-ID'' requestID
           (set_header ''Content-Type'' ''application/json; charset=utf-8'' w)))"

section \<open>Configuration and state\<close>

record 's ApiConfig =
  ac_TenantID :: string
  ac_Keys :: "'s KeyStore option"
  ac_MaxBodyBytes :: int
  ac_PublishTimeout :: duration
  ac_Now :: "'s \<Rightarrow> gotime"

definition ApiDefaultConfig :: "('s \<Rightarrow> gotime) \<Rightarrow> 's ApiConfig" where
  "ApiDefaultConfig now =
     \<lparr>ac_TenantID = ''default'', ac_Keys = None, ac_MaxBodyBytes = 16 * 1024, ac_PublishTimeout = 2 * second,
      ac_Now = now\<rparr>"

definition api_applyDefaults :: "'s ApiConfig \<Rightarrow> 's ApiConfig" where
  "api_applyDefaults c =
     (let d = ApiDefaultConfig (ac_Now c);
          c = (if ac_TenantID c = [] then c\<lparr>ac_TenantID := ac_TenantID d\<rparr> else c);
          c = (if ac_MaxBodyBytes c \<le> 0 then c\<lparr>ac_MaxBodyBytes := ac_MaxBodyBytes d\<rparr> else c);
          c = (if ac_PublishTimeout c \<le> 0 then c\<lparr>ac_PublishTimeout := ac_PublishTimeout d\<rparr> else c)
      in c)"

text \<open>The counters, and the samples of the Prometheus metrics that the package updates.\<close>

record api_state =
  as_accepted :: int
  as_rejected :: int
  as_failed :: int
  as_panics :: int
  as_http :: "(string \<times> string) list"
  as_rides :: "(string \<times> string) list"
  as_seconds :: "(string \<times> duration) list"

record ApiStats =
  st_Accepted :: int
  st_Rejected :: int
  st_Failed :: int
  st_Panics :: int

definition api_Stats :: "api_state \<Rightarrow> ApiStats" where
  "api_Stats a = \<lparr>st_Accepted = as_accepted a, st_Rejected = as_rejected a, st_Failed = as_failed a, st_Panics = as_panics a\<rparr>"

record latLng =
  ll_Lat :: "float64 option"
  ll_Lng :: "float64 option"

record rideRequestInput =
  ri_RiderID :: string
  ri_Pickup :: "latLng option"

text \<open>The errors of \<open>Decode\<close> that the code tells apart; the last carries the text of any other.\<close>

datatype decode_error =
    MaxBytesError
  | UnmarshalTypeError string string
  | SyntaxError int
  | DecodeEOF
  | OtherDecodeError string

type_synonym ride_decoder = "int \<Rightarrow> string \<Rightarrow> (decode_error + rideRequestInput) \<times> decode_error option"

record 's ApiServer =
  av_cfg :: "'s ApiConfig"
  av_queue :: "'s Queue"
  av_decode :: ride_decoder
  av_quote :: "string \<Rightarrow> string"
  av_rand :: "nat \<Rightarrow> 's \<Rightarrow> 's \<times> (goerr + 8 word list)"
  av_wall :: "'s \<Rightarrow> gotime"

type_synonym 's api_handler = "(APIKey, api_state \<times> 's) handler"

definition NewServer ::
  "ride_decoder \<Rightarrow> (string \<Rightarrow> string) \<Rightarrow> (nat \<Rightarrow> 's \<Rightarrow> 's \<times> (goerr + 8 word list)) \<Rightarrow> ('s \<Rightarrow> gotime) \<Rightarrow>
   's Queue option \<Rightarrow> 's ApiConfig \<Rightarrow> goerr + 's ApiServer" where
  "NewServer dec quote rand wall q cfg =
     (case q of
        None \<Rightarrow> Inl (Errorf ''api: queue must not be nil'')
      | Some qu \<Rightarrow> Inr \<lparr>av_cfg = api_applyDefaults cfg, av_queue = qu, av_decode = dec, av_quote = quote,
                        av_rand = rand, av_wall = wall\<rparr>)"

section \<open>Request ids\<close>

definition RequestIDFrom :: "request \<Rightarrow> string" where
  "RequestIDFrom r = (case ctx_request_id r of Some v \<Rightarrow> v | None \<Rightarrow> [])"

definition id_char :: "char \<Rightarrow> bool" where
  "id_char c \<longleftrightarrow>
     (let n = (of_char c :: nat) in
      97 \<le> n \<and> n \<le> 122 \<or> 65 \<le> n \<and> n \<le> 90 \<or> 48 \<le> n \<and> n \<le> 57 \<or> n = 45 \<or> n = 95 \<or> n = 46)"

text \<open>The source filters runes; the kept ones are ASCII, and no byte of a longer encoding is.\<close>

definition sanitiseRequestID :: "string \<Rightarrow> string" where
  "sanitiseRequestID raw =
     (if raw = [] then [] else filter id_char (if 64 < length raw then take 64 raw else raw))"

definition newRequestID :: "'s ApiServer \<Rightarrow> 's \<Rightarrow> 's \<times> string" where
  "newRequestID v s =
     (let (s1, b) = av_rand v 12 s
      in (s1, case b of Inl _ \<Rightarrow> ''req_ts_'' @ format_int (av_wall v s1) | Inr bs \<Rightarrow> ''req_'' @ hex_encode bs))"

definition withRequestID :: "'s ApiServer \<Rightarrow> 's api_handler \<Rightarrow> 's api_handler" where
  "withRequestID v nxt r w = (\<lambda>(a, s).
     let i = sanitiseRequestID (header_get (hr_Header r) ''X-Request-ID'');
         (s1, rid) = (if i = [] then newRequestID v s else (s, i))
     in nxt (r\<lparr>ctx_request_id := Some rid\<rparr>) (set_header ''X-Request-ID'' rid w) (a, s1))"

section \<open>The other middlewares\<close>

definition routeLabel :: "request \<Rightarrow> string" where
  "routeLabel r =
     (if hr_Path r \<in> {''/v1/ride-requests'', ''/healthz'', ''/readyz'', ''/stats''}
      then hr_Method r @ '' '' @ hr_Path r else hr_Method r @ '' other'')"

definition StatusClass :: "int \<Rightarrow> string" where
  "StatusClass code =
     (if code < 200 then ''1xx'' else if code < 300 then ''2xx'' else if code < 400 then ''3xx''
      else if code < 500 then ''4xx'' else ''5xx'')"

text \<open>\<open>statusRecorder\<close>: 200 until the inner handler calls \<open>WriteHeader\<close>, then the last argument.\<close>

definition recorded_status :: "response \<Rightarrow> response \<Rightarrow> int" where
  "recorded_status w w' =
     (let calls = drop (length (rw_Calls w)) (rw_Calls w') in if calls = [] then 200 else last calls)"

definition logRequests :: "'s api_handler \<Rightarrow> 's api_handler" where
  "logRequests nxt r w st =
     (let ((a, s), w1, out) = nxt r w st
      in case out of
           Panicked m \<Rightarrow> ((a, s), w1, Panicked m)
         | Returned \<Rightarrow>
             ((a\<lparr>as_http := as_http a @ [(routeLabel r, StatusClass (recorded_status w w1))]\<rparr>, s), w1, Returned))"

definition recoverPanics :: "'s api_handler \<Rightarrow> 's api_handler" where
  "recoverPanics nxt r w st =
     (let ((a, s), w1, out) = nxt r w st
      in case out of
           Returned \<Rightarrow> ((a, s), w1, Returned)
         | Panicked _ \<Rightarrow>
             ((a\<lparr>as_panics := as_panics a + 1\<rparr>, s),
              writeError w1 500 ''internal'' ''internal error'' [] (RequestIDFrom r), Returned))"

section \<open>Creating a ride request\<close>

definition unknown_field :: string where
  "unknown_field = ''json: unknown field ''"

definition trim_quotes :: "string \<Rightarrow> string" where
  "trim_quotes s = (let q = (\<lambda>c. c = CHR 0x22) in rev (dropWhile q (rev (dropWhile q s))))"

fun describeDecodeError :: "(string \<Rightarrow> string) \<Rightarrow> decode_error \<Rightarrow> int \<Rightarrow> string \<times> string \<times> string" where
  "describeDecodeError quote MaxBytesError maxBytes =
     (''payload_too_large'', ''request body must not exceed '' @ format_int maxBytes @ '' bytes'', [])"
| "describeDecodeError quote (UnmarshalTypeError fld typ) maxBytes =
     (''invalid_argument'', ''field '' @ quote fld @ '' must be of type '' @ typ, fld)"
| "describeDecodeError quote (SyntaxError offset) maxBytes =
     (''malformed_json'', ''invalid JSON at byte offset '' @ format_int offset, [])"
| "describeDecodeError quote DecodeEOF maxBytes = (''malformed_json'', ''request body is empty'', [])"
| "describeDecodeError quote (OtherDecodeError msg) maxBytes =
     (case cut_prefix msg unknown_field of
        Some rest \<Rightarrow> (let name = trim_quotes rest in (''invalid_argument'', ''unknown field '' @ quote name, name))
      | None \<Rightarrow> (''malformed_json'', ''request body is not valid JSON'', []))"

definition api_validate :: "rideRequestInput \<Rightarrow> string \<times> string" where
  "api_validate inp =
     (if ri_RiderID inp = [] then (''rider_id'', ''rider_id is required'')
      else if 128 < length (ri_RiderID inp) then (''rider_id'', ''rider_id must be at most 128 characters'')
      else case ri_Pickup inp of
             None \<Rightarrow> (''pickup'', ''pickup is required'')
           | Some p \<Rightarrow>
               (case ll_Lat p of
                  None \<Rightarrow> (''pickup.lat'', ''pickup.lat is required'')
                | Some lat \<Rightarrow>
                    (case ll_Lng p of
                       None \<Rightarrow> (''pickup.lng'', ''pickup.lng is required'')
                     | Some lng \<Rightarrow>
                         if is_nan lat \<or> is_inf lat \<or> is_nan lng \<or> is_inf lng
                         then (''pickup'', ''pickup coordinates must be finite numbers'')
                         else if out_of_range (- 90) 90 lat
                         then (''pickup.lat'', ''pickup.lat must be between -90 and 90'')
                         else if out_of_range (- 180) 180 lng
                         then (''pickup.lng'', ''pickup.lng must be between -180 and 180'')
                         else ([], []))))"

text \<open>The two dereferences after \<open>validate\<close>; it has rejected the nil cases.\<close>

definition pickup_coords :: "rideRequestInput \<Rightarrow> (float64 \<times> float64) option" where
  "pickup_coords inp =
     (case ri_Pickup inp of
        None \<Rightarrow> None
      | Some p \<Rightarrow> (case (ll_Lat p, ll_Lng p) of (Some lat, Some lng) \<Rightarrow> Some (lat, lng) | _ \<Rightarrow> None))"

definition ride_request :: "'s ApiServer \<Rightarrow> request \<Rightarrow> rideRequestInput \<Rightarrow> float64 \<Rightarrow> float64 \<Rightarrow> 's \<Rightarrow> RideRequest" where
  "ride_request v r inp lat lng s =
     \<lparr>RequestID = RequestIDFrom r,
      TenantID = (case TenantFromContext r of Some t \<Rightarrow> t | None \<Rightarrow> ac_TenantID (av_cfg v)),
      RiderID = ri_RiderID inp, Lat = lat, Lng = lng, RequestedAt = ac_Now (av_cfg v) s, MatchAttempts = 0\<rparr>"

definition handleCreateRideRequest :: "'s ApiServer \<Rightarrow> 's api_handler" where
  "handleCreateRideRequest v r w = (\<lambda>(a, s).
     let started = av_wall v s;
         requestID = RequestIDFrom r;
         (first, second') = av_decode v (ac_MaxBodyBytes (av_cfg v)) (hr_Body r);
         rejected = a\<lparr>as_rejected := as_rejected a + 1\<rparr>
     in case first of
          Inl err \<Rightarrow>
            let (code, message, fld) = describeDecodeError (av_quote v) err (ac_MaxBodyBytes (av_cfg v));
                status = (if code = ''payload_too_large'' then 413 else 400)
            in ((rejected, s), writeError w status code message fld requestID, Returned)
        | Inr inp \<Rightarrow>
            if second' \<noteq> Some DecodeEOF then
              ((rejected, s), writeError w 400 ''malformed_json'' ''body must contain exactly one JSON object'' [] requestID, Returned)
            else
              let (fld, message) = api_validate inp in
              if fld \<noteq> [] then
                ((rejected, s), writeError w 400 ''invalid_argument'' message fld requestID, Returned)
              else
                case pickup_coords inp of
                  None \<Rightarrow> ((a, s), w, Panicked ''nil pointer dereference'')
                | Some (lat, lng) \<Rightarrow>
                    let req = ride_request v r inp lat lng s;
                        (s1, res) = Publish (av_queue v) req s
                    in case res of
                         Inl _ \<Rightarrow>
                           ((a\<lparr>as_failed := as_failed a + 1\<rparr>, s1),
                            writeError (set_header ''Retry-After'' ''1'' w) 503 ''unavailable''
                              ''could not accept the request right now; please retry'' [] requestID, Returned)
                       | Inr _ \<Rightarrow>
                           ((a\<lparr>as_accepted := as_accepted a + 1,
                               as_rides := as_rides a @ [(TenantID req, ''accepted'')],
                               as_seconds := as_seconds a @ [(TenantID req, time_sub (av_wall v s1) started)]\<rparr>, s1),
                            writeJSON w 202 requestID
                              (JObj [(''request_id'', JStr requestID), (''status'', JStr ''PENDING'')]), Returned))"

section \<open>The other handlers\<close>

definition handleHealth :: "'s api_handler" where
  "handleHealth r w st = (st, writeJSON w 200 (RequestIDFrom r) (JObj [(''status'', JStr ''ok'')]), Returned)"

definition handleReady :: "'s ApiServer \<Rightarrow> 's api_handler" where
  "handleReady v r w = (\<lambda>(a, s).
     let (s1, d) = Depth (av_queue v) s
     in case d of
          Inl _ \<Rightarrow> ((a, s1), writeError w 503 ''unavailable'' ''queue is not reachable'' [] (RequestIDFrom r), Returned)
        | Inr _ \<Rightarrow> ((a, s1), writeJSON w 200 (RequestIDFrom r) (JObj [(''status'', JStr ''ready'')]), Returned))"

definition ok_or_zero :: "goerr + int \<Rightarrow> int" where
  "ok_or_zero x = (case x of Inl _ \<Rightarrow> 0 | Inr n \<Rightarrow> n)"

text \<open>The encoder writes the keys of a map in order.\<close>

definition handleStats :: "'s ApiServer \<Rightarrow> 's api_handler" where
  "handleStats v r w = (\<lambda>(a, s).
     let (s1, depth) = Depth (av_queue v) s;
         (s2, pending) = PendingCount (av_queue v) s1;
         (s3, dead) = DeadLetterDepth (av_queue v) s2;
         st = api_Stats a
     in ((a, s3), writeJSON w 200 (RequestIDFrom r)
           (JObj [(''accepted'', JInt (st_Accepted st)), (''failed'', JInt (st_Failed st)), (''panics'', JInt (st_Panics st)),
                  (''queue_dead_letter'', JInt (ok_or_zero dead)), (''queue_depth'', JInt (ok_or_zero depth)),
                  (''queue_pending'', JInt (ok_or_zero pending)), (''rejected'', JInt (st_Rejected st))]), Returned))"

definition handleNotFound :: "'s api_handler" where
  "handleNotFound r w st =
     (st, writeError w 404 ''not_found'' (''no route for '' @ hr_Method r @ '' '' @ hr_Path r) [] (RequestIDFrom r), Returned)"

section \<open>Routing\<close>

text \<open>\<open>path.Clean\<close> of a rooted path and the router's use of it: a request for a path that is not clean
  is redirected. A \<open>GET\<close> pattern also matches \<open>HEAD\<close>.\<close>

fun clean_parts :: "string list \<Rightarrow> string list \<Rightarrow> string list" where
  "clean_parts acc [] = rev acc"
| "clean_parts acc (p # ps) =
     (if p = [] \<or> p = ''.'' then clean_parts acc ps
      else if p = ''..'' then clean_parts (tl acc) ps
      else clean_parts (p # acc) ps)"

definition cleanPath :: "string \<Rightarrow> string" where
  "cleanPath p =
     (let parts = clean_parts [] (split_on (CHR ''/'') p);
          np = (if parts = [] then ''/'' else concat (map (\<lambda>x. CHR ''/'' # x) parts))
      in if p \<noteq> [] \<and> last p = CHR ''/'' \<and> np \<noteq> ''/'' then np @ ''/'' else np)"

definition redirect :: "response \<Rightarrow> string \<Rightarrow> response" where
  "redirect w loc = write_header 301 (set_header ''Location'' loc w)"

definition mux :: "'s ApiServer \<Rightarrow> 's api_handler" where
  "mux v r w st =
     (let get = hr_Method r \<in> {''GET'', ''HEAD''} in
      if hr_Method r \<noteq> ''CONNECT'' \<and> cleanPath (hr_Path r) \<noteq> hr_Path r
      then (st, redirect w (cleanPath (hr_Path r)), Returned)
      else if hr_Method r = ''POST'' \<and> hr_Path r = ''/v1/ride-requests'' then handleCreateRideRequest v r w st
      else if get \<and> hr_Path r = ''/healthz'' then handleHealth r w st
      else if get \<and> hr_Path r = ''/readyz'' then handleReady v r w st
      else if get \<and> hr_Path r = ''/stats'' then handleStats v r w st
      else handleNotFound r w st)"

text \<open>The authentication store works on the world below the server's counters.\<close>

definition lift_store :: "'s KeyStore \<Rightarrow> ('b \<times> 's) KeyStore" where
  "lift_store k =
     \<lparr>ks_Create = (\<lambda>t n d l (a, s). let (s1, x) = ks_Create k t n d l s in ((a, s1), x)),
      ks_Lookup = (\<lambda>i (a, s). let (s1, x) = ks_Lookup k i s in ((a, s1), x)),
      ks_Revoke = (\<lambda>i (a, s). let (s1, x) = ks_Revoke k i s in ((a, s1), x)),
      ks_Rotate = (\<lambda>i d (a, s). let (s1, x) = ks_Rotate k i d s in ((a, s1), x)),
      ks_Allow = (\<lambda>i n (a, s). let (s1, x) = ks_Allow k i n s in ((a, s1), x))\<rparr>"

definition auth_options :: "'s ApiServer \<Rightarrow> 's KeyStore \<Rightarrow> (api_state \<times> 's) AuthOptions" where
  "auth_options v keys =
     \<lparr>ao_Store = lift_store keys, ao_Now = (\<lambda>(a, s). ac_Now (av_cfg v) s),
      ao_WriteError = (\<lambda>w status code message r. writeError w status code message [] (RequestIDFrom r)),
      ao_SkipPaths = [''/healthz'', ''/readyz'']\<rparr>"

definition Routes :: "'s ApiServer \<Rightarrow> 's api_handler" where
  "Routes v =
     (let handler = (case ac_Keys (av_cfg v) of
                       None \<Rightarrow> mux v
                     | Some keys \<Rightarrow> Middleware (auth_options v keys) (mux v))
      in recoverPanics (withRequestID v (logRequests handler)))"

end
