(* ===== verification/Engine.thy ===== *)
theory Engine
  imports Strconv
begin

text \<open>
  \<open>internal/engine\<close>: the bounded, classified gRPC client of the C++ matching engine. The generated
  stub, the connection and \<open>status.FromError\<close> are not code of the repository; they are the fields
  of the parameter \<open>engine_api\<close>. The messages are the ones of \<open>docs/api/matching.proto\<close>.

  A \<open>context.Context\<close> is the deadline it carries (\<open>None\<close>: none); its cancellation is an event of
  the world that the stub reports as an error.
\<close>

section \<open>Messages\<close>

datatype CostMetric = COST_METRIC_UNSPECIFIED | COST_METRIC_EUCLIDEAN | COST_METRIC_TRAVEL_TIME

record LatLng =
  ll_lat :: float64
  ll_lng :: float64

record Rider =
  rider_Id :: string
  rider_Pickup :: LatLng

record Driver =
  driver_Id :: string
  driver_Location :: LatLng

record MatchBatchRequest =
  TenantId :: string
  BatchId :: string
  Riders :: "Rider list"
  CandidateDrivers :: "Driver list"
  req_CostMetric :: CostMetric
  RoadGraphId :: string
  MaxCandidatesPerRider :: int

record Match =
  RiderId :: string
  DriverId :: string

record MatchBatchResponse =
  Matches :: "Match list"

record LoadedGraph =
  lg_RoadGraphId :: string

record HealthResponse =
  Healthy :: bool
  LoadedGraphs :: "LoadedGraph list"

text \<open>The status codes of gRPC.\<close>

datatype grpc_code =
    OK | Canceled | Unknown | InvalidArgument | DeadlineExceeded | NotFound | AlreadyExists
  | PermissionDenied | ResourceExhausted | FailedPrecondition | Aborted | OutOfRange
  | Unimplemented | Internal | Unavailable | DataLoss | Unauthenticated

section \<open>The client\<close>

type_synonym ctx = "gotime option"

text \<open>\<open>context.WithTimeout\<close>: the deadline \<open>d\<close> from now, unless the parent's is earlier.\<close>

definition with_timeout :: "gotime \<Rightarrow> duration \<Rightarrow> ctx \<Rightarrow> ctx" where
  "with_timeout now d c = Some (case c of None \<Rightarrow> now + d | Some t \<Rightarrow> min t (now + d))"

record 's engine_api =
  api_SolveBatch :: "ctx \<Rightarrow> MatchBatchRequest \<Rightarrow> 's \<Rightarrow> 's \<times> (goerr + MatchBatchResponse)"
  api_Health :: "ctx \<Rightarrow> 's \<Rightarrow> 's \<times> (goerr + HealthResponse)"
  status_from_error :: "goerr \<Rightarrow> (grpc_code \<times> string) option"
  code_string :: "grpc_code \<Rightarrow> string"
  api_now :: "'s \<Rightarrow> gotime"

record 's Client =
  ec_api :: "'s engine_api"
  ec_timeout :: duration

abbreviation DefaultTimeout :: duration where "DefaultTimeout \<equiv> 2 * second"

type_synonym 's Option_fn = "'s Client \<Rightarrow> 's Client"

definition WithTimeout :: "duration \<Rightarrow> 's Option_fn" where
  "WithTimeout d c = c\<lparr>ec_timeout := d\<rparr>"

text \<open>\<open>Dial\<close> connects lazily, so only \<open>grpc.NewClient\<close> (the argument \<open>conn\<close>) can fail.\<close>

definition Dial :: "string \<Rightarrow> goerr + 's engine_api \<Rightarrow> 's Option_fn list \<Rightarrow> goerr + 's Client" where
  "Dial target conn opts =
     (case conn of
        Inl e \<Rightarrow> Inl (Wrapf (''dial '' @ target @ '': '') e [])
      | Inr api \<Rightarrow> Inr (fold (\<lambda>opt c. opt c) opts \<lparr>ec_api = api, ec_timeout = DefaultTimeout\<rparr>))"

definition classify :: "'s engine_api \<Rightarrow> goerr \<Rightarrow> goerr option" where
  "classify api err =
     (case status_from_error api err of
        None \<Rightarrow> Some (Wrapf [] (Sent ErrEngineUnavailable) ('': '' @ error_text err))
      | Some (code, msg) \<Rightarrow>
          (case code of
             OK \<Rightarrow> None
           | Unavailable \<Rightarrow> Some (Wrapf [] (Sent ErrEngineUnavailable) ('': '' @ msg))
           | DeadlineExceeded \<Rightarrow> Some (Wrapf [] (Sent ErrTimeout) ('': '' @ msg))
           | InvalidArgument \<Rightarrow> Some (Wrapf [] (Sent ErrInvalidBatch) ('': '' @ msg))
           | FailedPrecondition \<Rightarrow> Some (Wrapf [] (Sent ErrGraphNotLoaded) ('': '' @ msg))
           | ResourceExhausted \<Rightarrow> Some (Wrapf [] (Sent ErrBatchTooLarge) ('': '' @ msg))
           | Canceled \<Rightarrow> Some (Wrapf [] (Sent ErrCancelled) ('': '' @ msg))
           | _ \<Rightarrow> Some (Wrapf [] (Sent ErrEngineUnavailable)
                    ('': '' @ msg @ '' (code '' @ code_string api code @ '')''))))"

fun Retryable :: "goerr option \<Rightarrow> bool" where
  "Retryable None \<longleftrightarrow> False"
| "Retryable (Some err) \<longleftrightarrow>
     \<not> (errors_is err ErrInvalidBatch \<or> errors_is err ErrGraphNotLoaded \<or>
        errors_is err ErrBatchTooLarge \<or> errors_is err ErrCancelled)"

text \<open>A result with a Go pointer: \<open>Inr None\<close> is \<open>nil, nil\<close>, which \<open>classify\<close> produces for a status
  error whose code is \<open>OK\<close>.\<close>

definition classified :: "'s engine_api \<Rightarrow> goerr + 'r \<Rightarrow> goerr + 'r option" where
  "classified api r =
     (case r of
        Inl e \<Rightarrow> (case classify api e of Some e' \<Rightarrow> Inl e' | None \<Rightarrow> Inr None)
      | Inr v \<Rightarrow> Inr (Some v))"

definition SolveBatch ::
  "'s Client \<Rightarrow> ctx \<Rightarrow> MatchBatchRequest option \<Rightarrow> 's \<Rightarrow> 's \<times> (goerr + MatchBatchResponse option)" where
  "SolveBatch c ctx req s =
     (case req of
        None \<Rightarrow> (s, Inl (Wrapf [] (Sent ErrInvalidBatch) '': nil request''))
      | Some rq \<Rightarrow>
          let (s1, r) = api_SolveBatch (ec_api c) (with_timeout (api_now (ec_api c) s) (ec_timeout c) ctx) rq s
          in (s1, classified (ec_api c) r))"

definition Health :: "'s Client \<Rightarrow> ctx \<Rightarrow> 's \<Rightarrow> 's \<times> (goerr + HealthResponse option)" where
  "Health c ctx s =
     (let (s1, r) = api_Health (ec_api c) (with_timeout (api_now (ec_api c) s) (ec_timeout c) ctx) s
      in (s1, classified (ec_api c) r))"

fun serves_graph :: "string \<Rightarrow> LoadedGraph list \<Rightarrow> bool" where
  "serves_graph graphID [] \<longleftrightarrow> False"
| "serves_graph graphID (g # gs) \<longleftrightarrow> (if lg_RoadGraphId g = graphID then True else serves_graph graphID gs)"

definition HasGraph :: "'s Client \<Rightarrow> ctx \<Rightarrow> string \<Rightarrow> 's \<Rightarrow> 's \<times> (goerr + bool)" where
  "HasGraph c ctx graphID s =
     (let (s1, r) = Health c ctx s
      in (s1, case r of
                Inl e \<Rightarrow> Inl e
              | Inr None \<Rightarrow> Inr False
              | Inr (Some resp) \<Rightarrow> Inr (serves_graph graphID (LoadedGraphs resp))))"

section \<open>Lemmas\<close>

lemma with_timeout_bound:
  "with_timeout now d c = Some t \<Longrightarrow> t \<le> now + d \<and> (\<forall>t'. c = Some t' \<longrightarrow> t \<le> t')"
  by (auto simp: with_timeout_def split: option.splits)

lemma serves_graph_iff: "serves_graph i gs \<longleftrightarrow> i \<in> lg_RoadGraphId ` set gs"
  by (induction gs) auto

lemma classify_Some_sentinel:
  assumes "classify api e = Some e'"
  shows "errors_is e' x \<longleftrightarrow>
    x = (case status_from_error api e of
           None \<Rightarrow> ErrEngineUnavailable
         | Some (code, _) \<Rightarrow>
             (case code of DeadlineExceeded \<Rightarrow> ErrTimeout | InvalidArgument \<Rightarrow> ErrInvalidBatch
              | FailedPrecondition \<Rightarrow> ErrGraphNotLoaded | ResourceExhausted \<Rightarrow> ErrBatchTooLarge
              | Canceled \<Rightarrow> ErrCancelled | _ \<Rightarrow> ErrEngineUnavailable))"
  using assms
  by (auto simp: classify_def split: option.splits prod.splits grpc_code.splits)

lemma classify_None: "classify api e = None \<longleftrightarrow> (\<exists>m. status_from_error api e = Some (OK, m))"
  by (auto simp: classify_def split: option.splits prod.splits grpc_code.splits)

lemma SolveBatch_cases:
  assumes "SolveBatch c ctx (Some rq) s = (s', r)"
  obtains (answer) resp where "r = Inr (Some resp)"
      "api_SolveBatch (ec_api c) (with_timeout (api_now (ec_api c) s) (ec_timeout c) ctx) rq s = (s', Inr resp)"
  | (failure) e e' where "r = Inl e'" "classify (ec_api c) e = Some e'"
      "api_SolveBatch (ec_api c) (with_timeout (api_now (ec_api c) s) (ec_timeout c) ctx) rq s = (s', Inl e)"
  | (nothing) e where "r = Inr None" "classify (ec_api c) e = None"
      "api_SolveBatch (ec_api c) (with_timeout (api_now (ec_api c) s) (ec_timeout c) ctx) rq s = (s', Inl e)"
  using assms
  by (auto simp: SolveBatch_def classified_def split: prod.splits sum.splits option.splits)

section \<open>The properties\<close>

text \<open>C15. The retry decision of the taxonomy, for every failure the stub can report: the client's
  error is not retryable exactly when the status code says the batch itself is at fault
  (\<open>InvalidArgument\<close>, \<open>FailedPrecondition\<close>, \<open>ResourceExhausted\<close>) or the call was cancelled; every
  other failure, one that is no gRPC status included, is retryable.\<close>

theorem solve_retry_taxonomy:
  assumes "api_SolveBatch (ec_api c) (with_timeout (api_now (ec_api c) s) (ec_timeout c) ctx) rq s = (s', Inl e)"
    and "\<forall>m. status_from_error (ec_api c) e \<noteq> Some (OK, m)"
  shows "\<exists>e'. SolveBatch c ctx (Some rq) s = (s', Inl e') \<and>
    (Retryable (Some e') \<longleftrightarrow>
       (\<forall>code m. status_from_error (ec_api c) e = Some (code, m) \<longrightarrow>
          code \<notin> {InvalidArgument, FailedPrecondition, ResourceExhausted, Canceled}))"
proof -
  obtain e' where e': "classify (ec_api c) e = Some e'"
    using assms(2) by (cases "classify (ec_api c) e") (auto simp: classify_None)
  have "Retryable (Some e') \<longleftrightarrow>
       (\<forall>code m. status_from_error (ec_api c) e = Some (code, m) \<longrightarrow>
          code \<notin> {InvalidArgument, FailedPrecondition, ResourceExhausted, Canceled})"
    by (simp add: classify_Some_sentinel [OF e'] split: option.splits prod.splits grpc_code.splits)
  with e' assms(1) show ?thesis by (simp add: SolveBatch_def classified_def)
qed

text \<open>A stub that answers from a script, for the witnesses; the world counts the calls and keeps
  the deadline of the last one.\<close>

record script =
  sc_answers :: "(goerr + MatchBatchResponse) list"
  sc_graphs :: "string list"
  sc_clock :: gotime
  sc_deadline :: ctx

definition script_api :: "script engine_api" where
  "script_api =
     \<lparr>api_SolveBatch = (\<lambda>ctx rq s. case sc_answers s of
          [] \<Rightarrow> (s\<lparr>sc_deadline := ctx\<rparr>, Inl (ForeignError 14 ''connection refused''))
        | a # as \<Rightarrow> (s\<lparr>sc_answers := as, sc_deadline := ctx\<rparr>, a)),
      api_Health = (\<lambda>ctx s. (s\<lparr>sc_deadline := ctx\<rparr>,
          Inr \<lparr>Healthy = True, LoadedGraphs = map (\<lambda>g. \<lparr>lg_RoadGraphId = g\<rparr>) (sc_graphs s)\<rparr>)),
      status_from_error = (\<lambda>e. case e of
          ForeignError n m \<Rightarrow>
            if n = 1 then Some (Canceled, m) else if n = 3 then Some (InvalidArgument, m)
            else if n = 14 then Some (Unavailable, m) else None
        | _ \<Rightarrow> None),
      code_string = (\<lambda>_. ''code''), api_now = sc_clock\<rparr>"

definition script_client :: "script Client" where
  "script_client = \<lparr>ec_api = script_api, ec_timeout = DefaultTimeout\<rparr>"

definition no_answers :: script where
  "no_answers = \<lparr>sc_answers = [], sc_graphs = [''sf''], sc_clock = 7, sc_deadline = None\<rparr>"

definition small_batch :: MatchBatchRequest where
  "small_batch = \<lparr>TenantId = ''acme'', BatchId = ''batch-1'', Riders = [], CandidateDrivers = [],
     req_CostMetric = COST_METRIC_EUCLIDEAN, RoadGraphId = [], MaxCandidatesPerRider = 8\<rparr>"

theorem solve_retry_taxonomy_witness:
  "\<exists>e'. SolveBatch script_client None (Some small_batch) no_answers =
      (no_answers\<lparr>sc_deadline := Some (2 * second + 7)\<rparr>, Inl e') \<and> Retryable (Some e')"
proof -
  have "api_SolveBatch (ec_api script_client)
      (with_timeout (api_now (ec_api script_client) no_answers) (ec_timeout script_client) None) small_batch no_answers =
      (no_answers\<lparr>sc_deadline := Some (2 * second + 7)\<rparr>, Inl (ForeignError 14 ''connection refused''))"
    by (simp add: script_client_def script_api_def no_answers_def with_timeout_def)
  note t = solve_retry_taxonomy [OF this]
  have "status_from_error (ec_api script_client) (ForeignError 14 m) = Some (Unavailable, m)" for m
    by (simp add: script_client_def script_api_def)
  with t show ?thesis by auto
qed

text \<open>Every call into the engine is bounded: the deadline the stub gets is never later than the
  client's timeout from now, nor than the deadline the caller already had.\<close>

theorem engine_calls_bounded:
  "\<exists>t r. SolveBatch c ctx (Some rq) s =
       (fst (api_SolveBatch (ec_api c) (Some t) rq s), r) \<and>
     t \<le> api_now (ec_api c) s + ec_timeout c \<and> (case ctx of None \<Rightarrow> True | Some u \<Rightarrow> t \<le> u)"
proof -
  obtain t where t: "with_timeout (api_now (ec_api c) s) (ec_timeout c) ctx = Some t"
    by (auto simp: with_timeout_def)
  with with_timeout_bound [OF t] show ?thesis
    by (intro exI [of _ t]) (auto simp: SolveBatch_def split: prod.splits option.splits)
qed

text \<open>\<open>HasGraph\<close> answers exactly whether the engine's health report lists the graph, and
  passes every failure of the probe on, classified.\<close>

lemma has_graph_exact:
  "HasGraph c ctx g s =
     (case api_Health (ec_api c) (with_timeout (api_now (ec_api c) s) (ec_timeout c) ctx) s of
        (s', Inr resp) \<Rightarrow> (s', Inr (g \<in> lg_RoadGraphId ` set (LoadedGraphs resp)))
      | (s', Inl e) \<Rightarrow> (s', case classify (ec_api c) e of Some e' \<Rightarrow> Inl e' | None \<Rightarrow> Inr False))"
  by (auto simp: HasGraph_def Health_def classified_def serves_graph_iff
      split: prod.splits sum.splits option.splits)

end
