(* ===== verification/Locations.thy ===== *)
theory Locations
  imports Redis_Streams "HOL-Library.Log_Nat"
begin

text \<open>
  \<open>internal/locations\<close>: the live store of driver positions, in two Redis sorted sets per tenant, a
  geo index and the time of the last ping. The Redis commands are the parameter \<open>geo_client\<close>; the
  locale \<open>redis_geo\<close> states what the store relies on over two observations, the positions that a
  radius search sees and the score of a member.

  Scores are \<open>float64\<close> values that \<open>UpsertMany\<close> computed from a millisecond count, so they are
  integers; \<open>f64_of_int\<close> is the rounding of that conversion, exact up to \<open>2 ^ 53\<close>.
\<close>

section \<open>Data\<close>

record DriverLocation =
  dl_TenantID :: string
  DriverID :: string
  dl_Lat :: float64
  dl_Lng :: float64
  DistanceMeters :: float64
  LastSeen :: gotime

record Query =
  q_Lat :: float64
  q_Lng :: float64
  q_Radius :: float64
  q_Limit :: int

record geo_hit =
  gh_Name :: string
  gh_Lat :: float64
  gh_Lng :: float64
  gh_Dist :: float64

text \<open>The members of the \<open>Repository\<close> interface that its clients call.\<close>

record 's Repository =
  repo_UpsertMany :: "DriverLocation list \<Rightarrow> 's \<Rightarrow> 's \<times> goerr option"
  repo_NearbyMany :: "Query list \<Rightarrow> 's \<Rightarrow> 's \<times> (goerr + DriverLocation list list)"
  repo_Nearby :: "Query \<Rightarrow> 's \<Rightarrow> 's \<times> (goerr + DriverLocation list)"
  repo_RemoveDriver :: "string \<Rightarrow> 's \<Rightarrow> 's \<times> goerr option"
  repo_Reap :: "'s \<Rightarrow> 's \<times> (goerr + int)"
  repo_Count :: "'s \<Rightarrow> 's \<times> int \<times> goerr option"

text \<open>The Redis commands. \<open>geosearch_pipe\<close> is a pipeline of searches: its error and each
  command's own result. \<open>write_pipe\<close> is a pipeline of writes.\<close>

record 's geo_client =
  geoadd :: "string \<Rightarrow> (string \<times> float64 \<times> float64) list \<Rightarrow> 's \<Rightarrow> 's \<times> goerr option"
  zadd :: "string \<Rightarrow> (string \<times> int) list \<Rightarrow> 's \<Rightarrow> 's \<times> goerr option"
  zrem :: "string \<Rightarrow> string list \<Rightarrow> 's \<Rightarrow> 's \<times> goerr option"
  write_pipe :: "('s \<Rightarrow> 's \<times> goerr option) list \<Rightarrow> 's \<Rightarrow> 's \<times> goerr option"
  geosearch :: "string \<Rightarrow> Query \<Rightarrow> int \<Rightarrow> 's \<Rightarrow> 's \<times> (goerr + geo_hit list)"
  geosearch_pipe :: "string \<Rightarrow> (Query \<times> int) list \<Rightarrow> 's \<Rightarrow>
                       's \<times> goerr option \<times> (goerr + geo_hit list) list"
  zmscore :: "string \<Rightarrow> string list \<Rightarrow> 's \<Rightarrow> 's \<times> (goerr + int list)"
  zrange_below :: "string \<Rightarrow> int \<Rightarrow> int \<Rightarrow> 's \<Rightarrow> 's \<times> (goerr + string list)"
  zcard :: "string \<Rightarrow> 's \<Rightarrow> 's \<times> (goerr + int)"
  geo_ping :: "'s \<Rightarrow> 's \<times> goerr option"
  geo_rand :: "int \<Rightarrow> 's \<Rightarrow> 's \<times> int"
  geo_sleep :: "duration \<Rightarrow> 's \<Rightarrow> 's \<times> goerr option"

record 's Options =
  lo_TenantID :: string
  lo_TTL :: duration
  lo_MaxRetries :: int
  lo_PoolSize :: int
  lo_Now :: "'s \<Rightarrow> gotime"

record 's RedisRepository =
  lr_client :: "'s geo_client"
  lr_opts :: "'s Options"

definition DefaultOptions :: "('s \<Rightarrow> gotime) \<Rightarrow> 's Options" where
  "DefaultOptions now = \<lparr>lo_TenantID = ''default'', lo_TTL = 30 * second, lo_MaxRetries = 3,
     lo_PoolSize = 50, lo_Now = now\<rparr>"

text \<open>\<open>NewRedis\<close> after its nil default for \<open>Now\<close>; the connection itself is the parameter \<open>connect\<close>,
  which gets the network that the address selects.\<close>

definition NewRedis ::
  "(string \<Rightarrow> string \<Rightarrow> int \<Rightarrow> 's geo_client) \<Rightarrow> string \<Rightarrow> 's Options \<Rightarrow> goerr + 's RedisRepository" where
  "NewRedis connect addr opts =
     (if lo_TTL opts \<le> 0 then Inl (Errorf ''locations: TTL must be positive'')
      else if lo_TenantID opts = [] then Inl (Errorf ''locations: TenantID must be set'')
      else let network = (if addr \<noteq> [] \<and> hd addr = CHR ''/'' then ''unix'' else ''tcp'')
           in Inr \<lparr>lr_client = connect network addr (lo_PoolSize opts), lr_opts = opts\<rparr>)"

definition geoKey :: "'s RedisRepository \<Rightarrow> string" where
  "geoKey r = ''drivers:geo:'' @ lo_TenantID (lr_opts r)"

definition seenKey :: "'s RedisRepository \<Rightarrow> string" where
  "seenKey r = ''drivers:seen:'' @ lo_TenantID (lr_opts r)"

section \<open>Retrying\<close>

fun retryable :: "goerr option \<Rightarrow> bool" where
  "retryable None \<longleftrightarrow> False"
| "retryable (Some e) \<longleftrightarrow>
     \<not> errors_is e RedisNil \<and>
     \<not> (errors_is e ContextCanceled \<or> errors_is e ContextDeadlineExceeded) \<and>
     \<not> errors_as_redis e"

text \<open>The loop of \<open>withRetry\<close> with \<open>left\<close> attempts after this one. The captured result variables of
  the closures are the result of \<open>op\<close>.\<close>

fun retry_loop ::
  "'s RedisRepository \<Rightarrow> nat \<Rightarrow> duration \<Rightarrow> ('s \<Rightarrow> 's \<times> (goerr + 'a)) \<Rightarrow> 's \<Rightarrow> 's \<times> (goerr + 'a)" where
  "retry_loop r left backoff opn s =
     (let (s1, x) = opn s in
      case x of
        Inr v \<Rightarrow> (s1, Inr v)
      | Inl e \<Rightarrow>
          if \<not> retryable (Some e) then (s1, Inl e)
          else (case left of
                  0 \<Rightarrow> (s1, Inl (Wrapf (''after '' @ format_int (lo_MaxRetries (lr_opts r)) @ '' retries: '') e []))
                | Suc left' \<Rightarrow>
                    (let (s2, jitter) = geo_rand (lr_client r) backoff s1;
                         (s3, cancelled) = geo_sleep (lr_client r) (backoff + jitter) s2
                     in case cancelled of
                          Some c \<Rightarrow> (s3, Inl c)
                        | None \<Rightarrow> retry_loop r left' (min (backoff * 2) (500 * millisecond)) opn s3)))"

declare retry_loop.simps [simp del]

definition withRetry ::
  "'s RedisRepository \<Rightarrow> ('s \<Rightarrow> 's \<times> (goerr + 'a)) \<Rightarrow> 's \<Rightarrow> 's \<times> (goerr + 'a)" where
  "withRetry r opn s =
     (if lo_MaxRetries (lr_opts r) < 0
      then (s, Inl (Errorf (''after '' @ format_int (lo_MaxRetries (lr_opts r)) @ '' retries: %!w(<nil>)'')))
      else retry_loop r (nat (lo_MaxRetries (lr_opts r))) (10 * millisecond) opn s)"

text \<open>An operation that only returns an error.\<close>

definition err_op :: "('s \<Rightarrow> 's \<times> goerr option) \<Rightarrow> 's \<Rightarrow> 's \<times> (goerr + unit)" where
  "err_op f s = (let (s1, e) = f s in (s1, case e of None \<Rightarrow> Inr () | Some x \<Rightarrow> Inl x))"

definition err_of :: "'s \<times> (goerr + 'a) \<Rightarrow> 's \<times> goerr option" where
  "err_of p = (fst p, case snd p of Inl e \<Rightarrow> Some e | Inr _ \<Rightarrow> None)"

section \<open>Writing\<close>

text \<open>\<open>float64(x)\<close> of a 64-bit integer: round to 53 significant bits, ties to even.\<close>

definition f64_of_int :: "int \<Rightarrow> int" where
  "f64_of_int x =
     (let a = \<bar>x\<bar> in
      if a \<le> 2 ^ 53 then x
      else let u = 2 ^ (floorlog 2 (nat a) - 53); m = a div u; rest = a mod u;
               m' = (if 2 * rest < u \<or> (2 * rest = u \<and> even m) then m else m + 1)
           in sgn x * m' * u)"

definition out_of_mercator :: "DriverLocation \<Rightarrow> bool" where
  "out_of_mercator l \<longleftrightarrow>
     out_of_range (- (8505112878 / 100000000)) (8505112878 / 100000000) (dl_Lat l) \<or>
     out_of_range (- 180) 180 (dl_Lng l)"

text \<open>\<open>pf\<close> is the \<open>%f\<close> verb of \<open>fmt\<close>.\<close>

fun upsert_rows ::
  "(float64 \<Rightarrow> string) \<Rightarrow> gotime \<Rightarrow> DriverLocation list \<Rightarrow>
   goerr + ((string \<times> float64 \<times> float64) \<times> (string \<times> int)) list" where
  "upsert_rows pf now [] = Inr []"
| "upsert_rows pf now (l # ls) =
     (if DriverID l = [] then Inl (Errorf ''locations: empty driver id'')
      else if out_of_mercator l
        then Inl (Errorf (''locations: driver '' @ DriverID l @ '' has out-of-range coordinates ('' @
                    pf (dl_Lat l) @ '', '' @ pf (dl_Lng l) @ '')''))
      else case upsert_rows pf now ls of
             Inl e \<Rightarrow> Inl e
           | Inr rows \<Rightarrow>
               let ts = (if is_zero (LastSeen l) then now else LastSeen l)
               in Inr (((DriverID l, dl_Lat l, dl_Lng l), (DriverID l, f64_of_int (unix_milli ts))) # rows))"

definition UpsertMany ::
  "(float64 \<Rightarrow> string) \<Rightarrow> 's RedisRepository \<Rightarrow> DriverLocation list \<Rightarrow> 's \<Rightarrow> 's \<times> goerr option" where
  "UpsertMany pf r locs s =
     (if locs = [] then (s, None)
      else case upsert_rows pf (lo_Now (lr_opts r) s) locs of
             Inl e \<Rightarrow> (s, Some e)
           | Inr rows \<Rightarrow>
               err_of (withRetry r (err_op (write_pipe (lr_client r)
                 [geoadd (lr_client r) (geoKey r) (map fst rows),
                  zadd (lr_client r) (seenKey r) (map snd rows)])) s))"

definition UpsertDriver ::
  "(float64 \<Rightarrow> string) \<Rightarrow> 's RedisRepository \<Rightarrow> string \<Rightarrow> float64 \<Rightarrow> float64 \<Rightarrow> 's \<Rightarrow> 's \<times> goerr option" where
  "UpsertDriver pf r driverID lat lng =
     UpsertMany pf r [\<lparr>dl_TenantID = [], DriverID = driverID, dl_Lat = lat, dl_Lng = lng,
                       DistanceMeters = Fin 0, LastSeen = zero_time\<rparr>]"

definition RemoveDriver :: "'s RedisRepository \<Rightarrow> string \<Rightarrow> 's \<Rightarrow> 's \<times> goerr option" where
  "RemoveDriver r driverID s =
     err_of (withRetry r (err_op (write_pipe (lr_client r)
       [zrem (lr_client r) (geoKey r) [driverID], zrem (lr_client r) (seenKey r) [driverID]])) s)"

section \<open>Reading\<close>

definition cutoff :: "'s RedisRepository \<Rightarrow> 's \<Rightarrow> int" where
  "cutoff r s = unix_milli (lo_Now (lr_opts r) s - lo_TTL (lr_opts r))"

definition query_limit :: "Query \<Rightarrow> int" where
  "query_limit q = (if q_Limit q \<le> 0 then 100 else q_Limit q)"

definition query_fetch :: "Query \<Rightarrow> int" where
  "query_fetch q = (let fetch = wrap64 (query_limit q * 3) in if fetch > 1000 then 1000 else fetch)"

text \<open>The loop over the hits of \<open>Nearby\<close>: \<open>room\<close> results are still wanted; a hit without a score
  (the reply was short) is skipped.\<close>

fun take_fresh :: "int \<Rightarrow> nat \<Rightarrow> geo_hit list \<Rightarrow> int list \<Rightarrow> DriverLocation list" where
  "take_fresh since room (h # hs) (lastSeen # scores) =
     (if lastSeen < since then take_fresh since room hs scores
      else \<lparr>dl_TenantID = [], DriverID = gh_Name h, dl_Lat = gh_Lat h, dl_Lng = gh_Lng h,
            DistanceMeters = gh_Dist h, LastSeen = time_unix_milli lastSeen\<rparr> #
           (if room \<le> 1 then [] else take_fresh since (room - 1) hs scores))"
| "take_fresh since room _ _ = []"

definition Nearby ::
  "'s RedisRepository \<Rightarrow> Query \<Rightarrow> 's \<Rightarrow> 's \<times> (goerr + DriverLocation list)" where
  "Nearby r q s =
     (if \<not> f_less (Fin 0) (q_Radius q) \<and> \<not> is_nan (q_Radius q)
      then (s, Inl (Errorf ''locations: radius must be positive''))
      else
        let (s1, raw) = withRetry r (geosearch (lr_client r) (geoKey r) q (query_fetch q)) s
        in case raw of
             Inl e \<Rightarrow> (s1, Inl (Wrapf ''geosearch: '' e []))
           | Inr hits \<Rightarrow>
               if hits = [] then (s1, Inr [])
               else
                 let (s2, scores) = withRetry r (zmscore (lr_client r) (seenKey r) (map gh_Name hits)) s1
                 in case scores of
                      Inl e \<Rightarrow> (s2, Inl (Wrapf ''zmscore: '' e []))
                    | Inr sc \<Rightarrow> (s2, Inr (take_fresh (cutoff r s2) (nat (query_limit q)) hits sc)))"

text \<open>The pipelined variant. \<open>collect_hits\<close> is the loop that reads each command's result.\<close>

fun collect_hits :: "nat \<Rightarrow> (goerr + geo_hit list) list \<Rightarrow> goerr + geo_hit list list" where
  "collect_hits i [] = Inr []"
| "collect_hits i (c # cs) =
     (case c of
        Inl e \<Rightarrow>
          if errors_is e RedisNil
          then (case collect_hits (Suc i) cs of Inl e' \<Rightarrow> Inl e' | Inr hs \<Rightarrow> Inr ([] # hs))
          else Inl (Wrapf (''geosearch result '' @ format_int (int i) @ '': '') e [])
      | Inr h \<Rightarrow> (case collect_hits (Suc i) cs of Inl e' \<Rightarrow> Inl e' | Inr hs \<Rightarrow> Inr (h # hs)))"

definition union_members :: "geo_hit list list \<Rightarrow> string list" where
  "union_members raw =
     rev (fold (\<lambda>l acc. if gh_Name l \<in> set acc then acc else gh_Name l # acc) (concat raw) [])"

text \<open>The freshness map: the members with a score at or after the cutoff.\<close>

definition fresh_map :: "int \<Rightarrow> string list \<Rightarrow> int list \<Rightarrow> string \<rightharpoonup> gotime" where
  "fresh_map since members scores =
     map_of (map (\<lambda>(m, sc). (m, time_unix_milli sc)) (filter (\<lambda>(m, sc). since \<le> sc) (zip members scores)))"

fun pick_fresh :: "string \<Rightarrow> (string \<rightharpoonup> gotime) \<Rightarrow> nat \<Rightarrow> geo_hit list \<Rightarrow> DriverLocation list" where
  "pick_fresh tenant fresh room [] = []"
| "pick_fresh tenant fresh room (l # ls) =
     (case fresh (gh_Name l) of
        None \<Rightarrow> pick_fresh tenant fresh room ls
      | Some lastSeen \<Rightarrow>
          \<lparr>dl_TenantID = tenant, DriverID = gh_Name l, dl_Lat = gh_Lat l, dl_Lng = gh_Lng l,
           DistanceMeters = gh_Dist l, LastSeen = lastSeen\<rparr> #
          (if room \<le> 1 then [] else pick_fresh tenant fresh (room - 1) ls))"

definition search_pipe_op ::
  "'s RedisRepository \<Rightarrow> Query list \<Rightarrow> 's \<Rightarrow> 's \<times> (goerr + (goerr + geo_hit list) list)" where
  "search_pipe_op r queries s =
     (let (s1, execErr, cmds) =
            geosearch_pipe (lr_client r) (geoKey r) (map (\<lambda>q. (q, query_fetch q)) queries) s
      in case execErr of
           None \<Rightarrow> (s1, Inr cmds)
         | Some e \<Rightarrow> if errors_is e RedisNil then (s1, Inr cmds) else (s1, Inl e))"

definition NearbyMany ::
  "'s RedisRepository \<Rightarrow> Query list \<Rightarrow> 's \<Rightarrow> 's \<times> (goerr + DriverLocation list list)" where
  "NearbyMany r queries s =
     (if queries = [] then (s, Inr [])
      else
        let (s1, res) = withRetry r (search_pipe_op r queries) s
        in case res of
             Inl e \<Rightarrow> (s1, Inl (Wrapf ''geosearch pipeline: '' e []))
           | Inr cmds \<Rightarrow>
               (case collect_hits 0 cmds of
                  Inl e \<Rightarrow> (s1, Inl e)
                | Inr raw \<Rightarrow>
                    let members = union_members raw;
                        answer = (\<lambda>fresh. map (\<lambda>(q, locs).
                          pick_fresh (lo_TenantID (lr_opts r)) fresh (nat (query_limit q)) locs) (zip queries raw))
                    in if members = [] then (s1, Inr (answer Map.empty))
                       else let (s2, scores) = withRetry r (zmscore (lr_client r) (seenKey r) members) s1
                            in case scores of
                                 Inl e \<Rightarrow> (s2, Inl (Wrapf ''zmscore: '' e []))
                               | Inr sc \<Rightarrow> (s2, Inr (answer (fresh_map (cutoff r s2) members sc)))))"

section \<open>Reaping and counting\<close>

definition Reap :: "'s RedisRepository \<Rightarrow> 's \<Rightarrow> 's \<times> (goerr + int)" where
  "Reap r s =
     (let (s1, res) = withRetry r (zrange_below (lr_client r) (seenKey r) (cutoff r s) 10000) s
      in case res of
           Inl e \<Rightarrow> (s1, Inl (Wrapf ''reap scan: '' e []))
         | Inr stale \<Rightarrow>
             if stale = [] then (s1, Inr 0)
             else
               let (s2, err) = err_of (withRetry r (err_op (write_pipe (lr_client r)
                     [zrem (lr_client r) (geoKey r) stale, zrem (lr_client r) (seenKey r) stale])) s1)
               in case err of
                    Some e \<Rightarrow> (s2, Inl (Wrapf ''reap delete: '' e []))
                  | None \<Rightarrow> (s2, Inr (int (length stale))))"

definition Count :: "'s RedisRepository \<Rightarrow> 's \<Rightarrow> 's \<times> int \<times> goerr option" where
  "Count r s =
     (let (s1, res) = withRetry r (zcard (lr_client r) (geoKey r)) s
      in (s1, case res of Inl e \<Rightarrow> (0, Some e) | Inr n \<Rightarrow> (n, None)))"

definition Ping :: "'s RedisRepository \<Rightarrow> 's \<Rightarrow> 's \<times> goerr option" where
  "Ping r s = geo_ping (lr_client r) s"

text \<open>One tick of \<open>StartReaper\<close>; \<open>onReap\<close> is the caller's hook.\<close>

definition reaper_tick ::
  "'s RedisRepository \<Rightarrow> (int \<Rightarrow> goerr option \<Rightarrow> 's \<Rightarrow> 's) option \<Rightarrow> 's \<Rightarrow> 's" where
  "reaper_tick r onReap s =
     (let (s1, res) = Reap r s;
          (removed, err) = (case res of Inl e \<Rightarrow> (0, Some e) | Inr n \<Rightarrow> (n, None))
      in case onReap of None \<Rightarrow> s1 | Some f \<Rightarrow> f removed err s1)"

definition redis_repository :: "(float64 \<Rightarrow> string) \<Rightarrow> 's RedisRepository \<Rightarrow> 's Repository" where
  "redis_repository pf r =
     \<lparr>repo_UpsertMany = UpsertMany pf r, repo_NearbyMany = NearbyMany r, repo_Nearby = Nearby r,
      repo_RemoveDriver = RemoveDriver r, repo_Reap = Reap r, repo_Count = Count r\<rparr>"

end
