(* ===== verification/Batcher.thy ===== *)
theory Batcher
  imports Ride_Queue Engine Locations
begin

text \<open>
  \<open>internal/batcher\<close>: the service that pops ride requests, finds candidate drivers, has the engine
  solve the batch and settles every message. The queue and the driver store are the interfaces
  \<open>Queue\<close> and \<open>Repository\<close>, the engine the \<open>Client\<close> of \<open>Engine\<close>. The world \<open>'s\<close> holds everything
  outside the process; the process' own counters are the record \<open>Stats\<close>.

  The iteration order of a Go map is unspecified: it is the parameter \<open>map_order\<close>, a permutation.
  \<open>prom\<close> is the sink of the Prometheus samples that \<open>emit\<close> records, \<open>pause\<close> the wait of the error
  path of \<open>Run\<close>. Log lines are not modelled.
\<close>

section \<open>Data\<close>

datatype FlushReason = FlushTimer | FlushFull | FlushShutdown

fun reason_string :: "FlushReason \<Rightarrow> string" where
  "reason_string FlushTimer = ''timer''"
| "reason_string FlushFull = ''size''"
| "reason_string FlushShutdown = ''shutdown''"

record BatchMetrics =
  bm_BatchID :: string
  bm_Reason :: FlushReason
  bm_Riders :: int
  bm_Drivers :: int
  bm_Matched :: int
  bm_Unmatched :: int
  bm_Requeued :: int
  bm_Exhausted :: int
  bm_DeadLettered :: int
  bm_QueueWaitP50 :: duration
  bm_SolveDuration :: duration
  bm_TotalDuration :: duration
  bm_Err :: "goerr option"
  bm_MatchRate :: rat

record Stats =
  st_Batches :: int
  st_Requests :: int
  st_Matched :: int
  st_Unmatched :: int
  st_Requeued :: int
  st_Exhausted :: int
  st_DeadLettered :: int
  st_SolveErrors :: int

record 's Config =
  Window :: duration
  MaxBatchSize :: int
  SearchRadiusMeters :: float64
  cfg_MaxCandidatesPerRider :: int
  cfg_CostMetric :: CostMetric
  RoadGraphID :: string
  SolveTimeout :: duration
  ReclaimEvery :: duration
  ReclaimMinIdle :: duration
  MaxMatchAttempts :: int
  TenantLabel :: string
  OnBatch :: "(BatchMetrics \<Rightarrow> 's \<Rightarrow> 's) option"
  Now :: "'s \<Rightarrow> gotime"

record 's Batcher =
  b_cfg :: "'s Config"
  b_queue :: "'s Queue"
  b_drivers :: "'s Repository"
  b_engine :: "'s Client"
  map_order :: "(string \<times> DriverLocation) list \<Rightarrow> (string \<times> DriverLocation) list"
  prom :: "(string \<times> string list \<times> rat) list \<Rightarrow> 's \<Rightarrow> 's"
  pause :: "duration \<Rightarrow> 's \<Rightarrow> 's"

definition DefaultConfig :: "('s \<Rightarrow> gotime) \<Rightarrow> 's Config" where
  "DefaultConfig now =
     \<lparr>Window = 3 * second, MaxBatchSize = 500, SearchRadiusMeters = Fin 5000,
      cfg_MaxCandidatesPerRider = 8, cfg_CostMetric = COST_METRIC_EUCLIDEAN, RoadGraphID = [],
      SolveTimeout = 2 * second, ReclaimEvery = 30 * second, ReclaimMinIdle = 60 * second,
      MaxMatchAttempts = 20, TenantLabel = [], OnBatch = None, Now = now\<rparr>"

text \<open>\<open>c.SearchRadiusMeters <= 0\<close> on a \<open>float64\<close>.\<close>

definition f_nonpos :: "float64 \<Rightarrow> bool" where
  "f_nonpos x \<longleftrightarrow> \<not> f_less (Fin 0) x \<and> \<not> is_nan x"

definition applyDefaults :: "'s Config \<Rightarrow> 's Config" where
  "applyDefaults c =
     (let d = DefaultConfig (Now c) in
      c\<lparr>Window := (if Window c \<le> 0 then Window d else Window c),
        MaxBatchSize := (if MaxBatchSize c \<le> 0 then MaxBatchSize d else MaxBatchSize c),
        SearchRadiusMeters := (if f_nonpos (SearchRadiusMeters c) then SearchRadiusMeters d else SearchRadiusMeters c),
        cfg_MaxCandidatesPerRider :=
          (if cfg_MaxCandidatesPerRider c < 0 then cfg_MaxCandidatesPerRider d else cfg_MaxCandidatesPerRider c),
        SolveTimeout := (if SolveTimeout c \<le> 0 then SolveTimeout d else SolveTimeout c),
        ReclaimEvery := (if ReclaimEvery c \<le> 0 then ReclaimEvery d else ReclaimEvery c),
        ReclaimMinIdle := (if ReclaimMinIdle c \<le> 0 then ReclaimMinIdle d else ReclaimMinIdle c),
        MaxMatchAttempts := (if MaxMatchAttempts c \<le> 0 then MaxMatchAttempts d else MaxMatchAttempts c)\<rparr>)"

text \<open>\<open>dur\<close> prints a \<open>time.Duration\<close> (\<open>%v\<close>); \<open>env\<close> supplies the map order, the metrics sink and
  the wait, which in Go are the runtime's and the package's.\<close>

definition New ::
  "(duration \<Rightarrow> string) \<Rightarrow> 's Batcher \<Rightarrow> 's Queue option \<Rightarrow> 's Repository option \<Rightarrow> 's Client option \<Rightarrow>
   's Config \<Rightarrow> goerr + 's Batcher" where
  "New dur env q drivers eng cfg0 =
     (case (q, drivers, eng) of
        (None, _, _) \<Rightarrow> Inl (Errorf ''batcher: queue must not be nil'')
      | (_, None, _) \<Rightarrow> Inl (Errorf ''batcher: driver store must not be nil'')
      | (_, _, None) \<Rightarrow> Inl (Errorf ''batcher: engine client must not be nil'')
      | (Some qu, Some dr, Some en) \<Rightarrow>
          let cfg = applyDefaults cfg0 in
          if Window cfg \<le> SolveTimeout cfg
          then Inl (Errorf (''batcher: SolveTimeout ('' @ dur (SolveTimeout cfg) @
                 '') must be shorter than Window ('' @ dur (Window cfg) @ '')''))
          else if cfg_CostMetric cfg = COST_METRIC_TRAVEL_TIME \<and> RoadGraphID cfg = []
          then Inl (Errorf ''batcher: RoadGraphID is required for TRAVEL_TIME pricing'')
          else Inr (env\<lparr>b_cfg := cfg, b_queue := qu, b_drivers := dr, b_engine := en\<rparr>))"

section \<open>The median wait\<close>

text \<open>The insertion sort of \<open>medianWait\<close>: \<open>sift_down\<close> is its inner loop, which swaps \<open>waits[j]\<close>
  towards the front.\<close>

fun sift_down :: "duration list \<Rightarrow> nat \<Rightarrow> duration list" where
  "sift_down waits 0 = waits"
| "sift_down waits (Suc j) =
     (if waits ! Suc j < waits ! j
      then sift_down (waits[Suc j := waits ! j, j := waits ! Suc j]) j
      else waits)"

definition insertion_sort :: "duration list \<Rightarrow> duration list" where
  "insertion_sort waits = fold (\<lambda>i w. sift_down w i) [1..<length waits] waits"

definition waits_of :: "Message list \<Rightarrow> gotime \<Rightarrow> duration list" where
  "waits_of msgs now =
     map (\<lambda>m. time_sub now (RequestedAt (Request m)))
       (filter (\<lambda>m. \<not> is_zero (RequestedAt (Request m))) msgs)"

definition medianWait :: "Message list \<Rightarrow> gotime \<Rightarrow> duration" where
  "medianWait msgs now =
     (let waits = waits_of msgs now in
      if waits = [] then 0 else insertion_sort waits ! (length waits div 2))"

section \<open>Reporting\<close>

definition cost_metric_string :: "CostMetric \<Rightarrow> string" where
  "cost_metric_string c = (case c of
     COST_METRIC_UNSPECIFIED \<Rightarrow> ''COST_METRIC_UNSPECIFIED''
   | COST_METRIC_EUCLIDEAN \<Rightarrow> ''COST_METRIC_EUCLIDEAN''
   | COST_METRIC_TRAVEL_TIME \<Rightarrow> ''COST_METRIC_TRAVEL_TIME'')"

text \<open>The samples: metric, label values, value (the increment or the observation).\<close>

definition samples :: "'s Config \<Rightarrow> BatchMetrics \<Rightarrow> (string \<times> string list \<times> rat) list" where
  "samples cfg m =
     (let tenant = (if TenantLabel cfg = [] then ''default'' else TenantLabel cfg) in
      [(''BatchesTotal'', [tenant, reason_string (bm_Reason m)], 1),
       (''BatchSize'', [tenant], of_int (bm_Riders m)),
       (''SolveSeconds'', [tenant, cost_metric_string (cfg_CostMetric cfg)], of_int (bm_SolveDuration m) / of_int second),
       (''RidersTotal'', [tenant, ''matched''], of_int (bm_Matched m)),
       (''RidersTotal'', [tenant, ''requeued''], of_int (bm_Requeued m)),
       (''RidersTotal'', [tenant, ''exhausted''], of_int (bm_Exhausted m)),
       (''RidersTotal'', [tenant, ''dead_lettered''], of_int (bm_DeadLettered m))] @
      (if bm_QueueWaitP50 m > 0
       then [(''MatchLatencySeconds'', [tenant], of_int (bm_QueueWaitP50 m) / of_int second)] else []) @
      (case bm_Err m of
         None \<Rightarrow> []
       | Some e \<Rightarrow> [(''DependencyErrorsTotal'', [''engine'', if Retryable (Some e) then ''true'' else ''false''], 1)]))"

definition finish_metrics :: "'s Batcher \<Rightarrow> BatchMetrics \<Rightarrow> gotime \<Rightarrow> 's \<Rightarrow> BatchMetrics" where
  "finish_metrics b m started s =
     (let m1 = m\<lparr>bm_TotalDuration := time_sub (Now (b_cfg b) s) started\<rparr>
      in if bm_Riders m1 > 0
         then m1\<lparr>bm_MatchRate := of_int (bm_Matched m1) / of_int (bm_Riders m1)\<rparr> else m1)"

definition emit :: "'s Batcher \<Rightarrow> BatchMetrics \<Rightarrow> gotime \<Rightarrow> 's \<Rightarrow> 's" where
  "emit b m0 started s =
     (let m = finish_metrics b m0 started s;
          s1 = prom b (samples (b_cfg b) m) s
      in case OnBatch (b_cfg b) of None \<Rightarrow> s1 | Some f \<Rightarrow> f m s1)"

section \<open>One batch\<close>

definition batch_queries :: "'s Config \<Rightarrow> Message list \<Rightarrow> Query list" where
  "batch_queries cfg msgs =
     map (\<lambda>m. \<lparr>q_Lat = Lat (Request m), q_Lng = Lng (Request m), q_Radius = SearchRadiusMeters cfg,
               q_Limit = wrap64 (cfg_MaxCandidatesPerRider cfg * 4)\<rparr>) msgs"

definition driver_set :: "DriverLocation list list \<Rightarrow> (string \<times> DriverLocation) list" where
  "driver_set results = fold (\<lambda>d m. assoc_put (DriverID d) d m) (concat results) []"

definition batch_request ::
  "'s Batcher \<Rightarrow> string \<Rightarrow> Message list \<Rightarrow> (string \<times> DriverLocation) list \<Rightarrow> MatchBatchRequest" where
  "batch_request b batchID msgs drivers =
     \<lparr>TenantId = TenantID (Request (hd msgs)), BatchId = batchID,
      Riders = map (\<lambda>m. \<lparr>rider_Id = RequestID (Request m),
                         rider_Pickup = \<lparr>ll_lat = Lat (Request m), ll_lng = Lng (Request m)\<rparr>\<rparr>) msgs,
      CandidateDrivers = map (\<lambda>(_, d). \<lparr>driver_Id = DriverID d,
                         driver_Location = \<lparr>ll_lat = dl_Lat d, ll_lng = dl_Lng d\<rparr>\<rparr>) (map_order b drivers),
      req_CostMetric = cfg_CostMetric (b_cfg b), RoadGraphId = RoadGraphID (b_cfg b),
      MaxCandidatesPerRider = to_int32 (cfg_MaxCandidatesPerRider (b_cfg b))\<rparr>"

fun dead_letter_all :: "'s Queue \<Rightarrow> string \<Rightarrow> Message list \<Rightarrow> 's \<Rightarrow> 's" where
  "dead_letter_all Q why [] s = s"
| "dead_letter_all Q why (m # ms) s = dead_letter_all Q why ms (fst (DeadLetter Q m why s))"

text \<open>The settle loop: the ids to acknowledge, and how many messages were requeued and exhausted.\<close>

fun settle_loop ::
  "'s Queue \<Rightarrow> int \<Rightarrow> string set \<Rightarrow> Message list \<Rightarrow> 's \<Rightarrow> 's \<times> string list \<times> int \<times> int" where
  "settle_loop Q attempts matched [] s = (s, [], 0, 0)"
| "settle_loop Q attempts matched (m # ms) s =
     (if RequestID (Request m) \<in> matched
      then (let (s1, acks, rq, ex) = settle_loop Q attempts matched ms s in (s1, ID m # acks, rq, ex))
      else if attempts \<le> wrap64 (MatchAttempts (Request m) + 1)
      then (let (s0, err) = DeadLetter Q m
                  (''no driver found after '' @ format_int (wrap64 (MatchAttempts (Request m) + 1)) @ '' match attempts'') s;
                (s1, acks, rq, ex) = settle_loop Q attempts matched ms s0
            in (s1, acks, rq, case err of None \<Rightarrow> ex + 1 | Some _ \<Rightarrow> ex))
      else (let (s0, err) = Republish Q m s;
                (s1, acks, rq, ex) = settle_loop Q attempts matched ms s0
            in (s1, acks, rq + 1, ex)))"

definition matched_set :: "MatchBatchResponse option \<Rightarrow> string set" where
  "matched_set resp = (case resp of None \<Rightarrow> {} | Some r \<Rightarrow> set (map RiderId (Matches r)))"

definition ack_all :: "'s Queue \<Rightarrow> string list \<Rightarrow> 's \<Rightarrow> 's \<times> goerr option" where
  "ack_all Q ids s = (if ids \<noteq> [] then Ack Q ids s else (s, None))"

definition new_metrics :: "string \<Rightarrow> FlushReason \<Rightarrow> int \<Rightarrow> duration \<Rightarrow> BatchMetrics" where
  "new_metrics batchID reason riders wait =
     \<lparr>bm_BatchID = batchID, bm_Reason = reason, bm_Riders = riders, bm_Drivers = 0, bm_Matched = 0,
      bm_Unmatched = 0, bm_Requeued = 0, bm_Exhausted = 0, bm_DeadLettered = 0, bm_QueueWaitP50 = wait,
      bm_SolveDuration = 0, bm_TotalDuration = 0, bm_Err = None, bm_MatchRate = 0\<rparr>"

text \<open>The part of \<open>processBatch\<close> after the engine's answer.\<close>

definition settle_batch ::
  "'s Batcher \<Rightarrow> Message list \<Rightarrow> MatchBatchResponse option \<Rightarrow> BatchMetrics \<Rightarrow> gotime \<Rightarrow> 's \<times> Stats \<Rightarrow> 's \<times> Stats" where
  "settle_batch b msgs resp metrics started w =
     (let (s, st) = w;
          matched = matched_set resp;
          (s1, ackIDs, requeue, exhausted) = settle_loop (b_queue b) (MaxMatchAttempts (b_cfg b)) matched msgs s;
          (s2, err) = ack_all (b_queue b) ackIDs s1;
          n = int (card matched);
          metrics' = metrics\<lparr>bm_Err := (case err of Some _ \<Rightarrow> err | None \<Rightarrow> bm_Err metrics),
                       bm_Matched := n, bm_Unmatched := requeue + exhausted,
                       bm_Requeued := requeue, bm_Exhausted := exhausted\<rparr>
      in (emit b metrics' started s2,
          st\<lparr>st_Matched := wrap64 (st_Matched st + n), st_Unmatched := wrap64 (st_Unmatched st + (requeue + exhausted)),
             st_Requeued := wrap64 (st_Requeued st + requeue), st_Exhausted := wrap64 (st_Exhausted st + exhausted)\<rparr>))"

text \<open>The part after the candidate drivers are known.\<close>

definition solve_batch ::
  "'s Batcher \<Rightarrow> ctx \<Rightarrow> string \<Rightarrow> Message list \<Rightarrow> (string \<times> DriverLocation) list \<Rightarrow> BatchMetrics \<Rightarrow> gotime \<Rightarrow>
   's \<times> Stats \<Rightarrow> 's \<times> Stats" where
  "solve_batch b ctx batchID msgs drivers metrics started w =
     (let (s, st) = w;
          solveStart = api_now (ec_api (b_engine b)) s;
          (s1, r) = SolveBatch (b_engine b)
                      (with_timeout solveStart (SolveTimeout (b_cfg b)) ctx)
                      (Some (batch_request b batchID msgs drivers)) s;
          metrics1 = metrics\<lparr>bm_SolveDuration := time_sub (api_now (ec_api (b_engine b)) s1) solveStart\<rparr>;
          n = int (length msgs)
      in case r of
           Inr resp \<Rightarrow> settle_batch b msgs resp metrics1 started (s1, st)
         | Inl err \<Rightarrow>
             let st1 = st\<lparr>st_SolveErrors := wrap64 (st_SolveErrors st + 1)\<rparr>;
                 metrics2 = metrics1\<lparr>bm_Err := Some err\<rparr>
             in if Retryable (Some err)
                then (emit b (metrics2\<lparr>bm_Requeued := n\<rparr>) started s1,
                      st1\<lparr>st_Requeued := wrap64 (st_Requeued st1 + n)\<rparr>)
                else let s2 = dead_letter_all (b_queue b) (error_text err) msgs s1
                     in (emit b (metrics2\<lparr>bm_DeadLettered := n\<rparr>) started s2,
                         st1\<lparr>st_DeadLettered := wrap64 (st_DeadLettered st1 + n)\<rparr>))"

definition processBatch ::
  "'s Batcher \<Rightarrow> ctx \<Rightarrow> Message list \<Rightarrow> FlushReason \<Rightarrow> 's \<times> Stats \<Rightarrow> 's \<times> Stats" where
  "processBatch b ctx msgs reason w =
     (if msgs = [] then w
      else
        let (s, st0) = w;
            started = Now (b_cfg b) s;
            batchID = ''batch-'' @ format_int (wrap64 started);
            n = int (length msgs);
            st = st0\<lparr>st_Batches := wrap64 (st_Batches st0 + 1), st_Requests := wrap64 (st_Requests st0 + n)\<rparr>;
            metrics = new_metrics batchID reason n (medianWait msgs started);
            (s1, results) = repo_NearbyMany (b_drivers b) (batch_queries (b_cfg b) msgs) s
        in case results of
             Inl err \<Rightarrow>
               (emit b (metrics\<lparr>bm_Err := Some err, bm_Requeued := n\<rparr>) started s1,
                st\<lparr>st_Requeued := wrap64 (st_Requeued st + n)\<rparr>)
           | Inr near \<Rightarrow>
               let drivers = driver_set near;
                   metrics1 = metrics\<lparr>bm_Drivers := int (length drivers)\<rparr>
               in if drivers = []
                  then (emit b (metrics1\<lparr>bm_Requeued := n\<rparr>) started s1,
                        st\<lparr>st_Requeued := wrap64 (st_Requeued st + n)\<rparr>)
                  else solve_batch b ctx batchID msgs drivers metrics1 started (s1, st))"

text \<open>One tick of the reclaimer.\<close>

definition reclaim_tick :: "'s Batcher \<Rightarrow> ctx \<Rightarrow> 's \<times> Stats \<Rightarrow> 's \<times> Stats" where
  "reclaim_tick b ctx w =
     (let (s, st) = w;
          (s1, msgs, err) = Reclaim (b_queue b) (ReclaimMinIdle (b_cfg b)) (MaxBatchSize (b_cfg b)) s
      in if err \<noteq> None then (s1, st)
         else if msgs = [] then (s1, st)
         else processBatch b ctx msgs FlushTimer (s1, st))"

section \<open>The main loop\<close>

text \<open>
  \<open>Run\<close> as a step relation on its local variables and the world. The label is what the iteration
  consumed and the batch it handed to \<open>processBatch\<close>. \<open>done_ctx s\<close> is \<open>ctx.Err() \<noteq> nil\<close>; the timer
  is ready once its deadline has passed. Of several ready cases of the \<open>select\<close> any may be taken,
  and \<open>default\<close> only when none is ready.
\<close>

record 's loop =
  lp_world :: "'s \<times> Stats"
  lp_pending :: "Message list"
  lp_windowStart :: gotime
  lp_timer :: gotime
  lp_returned :: bool

text \<open>The runtime's clock, which timers and deadlines use; \<open>cfg.Now\<close> is \<open>loop_now\<close>.\<close>

definition wall :: "'s Batcher \<Rightarrow> 's \<Rightarrow> gotime" where
  "wall b s = api_now (ec_api (b_engine b)) s"

definition loop_start :: "'s Batcher \<Rightarrow> 's \<Rightarrow> 's loop" where
  "loop_start b s =
     \<lparr>lp_world = (s, \<lparr>st_Batches = 0, st_Requests = 0, st_Matched = 0, st_Unmatched = 0, st_Requeued = 0,
                     st_Exhausted = 0, st_DeadLettered = 0, st_SolveErrors = 0\<rparr>),
      lp_pending = [], lp_windowStart = Now (b_cfg b) s, lp_timer = wall b s + Window (b_cfg b),
      lp_returned = False\<rparr>"

definition loop_now :: "'s Batcher \<Rightarrow> 's \<times> Stats \<Rightarrow> gotime" where
  "loop_now b w = Now (b_cfg b) (fst w)"

text \<open>After a flush: an empty batch, a new window and a reset timer.\<close>

definition new_window :: "'s Batcher \<Rightarrow> 's \<times> Stats \<Rightarrow> 's loop \<Rightarrow> 's loop" where
  "new_window b w l =
     l\<lparr>lp_world := w, lp_pending := [], lp_windowStart := loop_now b w,
       lp_timer := wall b (fst w) + Window (b_cfg b)\<rparr>"

definition loop_shutdown :: "'s Batcher \<Rightarrow> 's loop \<Rightarrow> 's loop \<times> Message list" where
  "loop_shutdown b l =
     (if lp_pending l = [] then (l\<lparr>lp_returned := True\<rparr>, [])
      else (l\<lparr>lp_world := processBatch b (with_timeout (wall b (fst (lp_world l))) (SolveTimeout (b_cfg b)) None)
                 (lp_pending l) FlushShutdown (lp_world l),
              lp_pending := [], lp_returned := True\<rparr>, lp_pending l))"

definition loop_timer :: "'s Batcher \<Rightarrow> ctx \<Rightarrow> 's loop \<Rightarrow> 's loop \<times> Message list" where
  "loop_timer b ctx l =
     (new_window b (if lp_pending l = [] then lp_world l
                    else processBatch b ctx (lp_pending l) FlushTimer (lp_world l)) l,
      lp_pending l)"

definition loop_default ::
  "'s Batcher \<Rightarrow> ctx \<Rightarrow> ('s \<Rightarrow> bool) \<Rightarrow> 's loop \<Rightarrow> 's loop \<times> Message list \<times> Message list" where
  "loop_default b ctx done_ctx l =
     (let (s, st) = lp_world l;
          cfg = b_cfg b;
          remaining0 = Window cfg - time_sub (Now cfg s) (lp_windowStart l);
          remaining = (if remaining0 \<le> 0 then millisecond else remaining0);
          room = MaxBatchSize cfg - int (length (lp_pending l));
          (s1, r) = Consume (b_queue b) room remaining s
      in case r of
           Inl e \<Rightarrow>
             (if done_ctx s1 then (l\<lparr>lp_world := (s1, st)\<rparr>, [], [])
              else (l\<lparr>lp_world := (pause b (100 * millisecond) s1, st)\<rparr>, [], []))
         | Inr msgs \<Rightarrow>
             let pending = lp_pending l @ msgs in
             if MaxBatchSize cfg \<le> int (length pending)
             then (new_window b (processBatch b ctx pending FlushFull (s1, st)) l, msgs, pending)
             else if pending \<noteq> [] \<and> Window cfg \<le> time_sub (Now cfg s1) (lp_windowStart l)
             then (new_window b (processBatch b ctx pending FlushTimer (s1, st)) l, msgs, pending)
             else (l\<lparr>lp_world := (s1, st), lp_pending := pending\<rparr>, msgs, []))"

inductive run_step ::
  "'s Batcher \<Rightarrow> ctx \<Rightarrow> ('s \<Rightarrow> bool) \<Rightarrow> 's loop \<Rightarrow> Message list \<times> Message list \<Rightarrow> 's loop \<Rightarrow> bool"
  for b ctx done_ctx where
    cancelled: "\<not> lp_returned l \<Longrightarrow> done_ctx (fst (lp_world l)) \<Longrightarrow> loop_shutdown b l = (l', batch) \<Longrightarrow>
      run_step b ctx done_ctx l ([], batch) l'"
  | ticked: "\<not> lp_returned l \<Longrightarrow> lp_timer l \<le> wall b (fst (lp_world l)) \<Longrightarrow> loop_timer b ctx l = (l', batch) \<Longrightarrow>
      run_step b ctx done_ctx l ([], batch) l'"
  | polled: "\<not> lp_returned l \<Longrightarrow> \<not> done_ctx (fst (lp_world l)) \<Longrightarrow> wall b (fst (lp_world l)) < lp_timer l \<Longrightarrow>
      loop_default b ctx done_ctx l = (l', msgs, batch) \<Longrightarrow> run_step b ctx done_ctx l (msgs, batch) l'"

inductive run_steps ::
  "'s Batcher \<Rightarrow> ctx \<Rightarrow> ('s \<Rightarrow> bool) \<Rightarrow> 's loop \<Rightarrow> (Message list \<times> Message list) list \<Rightarrow> 's loop \<Rightarrow> bool"
  for b ctx done_ctx where
    run_nil: "run_steps b ctx done_ctx l [] l"
  | run_snoc: "run_steps b ctx done_ctx l tr l1 \<Longrightarrow> run_step b ctx done_ctx l1 x l2 \<Longrightarrow>
      run_steps b ctx done_ctx l (tr @ [x]) l2"

end
