(* ===== verification/Ingest.thy ===== *)
theory Ingest
  imports Auth "HOL-Library.Multiset"
begin

text \<open>
  \<open>internal/ingest\<close>: the WebSocket server for driver positions. The counters are a record with the
  atomic operations that the handler composes. The whole handler in one go is \<open>Handler\<close>; the
  concurrent server is the step relation \<open>ingest_step\<close>, in which every request and every
  connection is a thread that takes its atomic actions in any interleaving with the others, and a
  connection consists of the two pumps that its context couples. The WebSocket library (upgrade,
  reading, writing) is the choice of the steps; \<open>json.Unmarshal\<close> is a parameter of the frame
  handler. Heartbeats that succeed change no state and have no step.
\<close>

section \<open>Pings and configuration\<close>

record Ping =
  pg_TenantID :: string
  pg_DriverID :: string
  pg_Lat :: float64
  pg_Lng :: float64
  pg_SentAtUnixMs :: int

type_synonym 's Sink = "Ping \<Rightarrow> 's \<Rightarrow> 's \<times> goerr option"

record 's IngestConfig =
  ic_MaxConnections :: int
  ic_MaxMessageBytes :: int
  ic_PongWait :: duration
  ic_PingInterval :: duration
  ic_WriteWait :: duration
  ic_Keys :: "'s KeyStore option"
  ic_AllowedOrigins :: "string list"
  ic_TenantID :: string
  ic_Now :: "'s \<Rightarrow> gotime"

definition IngestDefaultConfig :: "('s \<Rightarrow> gotime) \<Rightarrow> 's IngestConfig" where
  "IngestDefaultConfig now =
     \<lparr>ic_MaxConnections = 10000, ic_MaxMessageBytes = 4096, ic_PongWait = 60 * second,
      ic_PingInterval = 54 * second, ic_WriteWait = 10 * second, ic_Keys = None, ic_AllowedOrigins = [],
      ic_TenantID = [], ic_Now = now\<rparr>"

text \<open>The default interval is computed from the configured wait, in 64-bit arithmetic.\<close>

definition ingest_applyDefaults :: "'s IngestConfig \<Rightarrow> 's IngestConfig" where
  "ingest_applyDefaults c =
     (let d = IngestDefaultConfig (ic_Now c);
          c = (if ic_MaxConnections c \<le> 0 then c\<lparr>ic_MaxConnections := ic_MaxConnections d\<rparr> else c);
          c = (if ic_MaxMessageBytes c \<le> 0 then c\<lparr>ic_MaxMessageBytes := ic_MaxMessageBytes d\<rparr> else c);
          c = (if ic_PongWait c \<le> 0 then c\<lparr>ic_PongWait := ic_PongWait d\<rparr> else c);
          c = (if ic_PingInterval c \<le> 0 then c\<lparr>ic_PingInterval := go_div (wrap64 (ic_PongWait c * 9)) 10\<rparr> else c);
          c = (if ic_WriteWait c \<le> 0 then c\<lparr>ic_WriteWait := ic_WriteWait d\<rparr> else c);
          c = (if ic_TenantID c = [] then c\<lparr>ic_TenantID := ''default''\<rparr> else c)
      in c)"

definition originChecker :: "string list \<Rightarrow> request \<Rightarrow> bool" where
  "originChecker allowed r =
     (let allowlist = filter (\<lambda>o'. o' \<noteq> []) (map trim_space allowed);
          origin = header_get (hr_Header r) ''Origin''
      in if origin = [] then True else origin \<in> set allowlist)"

definition ingest_validate :: "(float64 \<Rightarrow> string) \<Rightarrow> Ping \<Rightarrow> goerr option" where
  "ingest_validate ftoa p =
     (if pg_DriverID p = [] then Some (Errorf ''empty driver_id'')
      else if 128 < length (pg_DriverID p) then Some (Errorf ''driver_id too long'')
      else if out_of_range (- 90) 90 (pg_Lat p) \<or> out_of_range (- 180) 180 (pg_Lng p)
      then Some (Errorf (''coordinates out of range: '' @ ftoa (pg_Lat p) @ '', '' @ ftoa (pg_Lng p)))
      else None)"

section \<open>The server's counters\<close>

record Server =
  sv_active :: int
  sv_total :: int
  sv_rejected :: int
  sv_pings :: int
  sv_pingsBad :: int
  sv_wg :: int
  sv_closed :: bool

definition new_server :: Server where
  "new_server = \<lparr>sv_active = 0, sv_total = 0, sv_rejected = 0, sv_pings = 0, sv_pingsBad = 0,
     sv_wg = 0, sv_closed = False\<rparr>"

record IngestStats =
  ActiveConnections :: int
  TotalConnections :: int
  RejectedConnections :: int
  PingsReceived :: int
  PingsRejected :: int

definition ingest_Stats :: "Server \<Rightarrow> IngestStats" where
  "ingest_Stats sv = \<lparr>ActiveConnections = sv_active sv, TotalConnections = sv_total sv,
     RejectedConnections = sv_rejected sv, PingsReceived = sv_pings sv, PingsRejected = sv_pingsBad sv\<rparr>"

definition admit :: "Server \<Rightarrow> Server \<times> bool" where
  "admit sv = (if sv_closed sv then (sv, False) else (sv\<lparr>sv_wg := sv_wg sv + 1\<rparr>, True))"

definition wg_done :: "Server \<Rightarrow> Server" where
  "wg_done sv = sv\<lparr>sv_wg := sv_wg sv - 1\<rparr>"

definition free_slot :: "Server \<Rightarrow> Server" where
  "free_slot sv = sv\<lparr>sv_active := sv_active sv - 1\<rparr>"

definition reject :: "Server \<Rightarrow> Server" where
  "reject sv = sv\<lparr>sv_rejected := sv_rejected sv + 1\<rparr>"

text \<open>\<open>activeConns.Add(1)\<close> and the comparison of its result.\<close>

definition reserve :: "'s IngestConfig \<Rightarrow> Server \<Rightarrow> Server \<times> bool" where
  "reserve cfg sv =
     (let n = sv_active sv + 1 in (sv\<lparr>sv_active := n\<rparr>, n \<le> ic_MaxConnections cfg))"

definition connected :: "Server \<Rightarrow> Server" where
  "connected sv = sv\<lparr>sv_total := sv_total sv + 1, sv_wg := sv_wg sv + 1\<rparr>"

section \<open>The handler\<close>

text \<open>The authentication before the upgrade: the tenant of the connection, or the refusal.\<close>

definition stream_tenant :: "'s IngestConfig \<Rightarrow> request \<Rightarrow> response \<Rightarrow> 's \<Rightarrow> 's \<times> (response + string)" where
  "stream_tenant cfg r w s =
     (case ic_Keys cfg of
        None \<Rightarrow> (s, Inr (ic_TenantID cfg))
      | Some keys \<Rightarrow>
          let raw = WebSocketKey r in
          if raw = [] then (s, Inl (http_Error w ''an API key is required'' 401))
          else
            let (s1, key, err) = Verify keys raw (ic_Now cfg s) s
            in case err of
                 Some e \<Rightarrow>
                   (s1, Inl (if errors_is e ErrRateLimited
                             then http_Error (set_header ''Retry-After'' ''60'' w) ''rate limit exceeded'' 429
                             else if errors_is e ErrInvalidKey then http_Error w ''invalid API key'' 401
                             else http_Error w ''cannot verify credentials'' 503))
               | None \<Rightarrow> (s1, case key of Some k \<Rightarrow> Inr (ak_TenantID k) | None \<Rightarrow> Inr []))"

text \<open>The handler alone, with the upgrade as a parameter: its response, and the tenant of the
  connection it started. \<open>go s.serve\<close> is the result.\<close>

definition Handler ::
  "'s IngestConfig \<Rightarrow> (request \<Rightarrow> response \<Rightarrow> response + unit) \<Rightarrow> request \<Rightarrow> response \<Rightarrow> Server \<Rightarrow> 's \<Rightarrow>
     Server \<times> 's \<times> (response + string)" where
  "Handler cfg upgrade r w sv s =
     (let (sv1, ok) = admit sv in
      if \<not> ok then (sv1, s, Inl (http_Error w ''server shutting down'' 503))
      else
        let (sv2, fits) = reserve cfg sv1 in
        if \<not> fits then
          (wg_done (reject (free_slot sv2)), s,
           Inl (http_Error (set_header ''Retry-After'' ''5'' w) ''connection limit reached'' 503))
        else
          let (s1, t) = stream_tenant cfg r w s in
          case t of
            Inl w1 \<Rightarrow> (wg_done (reject (free_slot sv2)), s1, Inl w1)
          | Inr tenant \<Rightarrow>
              (case upgrade r w of
                 Inl w1 \<Rightarrow> (wg_done (free_slot sv2), s1, Inl w1)
               | Inr _ \<Rightarrow> (wg_done (connected sv2), s1, Inr tenant)))"

section \<open>One frame\<close>

text \<open>What \<open>readPump\<close> does with a text or binary frame. A missing sink drops the ping; an error of
  the sink is only logged. The last component tells whether the loop went on to look at its
  context: after a bad frame it continues at once.\<close>

definition read_frame ::
  "(string \<Rightarrow> Ping option) \<Rightarrow> (float64 \<Rightarrow> string) \<Rightarrow> 's Sink option \<Rightarrow> string \<Rightarrow> string \<Rightarrow> Server \<Rightarrow> 's \<Rightarrow>
     Server \<times> 's \<times> bool" where
  "read_frame unmarshal ftoa sink tenantID data sv s =
     (case unmarshal data of
        None \<Rightarrow> (sv\<lparr>sv_pingsBad := sv_pingsBad sv + 1\<rparr>, s, False)
      | Some p0 \<Rightarrow>
          if ingest_validate ftoa p0 \<noteq> None then (sv\<lparr>sv_pingsBad := sv_pingsBad sv + 1\<rparr>, s, False)
          else
            let p = p0\<lparr>pg_TenantID := tenantID\<rparr>; sv1 = sv\<lparr>sv_pings := sv_pings sv + 1\<rparr>
            in case sink of None \<Rightarrow> (sv1, s, True) | Some accept \<Rightarrow> (sv1, fst (accept p s), True))"

section \<open>The concurrent server\<close>

text \<open>
  A thread: a request that was admitted, one over the limit, one with a slot, one that
  authenticated, a handler on its way out, or a connection: its tenant, whether the handler still
  holds its own token, whether the context is cancelled, and whether each pump runs.
\<close>

datatype phase =
    Admitted request
  | Overflowed
  | Reserved request
  | Upgrading string
  | Leaving
  | Conn string bool bool bool bool

record 's ingest_state =
  is_server :: Server
  is_world :: 's
  is_threads :: "phase multiset"

text \<open>\<open>Lifecycle\<close> steps are the server's own, the others are choices of its clients and its owner:
  \<open>Peer\<close> is a connection whose read or write fails.\<close>

datatype ingest_event = Lifecycle | Arrival | FrameRead | Peer | ShutdownCalled

text \<open>The deferred calls of \<open>serve\<close> when both pumps have ended.\<close>

definition serve_end :: "Server \<Rightarrow> Server" where
  "serve_end sv = wg_done (free_slot sv)"

definition Shutdown_begin :: "Server \<Rightarrow> Server" where
  "Shutdown_begin sv = sv\<lparr>sv_closed := True\<rparr>"

text \<open>\<open>Shutdown\<close> returns \<open>nil\<close> when the wait group is empty, or the error of its own context.\<close>

definition Shutdown_result :: "goerr option \<Rightarrow> Server \<Rightarrow> goerr option option" where
  "Shutdown_result expired sv =
     (if sv_wg sv = 0 then Some None
      else case expired of
             None \<Rightarrow> None
           | Some e \<Rightarrow> Some (Some (Wrapf (''shutdown timed out with '' @ format_int (sv_active sv) @
                                         '' connections still active: '') e [])))"

inductive ingest_step ::
  "'s IngestConfig \<Rightarrow> (string \<Rightarrow> Ping option) \<Rightarrow> (float64 \<Rightarrow> string) \<Rightarrow> 's Sink option \<Rightarrow>
     ingest_event \<Rightarrow> 's ingest_state \<Rightarrow> 's ingest_state \<Rightarrow> bool" for cfg unmarshal ftoa sink where
    arrives: "admit sv = (sv', True) \<Longrightarrow>
      ingest_step cfg unmarshal ftoa sink Arrival \<lparr>is_server = sv, is_world = s, is_threads = T\<rparr>
        \<lparr>is_server = sv', is_world = s, is_threads = add_mset (Admitted r) T\<rparr>"
  | reserves: "reserve cfg sv = (sv', fits) \<Longrightarrow>
      ingest_step cfg unmarshal ftoa sink Lifecycle \<lparr>is_server = sv, is_world = s, is_threads = add_mset (Admitted r) T\<rparr>
        \<lparr>is_server = sv', is_world = s, is_threads = add_mset (if fits then Reserved r else Overflowed) T\<rparr>"
  | overflows:
      "ingest_step cfg unmarshal ftoa sink Lifecycle \<lparr>is_server = sv, is_world = s, is_threads = add_mset Overflowed T\<rparr>
        \<lparr>is_server = reject (free_slot sv), is_world = s, is_threads = add_mset Leaving T\<rparr>"
  | refuses: "stream_tenant cfg r w s = (s', Inl w') \<Longrightarrow>
      ingest_step cfg unmarshal ftoa sink Lifecycle \<lparr>is_server = sv, is_world = s, is_threads = add_mset (Reserved r) T\<rparr>
        \<lparr>is_server = reject (free_slot sv), is_world = s', is_threads = add_mset Leaving T\<rparr>"
  | authenticates: "stream_tenant cfg r w s = (s', Inr tenant) \<Longrightarrow>
      ingest_step cfg unmarshal ftoa sink Lifecycle \<lparr>is_server = sv, is_world = s, is_threads = add_mset (Reserved r) T\<rparr>
        \<lparr>is_server = sv, is_world = s', is_threads = add_mset (Upgrading tenant) T\<rparr>"
  | upgrade_fails:
      "ingest_step cfg unmarshal ftoa sink Lifecycle \<lparr>is_server = sv, is_world = s, is_threads = add_mset (Upgrading t) T\<rparr>
        \<lparr>is_server = free_slot sv, is_world = s, is_threads = add_mset Leaving T\<rparr>"
  | upgrades:
      "ingest_step cfg unmarshal ftoa sink Lifecycle \<lparr>is_server = sv, is_world = s, is_threads = add_mset (Upgrading t) T\<rparr>
        \<lparr>is_server = connected sv, is_world = s, is_threads = add_mset (Conn t True False True True) T\<rparr>"
  | leaves:
      "ingest_step cfg unmarshal ftoa sink Lifecycle \<lparr>is_server = sv, is_world = s, is_threads = add_mset Leaving T\<rparr>
        \<lparr>is_server = wg_done sv, is_world = s, is_threads = T\<rparr>"
  | handler_returns:
      "ingest_step cfg unmarshal ftoa sink Lifecycle \<lparr>is_server = sv, is_world = s, is_threads = add_mset (Conn t True c w r) T\<rparr>
        \<lparr>is_server = wg_done sv, is_world = s, is_threads = add_mset (Conn t False c w r) T\<rparr>"
  | frame: "read_frame unmarshal ftoa sink t data sv s = (sv', s', looked) \<Longrightarrow>
      ingest_step cfg unmarshal ftoa sink FrameRead \<lparr>is_server = sv, is_world = s, is_threads = add_mset (Conn t h c w True) T\<rparr>
        \<lparr>is_server = sv', is_world = s', is_threads = add_mset (Conn t h c w (\<not> (looked \<and> c))) T\<rparr>"
  | read_fails:
      "ingest_step cfg unmarshal ftoa sink Peer \<lparr>is_server = sv, is_world = s, is_threads = add_mset (Conn t h c w True) T\<rparr>
        \<lparr>is_server = sv, is_world = s, is_threads = add_mset (Conn t h True w False) T\<rparr>"
  | write_fails:
      "ingest_step cfg unmarshal ftoa sink Peer \<lparr>is_server = sv, is_world = s, is_threads = add_mset (Conn t h c True r) T\<rparr>
        \<lparr>is_server = sv, is_world = s, is_threads = add_mset (Conn t h True False r) T\<rparr>"
  | reader_unblocked:
      "ingest_step cfg unmarshal ftoa sink Lifecycle \<lparr>is_server = sv, is_world = s, is_threads = add_mset (Conn t h True w True) T\<rparr>
        \<lparr>is_server = sv, is_world = s, is_threads = add_mset (Conn t h True w False) T\<rparr>"
  | writer_ends: "c \<or> sv_closed sv \<Longrightarrow>
      ingest_step cfg unmarshal ftoa sink Lifecycle \<lparr>is_server = sv, is_world = s, is_threads = add_mset (Conn t h c True r) T\<rparr>
        \<lparr>is_server = sv, is_world = s, is_threads = add_mset (Conn t h True False r) T\<rparr>"
  | serve_ends:
      "ingest_step cfg unmarshal ftoa sink Lifecycle \<lparr>is_server = sv, is_world = s, is_threads = add_mset (Conn t h c False False) T\<rparr>
        \<lparr>is_server = serve_end sv, is_world = s, is_threads = (if h then add_mset Leaving T else T)\<rparr>"
  | shuts_down:
      "ingest_step cfg unmarshal ftoa sink ShutdownCalled \<lparr>is_server = sv, is_world = s, is_threads = T\<rparr>
        \<lparr>is_server = Shutdown_begin sv, is_world = s, is_threads = T\<rparr>"

end
