(* ===== verification/Pipeline.thy ===== *)
theory Pipeline
  imports Ingest Locations
begin

text \<open>
  \<open>internal/pipeline\<close>: the buffer between ingestion and the location store. The mutex makes \<open>Accept\<close>
  and the swap of the buffer atomic; the buffer is an association list keyed by tenant and driver.
  The order in which Go iterates over a map is unspecified, so the two iterations of a flush take
  the order as a parameter of the pipeline. The contexts of a flush bound the store's calls, whose
  errors are the store's results here.
\<close>

section \<open>Data\<close>

record WindowStats =
  ws_Window :: int
  ws_PingsAccepted :: int
  ws_PingsShed :: int
  ws_DriversFlushed :: int
  ws_FlushDuration :: duration
  ws_FlushError :: "goerr option"

record 's PipelineConfig =
  pc_Window :: duration
  pc_MaxBufferedDrivers :: int
  pc_FlushTimeout :: duration
  pc_OnWindow :: "(WindowStats \<Rightarrow> 's \<Rightarrow> 's) option"
  pc_Now :: "'s \<Rightarrow> gotime"

definition PipelineDefaultConfig :: "('s \<Rightarrow> gotime) \<Rightarrow> 's PipelineConfig" where
  "PipelineDefaultConfig now =
     \<lparr>pc_Window = 3 * second, pc_MaxBufferedDrivers = 100000, pc_FlushTimeout = 2 * second,
      pc_OnWindow = None, pc_Now = now\<rparr>"

definition pipeline_applyDefaults :: "'s PipelineConfig \<Rightarrow> 's PipelineConfig" where
  "pipeline_applyDefaults c =
     (let d = PipelineDefaultConfig (pc_Now c);
          c = (if pc_Window c \<le> 0 then c\<lparr>pc_Window := pc_Window d\<rparr> else c);
          c = (if pc_MaxBufferedDrivers c \<le> 0 then c\<lparr>pc_MaxBufferedDrivers := pc_MaxBufferedDrivers d\<rparr> else c);
          c = (if pc_FlushTimeout c \<le> 0 then c\<lparr>pc_FlushTimeout := pc_FlushTimeout d\<rparr> else c)
      in c)"

record PipelineStats =
  TotalPings :: int
  TotalShed :: int
  TotalFlushed :: int
  TotalWindows :: int
  FlushFailures :: int
  Buffered :: int

type_synonym buffer = "(string \<times> DriverLocation) list"

record 's Pipeline =
  pp_cfg :: "'s PipelineConfig"
  pp_store :: "'s Repository"
  pp_storeFor :: "(string \<Rightarrow> 's Repository) option"
  pp_iter_buffer :: "buffer \<Rightarrow> buffer"
  pp_iter_tenants :: "(string \<times> DriverLocation list) list \<Rightarrow> (string \<times> DriverLocation list) list"
  pp_wall :: "'s \<Rightarrow> gotime"

record pipe_state =
  pb_buffer :: buffer
  pb_pings :: int
  pb_shed :: int
  pb_flushed :: int
  pb_windows :: int
  pb_failures :: int

definition empty_pipe :: pipe_state where
  "empty_pipe = \<lparr>pb_buffer = [], pb_pings = 0, pb_shed = 0, pb_flushed = 0, pb_windows = 0, pb_failures = 0\<rparr>"

section \<open>Construction\<close>

text \<open>\<open>noopStore\<close>, the store of a pipeline that routes by tenant.\<close>

definition noopStore :: "'s Repository" where
  "noopStore =
     \<lparr>repo_UpsertMany = (\<lambda>_ s. (s, None)), repo_NearbyMany = (\<lambda>_ s. (s, Inr [])), repo_Nearby = (\<lambda>_ s. (s, Inr [])),
      repo_RemoveDriver = (\<lambda>_ s. (s, None)), repo_Reap = (\<lambda>s. (s, Inr 0)), repo_Count = (\<lambda>s. (s, 0, None))\<rparr>"

definition NewPipeline ::
  "(duration \<Rightarrow> string) \<Rightarrow> (buffer \<Rightarrow> buffer) \<Rightarrow>
   ((string \<times> DriverLocation list) list \<Rightarrow> (string \<times> DriverLocation list) list) \<Rightarrow> ('s \<Rightarrow> gotime) \<Rightarrow>
   's Repository option \<Rightarrow> 's PipelineConfig \<Rightarrow> goerr + 's Pipeline" where
  "NewPipeline dur iterB iterT wall store cfg =
     (case store of
        None \<Rightarrow> Inl (Errorf ''pipeline: store must not be nil'')
      | Some st \<Rightarrow>
          let cfg = pipeline_applyDefaults cfg in
          if pc_Window cfg < pc_FlushTimeout cfg
          then Inl (Errorf (''pipeline: FlushTimeout ('' @ dur (pc_FlushTimeout cfg) @ '') must not exceed Window ('' @
                            dur (pc_Window cfg) @ '')''))
          else Inr \<lparr>pp_cfg = cfg, pp_store = st, pp_storeFor = None, pp_iter_buffer = iterB,
                    pp_iter_tenants = iterT, pp_wall = wall\<rparr>)"

definition NewMultiTenant ::
  "(duration \<Rightarrow> string) \<Rightarrow> (buffer \<Rightarrow> buffer) \<Rightarrow>
   ((string \<times> DriverLocation list) list \<Rightarrow> (string \<times> DriverLocation list) list) \<Rightarrow> ('s \<Rightarrow> gotime) \<Rightarrow>
   (string \<Rightarrow> 's Repository) option \<Rightarrow> 's PipelineConfig \<Rightarrow> goerr + 's Pipeline" where
  "NewMultiTenant dur iterB iterT wall storeFor cfg =
     (if storeFor = None then Inl (Errorf ''pipeline: storeFor must not be nil'')
      else case NewPipeline dur iterB iterT wall (Some noopStore) cfg of
             Inl e \<Rightarrow> Inl e
           | Inr p \<Rightarrow> Inr (p\<lparr>pp_storeFor := storeFor\<rparr>))"

section \<open>Accepting\<close>

definition bufKey :: "string \<Rightarrow> string \<Rightarrow> string" where
  "bufKey tenant driver = tenant @ [CHR 0x00] @ driver"

definition location_of :: "Ping \<Rightarrow> gotime \<Rightarrow> DriverLocation" where
  "location_of ping now =
     \<lparr>dl_TenantID = pg_TenantID ping, DriverID = pg_DriverID ping, dl_Lat = pg_Lat ping, dl_Lng = pg_Lng ping,
      DistanceMeters = Fin 0, LastSeen = now\<rparr>"

definition Accept :: "'s Pipeline \<Rightarrow> Ping \<Rightarrow> pipe_state \<times> 's \<Rightarrow> (pipe_state \<times> 's) \<times> goerr option" where
  "Accept p ping = (\<lambda>(ps, s).
     let k = bufKey (pg_TenantID ping) (pg_DriverID ping);
         known = (k \<in> fst ` set (pb_buffer ps))
     in if \<not> known \<and> pc_MaxBufferedDrivers (pp_cfg p) \<le> int (length (pb_buffer ps))
        then ((ps\<lparr>pb_shed := pb_shed ps + 1\<rparr>, s), None)
        else ((ps\<lparr>pb_buffer := assoc_put k (location_of ping (pc_Now (pp_cfg p) s)) (pb_buffer ps),
                  pb_pings := pb_pings ps + 1\<rparr>, s), None))"

section \<open>Flushing\<close>

text \<open>\<open>byTenant[l.TenantID] = append(byTenant[l.TenantID], l)\<close> over the batch.\<close>

definition group_add :: "(string \<times> DriverLocation list) list \<Rightarrow> DriverLocation \<Rightarrow> (string \<times> DriverLocation list) list" where
  "group_add m l =
     assoc_put (dl_TenantID l) ((case map_of m (dl_TenantID l) of None \<Rightarrow> [] | Some ls \<Rightarrow> ls) @ [l]) m"

definition byTenant :: "DriverLocation list \<Rightarrow> (string \<times> DriverLocation list) list" where
  "byTenant ls = foldl group_add [] ls"

definition tenant_store :: "'s Pipeline \<Rightarrow> string \<Rightarrow> 's Repository" where
  "tenant_store p tenant = (case pp_storeFor p of None \<Rightarrow> pp_store p | Some f \<Rightarrow> f tenant)"

text \<open>The write loop: every tenant is written, the last error is kept.\<close>

fun write_groups :: "'s Pipeline \<Rightarrow> (string \<times> DriverLocation list) list \<Rightarrow> goerr option \<Rightarrow> 's \<Rightarrow> 's \<times> goerr option" where
  "write_groups p [] err s = (s, err)"
| "write_groups p ((tenant, locs) # gs) err s =
     (let (s1, e) = repo_UpsertMany (tenant_store p tenant) locs s
      in write_groups p gs (case e of None \<Rightarrow> err | Some x \<Rightarrow> Some x) s1)"

definition on_window :: "'s Pipeline \<Rightarrow> WindowStats \<Rightarrow> 's \<Rightarrow> 's" where
  "on_window p st s = (case pc_OnWindow (pp_cfg p) of None \<Rightarrow> s | Some f \<Rightarrow> f st s)"

definition flush :: "'s Pipeline \<Rightarrow> pipe_state \<times> 's \<Rightarrow> (pipe_state \<times> 's) \<times> WindowStats" where
  "flush p = (\<lambda>(ps, s).
     let batch = pb_buffer ps;
         ps1 = ps\<lparr>pb_buffer := [], pb_windows := pb_windows ps + 1\<rparr>;
         stats = \<lparr>ws_Window = pb_windows ps1, ws_PingsAccepted = pb_pings ps1, ws_PingsShed = pb_shed ps1,
                  ws_DriversFlushed = int (length batch), ws_FlushDuration = 0, ws_FlushError = None\<rparr>
     in if batch = [] then ((ps1, on_window p stats s), stats)
        else
          let groups = byTenant (map snd (pp_iter_buffer p batch));
              started = pp_wall p s;
              (s1, err) = write_groups p (pp_iter_tenants p groups) None s;
              stats = stats\<lparr>ws_FlushDuration := time_sub (pp_wall p s1) started, ws_FlushError := err\<rparr>;
              ps2 = (if err \<noteq> None then ps1\<lparr>pb_failures := pb_failures ps1 + 1\<rparr>
                     else ps1\<lparr>pb_flushed := pb_flushed ps1 + int (length batch)\<rparr>)
          in ((ps2, on_window p stats s1), stats))"

definition Flush :: "'s Pipeline \<Rightarrow> pipe_state \<times> 's \<Rightarrow> (pipe_state \<times> 's) \<times> goerr option" where
  "Flush p st = (let (st1, stats) = flush p st in (st1, ws_FlushError stats))"

definition pipeline_Stats :: "pipe_state \<Rightarrow> PipelineStats" where
  "pipeline_Stats ps =
     \<lparr>TotalPings = pb_pings ps, TotalShed = pb_shed ps, TotalFlushed = pb_flushed ps, TotalWindows = pb_windows ps,
      FlushFailures = pb_failures ps, Buffered = int (length (pb_buffer ps))\<rparr>"

section \<open>The loop\<close>

text \<open>\<open>Run\<close> beside the connections that call \<open>Accept\<close>: a tick flushes and goes on, cancellation flushes
  once more and returns. The first component tells whether \<open>Run\<close> is still running.\<close>

inductive pipeline_step :: "'s Pipeline \<Rightarrow> bool \<times> pipe_state \<times> 's \<Rightarrow> bool \<times> pipe_state \<times> 's \<Rightarrow> bool" for p where
    accepts: "Accept p ping st = (st', e) \<Longrightarrow> pipeline_step p (running, st) (running, st')"
  | ticks: "flush p st = (st', stats) \<Longrightarrow> pipeline_step p (True, st) (True, st')"
  | cancelled: "flush p st = (st', stats) \<Longrightarrow> pipeline_step p (True, st) (False, st')"
  | flushes: "Flush p st = (st', err) \<Longrightarrow> pipeline_step p (running, st) (running, st')"
  | world_moves: "pipeline_step p (running, ps, s) (running, ps, s')"

end
