(* ===== verification/Daemons.thy ===== *)
theory Daemons
  imports Api Batcher Pipeline
begin

text \<open>
  The binaries under \<open>cmd/\<close>: how \<open>requestd\<close>, \<open>ingestd\<close> and \<open>batcherd\<close> put the components together,
  with \<open>internal/authsetup\<close> and \<open>internal/adminserver\<close>, and the two small tools \<open>keyadmin\<close> and
  \<open>healthcheck\<close>. A start-up is a function from the parsed flags to the running service, or the exit
  code (\<open>Inl\<close>). The operating system, the clock and the connections that the processes open are the
  record \<open>platform\<close>.
\<close>

section \<open>The platform\<close>

record 's platform =
  os_Hostname :: string
  os_Getpid :: int
  time_Now :: "'s \<Rightarrow> gotime"
  time_Sleep :: "duration \<Rightarrow> 's \<Rightarrow> 's"
  duration_string :: "duration \<Rightarrow> string"
  time_Format :: "string \<Rightarrow> gotime \<Rightarrow> string"
  quoted :: "string \<Rightarrow> string"
  float_text :: float_conv
  percent_f :: "float64 \<Rightarrow> string"
  dial_streams :: "string \<Rightarrow> 's stream_client"
  dial_geo :: "string \<Rightarrow> string \<Rightarrow> int \<Rightarrow> 's geo_client"
  dial_keys :: "string \<Rightarrow> string \<Rightarrow> 's key_client"
  dial_engine :: "string \<Rightarrow> goerr + 's engine_api"
  json_decoder :: ride_decoder
  crypto_rand :: "nat \<Rightarrow> 's \<Rightarrow> 's \<times> (goerr + 8 word list)"
  range_buffer :: "buffer \<Rightarrow> buffer"
  range_tenants :: "(string \<times> DriverLocation list) list \<Rightarrow> (string \<times> DriverLocation list) list"
  batcher_env :: "'s Batcher"
  http_Get :: "string \<Rightarrow> duration \<Rightarrow> 's \<Rightarrow> 's \<times> (goerr + int)"
  dial_tcp :: "string \<Rightarrow> duration \<Rightarrow> 's \<Rightarrow> 's \<times> goerr option"

section \<open>internal/authsetup\<close>

text \<open>\<open>Inr None\<close> is the nil store: authentication is off. \<open>NewRedisStore\<close> returns no error.\<close>

definition Open :: "'s platform \<Rightarrow> string \<Rightarrow> bool \<Rightarrow> 's \<Rightarrow> 's \<times> (goerr + 's KeyStore option)" where
  "Open os redisAddr allowAnonymous s =
     (if allowAnonymous then (s, Inr None)
      else
        let store = NewRedisStore (dial_keys os) redisAddr (time_Now os);
            (s1, err) = key_Ping store s
        in case err of
             Some e \<Rightarrow> (s1, Inl (Wrapf (''cannot reach the key store at '' @ redisAddr @ '': '') e []))
           | None \<Rightarrow> (s1, Inr (Some (redis_key_store store))))"

section \<open>cmd/requestd\<close>

record requestd_flags =
  rf_redis :: string
  rf_tenant :: string
  rf_maxLen :: int
  rf_allowAnonymous :: bool

definition requestd_defaults :: requestd_flags where
  "requestd_defaults = \<lparr>rf_redis = ''localhost:6379'', rf_tenant = ''default'', rf_maxLen = 1000000, rf_allowAnonymous = False\<rparr>"

definition requestd :: "'s platform \<Rightarrow> requestd_flags \<Rightarrow> 's \<Rightarrow> 's \<times> (int + 's ApiServer)" where
  "requestd os f s =
     (let qOpts = (DefaultStreamOptions (time_Now os))
            \<lparr>so_TenantID := rf_tenant f, so_MaxLen := rf_maxLen f, so_Consumer := ''requestd-producer''\<rparr>;
          (s1, r) = NewRedisStream (dial_streams os (rf_redis f)) (float_text os) qOpts s
      in case r of
           Inl _ \<Rightarrow> (s1, Inl 1)
         | Inr q \<Rightarrow>
             let (s2, err) = rs_Ping q s1
             in case err of
                  Some _ \<Rightarrow> (s2, Inl 1)
                | None \<Rightarrow>
                    let (s3, k) = Open os (rf_redis f) (rf_allowAnonymous f) s2
                    in case k of
                         Inl _ \<Rightarrow> (s3, Inl 1)
                       | Inr keys \<Rightarrow>
                           let cfg = (ApiDefaultConfig (time_Now os))\<lparr>ac_TenantID := rf_tenant f, ac_Keys := keys\<rparr>
                           in case NewServer (json_decoder os) (quoted os) (crypto_rand os) (time_Now os)
                                     (Some (redis_queue q)) cfg of
                                Inl _ \<Rightarrow> (s3, Inl 1)
                              | Inr srv \<Rightarrow> (s3, Inr srv))"

section \<open>cmd/ingestd\<close>

record ingestd_flags =
  if_redis :: string
  if_tenant :: string
  if_window :: duration
  if_ttl :: duration
  if_maxConns :: int
  if_maxBuffered :: int
  if_allowAnonymous :: bool
  if_allowedOrigins :: string

definition ingestd_defaults :: ingestd_flags where
  "ingestd_defaults = \<lparr>if_redis = ''localhost:6379'', if_tenant = ''default'', if_window = 3 * second, if_ttl = 30 * second,
     if_maxConns = 10000, if_maxBuffered = 100000, if_allowAnonymous = False, if_allowedOrigins = []\<rparr>"

record 's ingestd_service =
  id_store :: "'s RedisRepository"
  id_pipe :: "'s Pipeline"
  id_cfg :: "(pipe_state \<times> 's) IngestConfig"

definition origin_list :: "string \<Rightarrow> string list" where
  "origin_list allowedOrigins = (if allowedOrigins \<noteq> [] then split_on (CHR '','') allowedOrigins else [])"

definition ingestd :: "'s platform \<Rightarrow> ingestd_flags \<Rightarrow> 's \<Rightarrow> 's \<times> (int + 's ingestd_service)" where
  "ingestd os f s =
     (case NewRedis (dial_geo os) (if_redis f)
             ((DefaultOptions (time_Now os))\<lparr>lo_TenantID := if_tenant f, lo_TTL := if_ttl f\<rparr>) of
        Inl _ \<Rightarrow> (s, Inl 1)
      | Inr store \<Rightarrow>
          let (s1, err) = Locations.Ping store s
          in case err of
               Some _ \<Rightarrow> (s1, Inl 1)
             | None \<Rightarrow>
                 (case NewPipeline (duration_string os) (range_buffer os) (range_tenants os) (time_Now os)
                         (Some (redis_repository (percent_f os) store))
                         \<lparr>pc_Window = if_window f, pc_MaxBufferedDrivers = if_maxBuffered f,
                          pc_FlushTimeout = go_div (if_window f) 2, pc_OnWindow = None, pc_Now = time_Now os\<rparr> of
                    Inl _ \<Rightarrow> (s1, Inl 1)
                  | Inr pipe \<Rightarrow>
                      let (s2, k) = Open os (if_redis f) (if_allowAnonymous f) s1
                      in case k of
                           Inl _ \<Rightarrow> (s2, Inl 1)
                         | Inr keys \<Rightarrow>
                             (s2, Inr \<lparr>id_store = store, id_pipe = pipe,
                                id_cfg = ingest_applyDefaults
                                  \<lparr>ic_MaxConnections = if_maxConns f, ic_MaxMessageBytes = 0, ic_PongWait = 0,
                                   ic_PingInterval = 0, ic_WriteWait = 0, ic_Keys = map_option lift_store keys,
                                   ic_AllowedOrigins = origin_list (if_allowedOrigins f), ic_TenantID = if_tenant f,
                                   ic_Now = (\<lambda>(_, s). time_Now os s)\<rparr>\<rparr>)))"

text \<open>The hand-written \<open>itoa\<close>: the loop fills a buffer from its end.\<close>

function itoa_loop :: "int \<Rightarrow> string \<Rightarrow> string" where
  "itoa_loop n buf = (if 0 < n then itoa_loop (n div 10) (digit_char (nat (n mod 10)) # buf) else buf)"
  by pat_completeness auto
termination by (relation "measure (\<lambda>(n, _). nat n)") auto

declare itoa_loop.simps [simp del]

definition itoa :: "int \<Rightarrow> string" where
  "itoa n =
     (if n = 0 then ''0''
      else let neg = n < 0; digits = itoa_loop (if neg then wrap64 (- n) else n) []
           in if neg then CHR ''-'' # digits else digits)"

definition stat_line :: "string \<Rightarrow> string \<Rightarrow> string" where
  "stat_line name v = name @ '' '' @ v @ [CHR 0x0A]"

definition ingestd_stats :: "'s RedisRepository \<Rightarrow> Server \<Rightarrow> pipe_state \<Rightarrow> 's \<Rightarrow> 's \<times> string" where
  "ingestd_stats store sv pst s =
     (let ws = ingest_Stats sv; ps = pipeline_Stats pst; (s1, cnt, _) = Count store s
      in (s1, stat_line ''connections_active'' (itoa (ActiveConnections ws)) @
              stat_line ''connections_total'' (itoa (TotalConnections ws)) @
              stat_line ''connections_rejected'' (itoa (RejectedConnections ws)) @
              stat_line ''pings_received'' (itoa (PingsReceived ws)) @
              stat_line ''pings_malformed'' (itoa (PingsRejected ws)) @
              stat_line ''pipeline_shed'' (itoa (TotalShed ps)) @
              stat_line ''pipeline_flushed'' (itoa (TotalFlushed ps)) @
              stat_line ''pipeline_windows'' (itoa (TotalWindows ps)) @
              stat_line ''pipeline_flush_failures'' (itoa (FlushFailures ps)) @
              stat_line ''pipeline_buffered'' (itoa (Buffered ps)) @
              stat_line ''drivers_indexed'' (itoa cnt)))"

text \<open>
  The running process: whether the signal has arrived, whether \<open>pipe.Run\<close> still runs, and the
  connections, whose sink is the pipeline. The signal cancels the one context that \<open>pipe.Run\<close> and
  \<open>main\<close> wait for, so the final flush and the shutdown of the connections proceed side by side.
\<close>

type_synonym 's ingestd_state = "bool \<times> bool \<times> (pipe_state \<times> 's) ingest_state"

inductive ingestd_step ::
  "'s ingestd_service \<Rightarrow> (string \<Rightarrow> Ping option) \<Rightarrow> (float64 \<Rightarrow> string) \<Rightarrow> 's ingestd_state \<Rightarrow> 's ingestd_state \<Rightarrow> bool"
  for d unmarshal ftoa where
    serves: "ingest_step (id_cfg d) unmarshal ftoa (Some (Accept (id_pipe d))) ev st st' \<Longrightarrow>
      (ev = ShutdownCalled \<longrightarrow> signalled) \<Longrightarrow>
      ingestd_step d unmarshal ftoa (signalled, running, st) (signalled, running, st')"
  | window_ends: "flush (id_pipe d) (is_world st) = (x, stats) \<Longrightarrow>
      ingestd_step d unmarshal ftoa (signalled, True, st) (signalled, True, st\<lparr>is_world := x\<rparr>)"
  | signal: "ingestd_step d unmarshal ftoa (False, running, st) (True, running, st)"
  | final_flush: "flush (id_pipe d) (is_world st) = (x, stats) \<Longrightarrow>
      ingestd_step d unmarshal ftoa (True, True, st) (True, False, st\<lparr>is_world := x\<rparr>)"

text \<open>\<open>main\<close> returns cleanly when the connections have drained and \<open>pipe.Run\<close> is done.\<close>

definition stopped_cleanly :: "'s ingestd_state \<Rightarrow> bool" where
  "stopped_cleanly = (\<lambda>(signalled, running, st).
     signalled \<and> \<not> running \<and> sv_closed (is_server st) \<and> Shutdown_result None (is_server st) = Some None)"

section \<open>cmd/batcherd\<close>

record batcherd_flags =
  bf_redis :: string
  bf_engine :: string
  bf_tenant :: string
  bf_consumer :: string
  bf_window :: duration
  bf_maxBatch :: int
  bf_radius :: float64
  bf_candidates :: int
  bf_useRoads :: bool
  bf_graph :: string

definition batcherd_defaults :: batcherd_flags where
  "batcherd_defaults = \<lparr>bf_redis = ''localhost:6379'', bf_engine = ''localhost:50051'', bf_tenant = ''default'', bf_consumer = [],
     bf_window = 3 * second, bf_maxBatch = 500, bf_radius = Fin 5000, bf_candidates = 8, bf_useRoads = False,
     bf_graph = ''blr-central''\<rparr>"

definition consumer_name :: "'s platform \<Rightarrow> string \<Rightarrow> string" where
  "consumer_name os consumer = (if consumer = [] then os_Hostname os @ ''-'' @ format_int (os_Getpid os) else consumer)"

text \<open>The warm-up: \<open>health, warmErr\<close> after the loop and the number of the last attempt. The loop
  ends by itself only if the clock moves.\<close>

partial_function (option) warm_loop ::
  "'s platform \<Rightarrow> 's Client \<Rightarrow> gotime \<Rightarrow> goerr + HealthResponse option \<Rightarrow> int \<Rightarrow> 's \<Rightarrow>
     ('s \<times> (goerr + HealthResponse option) \<times> int) option" where
  "warm_loop os eng deadline prev attempt s =
     (if \<not> time_Now os s < deadline then Some (s, prev, attempt)
      else case Health eng (with_timeout (time_Now os s) (10 * second) None) s of
             (s1, Inr h) \<Rightarrow> Some (s1, Inr h, attempt)
           | (s1, Inl e) \<Rightarrow> warm_loop os eng deadline (Inl e) (attempt + 1) (time_Sleep os (2 * second) s1))"

definition graph_missing :: "string \<Rightarrow> goerr + HealthResponse option \<Rightarrow> bool" where
  "graph_missing graphID warm \<longleftrightarrow>
     (case warm of
        Inl _ \<Rightarrow> False
      | Inr None \<Rightarrow> True
      | Inr (Some h) \<Rightarrow> \<not> serves_graph graphID (LoadedGraphs h))"

definition batcherd_config :: "'s platform \<Rightarrow> batcherd_flags \<Rightarrow> 's Config" where
  "batcherd_config os f =
     (DefaultConfig (time_Now os))
       \<lparr>Window := bf_window f, MaxBatchSize := bf_maxBatch f, SearchRadiusMeters := bf_radius f,
        cfg_MaxCandidatesPerRider := bf_candidates f,
        cfg_CostMetric := (if bf_useRoads f then COST_METRIC_TRAVEL_TIME else COST_METRIC_EUCLIDEAN),
        RoadGraphID := bf_graph f, SolveTimeout := go_div (bf_window f) 2, TenantLabel := bf_tenant f\<rparr>"

definition batcherd :: "'s platform \<Rightarrow> batcherd_flags \<Rightarrow> 's \<Rightarrow> ('s \<times> (int + 's Batcher)) option" where
  "batcherd os f s =
     (let qOpts = (DefaultStreamOptions (time_Now os))
            \<lparr>so_TenantID := bf_tenant f, so_Consumer := consumer_name os (bf_consumer f)\<rparr>;
          (s1, r) = NewRedisStream (dial_streams os (bf_redis f)) (float_text os) qOpts s
      in case r of
           Inl _ \<Rightarrow> Some (s1, Inl 1)
         | Inr q \<Rightarrow>
             (case NewRedis (dial_geo os) (bf_redis f) ((DefaultOptions (time_Now os))\<lparr>lo_TenantID := bf_tenant f\<rparr>) of
                Inl _ \<Rightarrow> Some (s1, Inl 1)
              | Inr drivers \<Rightarrow>
                  let (s2, err) = Locations.Ping drivers s1
                  in case err of
                       Some _ \<Rightarrow> Some (s2, Inl 1)
                     | None \<Rightarrow>
                         (case Dial (bf_engine f) (dial_engine os (bf_engine f)) [WithTimeout (10 * second)] of
                            Inl _ \<Rightarrow> Some (s2, Inl 1)
                          | Inr eng \<Rightarrow>
                              (case warm_loop os eng (time_Now os s2 + 45 * second) (Inr None) 1 s2 of
                                 None \<Rightarrow> None
                               | Some (s3, warm, _) \<Rightarrow>
                                   if bf_useRoads f \<and> graph_missing (bf_graph f) warm then Some (s3, Inl 1)
                                   else case New (duration_string os) (batcher_env os) (Some (redis_queue q))
                                               (Some (redis_repository (percent_f os) drivers)) (Some eng)
                                               (batcherd_config os f) of
                                          Inl _ \<Rightarrow> Some (s3, Inl 1)
                                        | Inr b \<Rightarrow> Some (s3, Inr b)))))"

definition batcherd_stats :: "'s RedisStream \<Rightarrow> Stats \<Rightarrow> 's \<Rightarrow> 's \<times> string" where
  "batcherd_stats q st s =
     (let (s1, depth) = rs_Depth q s; (s2, pending) = rs_Pending q s1; (s3, dead) = rs_DeadLetterDepth q s2
      in (s3, stat_line ''batches'' (format_int (st_Batches st)) @ stat_line ''requests'' (format_int (st_Requests st)) @
              stat_line ''matched'' (format_int (st_Matched st)) @ stat_line ''unmatched'' (format_int (st_Unmatched st)) @
              stat_line ''requeued'' (format_int (st_Requeued st)) @
              stat_line ''dead_lettered'' (format_int (st_DeadLettered st)) @
              stat_line ''solve_errors'' (format_int (st_SolveErrors st)) @
              stat_line ''queue_depth'' (format_int (ok_or_zero depth)) @
              stat_line ''queue_pending'' (format_int (ok_or_zero pending)) @
              stat_line ''queue_dead_letter'' (format_int (ok_or_zero dead))))"

end
