(* ===== verification/Tools.thy ===== *)
theory Tools
  imports Daemons
begin

text \<open>
  The operator's side: \<open>cmd/keyadmin\<close>, \<open>cmd/healthcheck\<close> and the routes and pages of
  \<open>internal/adminserver\<close>. A tool is a function from its parsed flags to the state it leaves, its exit
  code and the lines of its standard output; the table writer only aligns columns, so a row is its
  list of cells joined by tabs. Messages on the standard error are not modelled.
\<close>

section \<open>cmd/keyadmin\<close>

record keyadmin_flags =
  kf_redis :: string
  kf_tenant :: string
  kf_name :: string
  kf_keyID :: string
  kf_ttl :: duration
  kf_rate :: int
  kf_overlap :: duration

definition envOr :: "(string \<Rightarrow> string) \<Rightarrow> string \<Rightarrow> string \<Rightarrow> string" where
  "envOr getenv key fallback = (if getenv key \<noteq> [] then getenv key else fallback)"

definition keyadmin_defaults :: "(string \<Rightarrow> string) \<Rightarrow> keyadmin_flags" where
  "keyadmin_defaults getenv =
     \<lparr>kf_redis = envOr getenv ''REDIS_ADDR'' ''localhost:6379'', kf_tenant = [], kf_name = [], kf_keyID = [], kf_ttl = 0,
      kf_rate = 600, kf_overlap = 24 * 3600 * second\<rparr>"

definition status :: "gotime \<Rightarrow> APIKey \<Rightarrow> string" where
  "status now k =
     (if \<not> is_zero (ak_RevokedAt k) then ''revoked''
      else if \<not> is_zero (ak_ExpiresAt k) \<and> ak_ExpiresAt k < now then ''expired''
      else ''active'')"

definition expiry :: "'s platform \<Rightarrow> APIKey \<Rightarrow> string" where
  "expiry os k = (if is_zero (ak_ExpiresAt k) then ''never'' else time_Format os ''2006-01-02'' (ak_ExpiresAt k))"

definition tabbed :: "string list \<Rightarrow> string" where
  "tabbed cells = concat (map (\<lambda>c. c @ [CHR 0x09]) (butlast cells)) @ last cells"

text \<open>The rows of \<open>list\<close>: a key that cannot be read becomes a row with its error.\<close>

fun list_rows :: "'s platform \<Rightarrow> 's RedisStore \<Rightarrow> string list \<Rightarrow> 's \<Rightarrow> 's \<times> string list" where
  "list_rows os store [] s = (s, [])"
| "list_rows os store (i # ids) s =
     (let (s1, l) = Lookup store i s;
          row = (case l of
                   Inl e \<Rightarrow> tabbed [i, ''?'', error_text e, [], []]
                 | Inr k \<Rightarrow> tabbed [ak_KeyID k, ak_Name k, status (time_Now os s1) k,
                              time_Format os ''2006-01-02'' (ak_CreatedAt k), expiry os k]);
          (s2, rows) = list_rows os store ids s1
      in (s2, row # rows))"

definition run_create :: "'s platform \<Rightarrow> 's RedisStore \<Rightarrow> keyadmin_flags \<Rightarrow> 's \<Rightarrow> 's \<times> int \<times> string list" where
  "run_create os store f s =
     (if kf_tenant f = [] \<or> kf_name f = [] then (s, 1, [])
      else
        let (s1, r) = Create store (kf_tenant f) (kf_name f) (kf_ttl f) (kf_rate f) s
        in case r of
             Inl _ \<Rightarrow> (s1, 1, [])
           | Inr (raw, key) \<Rightarrow>
               (s1, 0,
                [''key id    : '' @ ak_KeyID key, ''tenant    : '' @ ak_TenantID key,
                 ''rate limit: '' @ format_int (ak_RateLimitPerMinute key) @ ''/min'',
                 ''expires   : '' @ (if is_zero (ak_ExpiresAt key) then ''never''
                    else time_Format os ''2006-01-02T15:04:05Z07:00'' (ak_ExpiresAt key)),
                 [], ''  '' @ raw, [],
                 ''This is the only time the key is shown. Store it now '' @ em_dash @ '' only its'',
                 ''hash is kept, so it cannot be recovered, only rotated.'']))"

definition run_list :: "'s platform \<Rightarrow> 's RedisStore \<Rightarrow> keyadmin_flags \<Rightarrow> 's \<Rightarrow> 's \<times> int \<times> string list" where
  "run_list os store f s =
     (if kf_tenant f = [] then (s, 1, [])
      else
        let (s1, r) = ListForTenant store (kf_tenant f) s
        in case r of
             Inl _ \<Rightarrow> (s1, 1, [])
           | Inr ids \<Rightarrow>
               if ids = [] then (s1, 0, [''no keys for tenant '' @ quoted os (kf_tenant f)])
               else let (s2, rows) = list_rows os store ids s1
                    in (s2, 0, tabbed [''KEY ID'', ''NAME'', ''STATUS'', ''CREATED'', ''EXPIRES''] # rows))"

definition run_rotate :: "'s platform \<Rightarrow> 's RedisStore \<Rightarrow> keyadmin_flags \<Rightarrow> 's \<Rightarrow> 's \<times> int \<times> string list" where
  "run_rotate os store f s =
     (if kf_keyID f = [] then (s, 1, [])
      else
        let (s1, r) = Rotate store (kf_keyID f) (kf_overlap f) s
        in case r of
             Inl _ \<Rightarrow> (s1, 1, [])
           | Inr (raw, key) \<Rightarrow>
               (s1, 0,
                [''new key id: '' @ ak_KeyID key,
                 ''replaces  : '' @ ak_RotatedFrom key @ '' (keeps working for '' @ duration_string os (kf_overlap f) @ '')'',
                 [], ''  '' @ raw, [], ''Roll clients onto the new key before the overlap expires.'']))"

definition run_revoke :: "'s platform \<Rightarrow> 's RedisStore \<Rightarrow> keyadmin_flags \<Rightarrow> 's \<Rightarrow> 's \<times> int \<times> string list" where
  "run_revoke os store f s =
     (if kf_keyID f = [] then (s, 1, [])
      else
        let (s1, err) = Revoke store (kf_keyID f) s
        in case err of
             Some _ \<Rightarrow> (s1, 1, [])
           | None \<Rightarrow> (s1, 0, [''revoked '' @ kf_keyID f @ '' '' @ em_dash @ '' it stops working immediately'']))"

text \<open>\<open>cmd\<close> is \<open>os.Args[1]\<close>; the store is pinged before the command is looked at.\<close>

definition keyadmin :: "'s platform \<Rightarrow> string \<Rightarrow> keyadmin_flags \<Rightarrow> 's \<Rightarrow> 's \<times> int \<times> string list" where
  "keyadmin os cmd f s =
     (let store = NewRedisStore (dial_keys os) (kf_redis f) (time_Now os);
          (s1, err) = key_Ping store s
      in case err of
           Some _ \<Rightarrow> (s1, 1, [])
         | None \<Rightarrow>
             if cmd = ''create'' then run_create os store f s1
             else if cmd = ''list'' then run_list os store f s1
             else if cmd = ''rotate'' then run_rotate os store f s1
             else if cmd = ''revoke'' then run_revoke os store f s1
             else (s1, 2, []))"

section \<open>cmd/healthcheck\<close>

definition probeHTTP :: "'s platform \<Rightarrow> string \<Rightarrow> duration \<Rightarrow> 's \<Rightarrow> 's \<times> int" where
  "probeHTTP os url timeout s =
     (let (s1, r) = http_Get os url timeout s
      in (s1, case r of Inl _ \<Rightarrow> 1 | Inr code \<Rightarrow> if code < 200 \<or> 300 \<le> code then 1 else 0))"

definition probeTCP :: "'s platform \<Rightarrow> string \<Rightarrow> duration \<Rightarrow> 's \<Rightarrow> 's \<times> int" where
  "probeTCP os addr timeout s =
     (let (s1, err) = dial_tcp os addr timeout s in (s1, case err of Some _ \<Rightarrow> 1 | None \<Rightarrow> 0))"

text \<open>\<open>args\<close> is \<open>os.Args[1:]\<close>.\<close>

definition healthcheck :: "'s platform \<Rightarrow> string list \<Rightarrow> 's \<Rightarrow> 's \<times> int" where
  "healthcheck os args s =
     (case args of
        [] \<Rightarrow> (s, 2)
      | target # _ \<Rightarrow>
          if has_prefix target ''http://'' \<or> has_prefix target ''https://'' then probeHTTP os target (2 * second) s
          else probeTCP os target (2 * second) s)"

section \<open>internal/adminserver\<close>

record AdminConfig =
  ad_Addr :: string
  ad_DisableProfiling :: bool
  ad_ServiceName :: string

definition AdminDefaultConfig :: "string \<Rightarrow> AdminConfig" where
  "AdminDefaultConfig service = \<lparr>ad_Addr = '':6060'', ad_DisableProfiling = False, ad_ServiceName = service\<rparr>"

text \<open>The server: its configuration and the patterns of its own mux, in the order of registration.\<close>

record AdminServer =
  adm_cfg :: AdminConfig
  adm_routes :: "string list"

definition NewAdmin :: "AdminConfig \<Rightarrow> AdminServer" where
  "NewAdmin cfg0 =
     (let cfg = (if ad_Addr cfg0 = [] then cfg0\<lparr>ad_Addr := ad_Addr (AdminDefaultConfig (ad_ServiceName cfg0))\<rparr> else cfg0)
      in \<lparr>adm_cfg = cfg,
          adm_routes = [''GET /'', ''GET /healthz'', ''GET /debug/runtime''] @
            (if \<not> ad_DisableProfiling cfg
             then [''GET /debug/pprof/'', ''GET /debug/pprof/cmdline'', ''GET /debug/pprof/profile'',
                   ''GET /debug/pprof/symbol'', ''GET /debug/pprof/trace''] else [])\<rparr>)"

text \<open>\<open>ServeMux.Handle\<close> panics on a pattern that is registered already.\<close>

definition admin_Handle :: "string \<Rightarrow> AdminServer \<Rightarrow> AdminServer option" where
  "admin_Handle pattern srv =
     (if pattern \<in> set (adm_routes srv) then None else Some (srv\<lparr>adm_routes := adm_routes srv @ [pattern]\<rparr>))"

definition admin_index :: "AdminServer \<Rightarrow> string list" where
  "admin_index srv =
     [ad_ServiceName (adm_cfg srv) @ '' '' @ em_dash @ '' admin'', [], ''  /healthz'', ''  /debug/runtime''] @
     (if \<not> ad_DisableProfiling (adm_cfg srv)
      then [''  /debug/pprof/'', ''  /debug/pprof/profile?seconds=30   CPU'',
            ''  /debug/pprof/heap                 in-use memory'', ''  /debug/pprof/allocs               total allocations'',
            ''  /debug/pprof/goroutine            stacks (leak hunting)'',
            ''  /debug/pprof/block                blocking profile*'',
            ''  /debug/pprof/mutex                contention profile*'', [],
            ''  * block and mutex need SetBlockProfileRate / SetMutexProfileFraction; see EnableContentionProfiling.'']
      else [])"

text \<open>The rate that both profilers get.\<close>

definition contention_rate :: "int \<Rightarrow> int" where
  "contention_rate rate = (if rate \<le> 0 then 1 else rate)"

text \<open>The runtime page, from what the Go runtime reports.\<close>

record MemStats =
  HeapAlloc :: int
  HeapObjects :: int
  HeapSys :: int
  StackSys :: int
  TotalAlloc :: int
  Mallocs :: int
  Frees :: int
  NumGC :: int
  PauseTotalNs :: int
  GCCPUFraction :: float64
  NextGC :: int

definition runtimeStats :: "'s platform \<Rightarrow> int \<Rightarrow> MemStats \<Rightarrow> string" where
  "runtimeStats os goroutines m =
     stat_line ''goroutines'' (format_int goroutines) @ stat_line ''heap_alloc_bytes'' (format_int (HeapAlloc m)) @
     stat_line ''heap_objects'' (format_int (HeapObjects m)) @ stat_line ''heap_sys_bytes'' (format_int (HeapSys m)) @
     stat_line ''stack_sys_bytes'' (format_int (StackSys m)) @ stat_line ''total_alloc_bytes'' (format_int (TotalAlloc m)) @
     stat_line ''mallocs'' (format_int (Mallocs m)) @ stat_line ''frees'' (format_int (Frees m)) @
     stat_line ''gc_cycles'' (format_int (NumGC m)) @ stat_line ''gc_pause_total_ns'' (format_int (PauseTotalNs m)) @
     stat_line ''gc_cpu_fraction'' (percent_f os (GCCPUFraction m)) @ stat_line ''next_gc_bytes'' (format_int (NextGC m))"

section \<open>internal/redisconn\<close>

definition Password :: "(string \<Rightarrow> string) \<Rightarrow> string" where
  "Password getenv = getenv ''REDIS_PASSWORD''"

end
