(* ===== verification/Locations_Properties.thy ===== *)
theory Locations_Properties
  imports Locations
begin

text \<open>
  The laws of the geo commands that \<open>internal/locations\<close> relies on, as the locale \<open>redis_geo\<close>; what
  the store does on every Redis that keeps them; and an in-memory instance. The observations are
  the answer of a radius search (\<open>hits\<close>), the position of an indexed member (\<open>pos\<close>) and the score
  of a member (\<open>score\<close>). A write that fails may or may not have happened, and a failed pipeline may
  have executed any of its commands.
\<close>

section \<open>The laws\<close>

locale redis_geo =
  fixes R :: "'s geo_client"
    and hits :: "'s \<Rightarrow> string \<Rightarrow> Query \<Rightarrow> int \<Rightarrow> geo_hit list"
    and pos :: "'s \<Rightarrow> string \<Rightarrow> string \<Rightarrow> (float64 \<times> float64) option"
    and score :: "'s \<Rightarrow> string \<Rightarrow> string \<Rightarrow> int option"
  assumes geosearch_reads: "geosearch R k q n s = (s', x) \<Longrightarrow>
      hits s' = hits s \<and> pos s' = pos s \<and> score s' = score s \<and> (\<forall>hs. x = Inr hs \<longrightarrow> hs = hits s k q n)"
    and geosearch_pipe_reads: "geosearch_pipe R k qs s = (s', pe, cs) \<Longrightarrow>
      hits s' = hits s \<and> pos s' = pos s \<and> score s' = score s \<and>
      (pe = None \<longrightarrow> cs = map (\<lambda>(q, n). Inr (hits s k q n)) qs) \<and>
      (\<forall>e. pe = Some e \<longrightarrow> errors_is e RedisNil \<longrightarrow>
         list_all2 (\<lambda>(q, n) c. c = Inr (hits s k q n) \<or>
           hits s k q n = [] \<and> (\<exists>e'. c = Inl e' \<and> errors_is e' RedisNil)) qs cs)"
    and zmscore_reads: "zmscore R k ms s = (s', y) \<Longrightarrow>
      hits s' = hits s \<and> pos s' = pos s \<and> score s' = score s \<and>
      (\<forall>sc. y = Inr sc \<longrightarrow> sc = map (\<lambda>m. case score s k m of None \<Rightarrow> 0 | Some v \<Rightarrow> v) ms)"
    and zrange_reads: "zrange_below R k c n s = (s', z) \<Longrightarrow>
      hits s' = hits s \<and> pos s' = pos s \<and> score s' = score s \<and>
      (\<forall>st. z = Inr st \<longrightarrow> distinct st \<and> length st \<le> nat n \<and>
         (\<forall>m\<in>set st. \<exists>v. score s k m = Some v \<and> v < c))"
    and rand_quiet: "geo_rand R b s = (s', j) \<Longrightarrow> hits s' = hits s \<and> pos s' = pos s \<and> score s' = score s"
    and sleep_quiet: "geo_sleep R b s = (s', w) \<Longrightarrow> hits s' = hits s \<and> pos s' = pos s \<and> score s' = score s"
    and zrem_ok: "zrem R k ms s = (s', None) \<Longrightarrow>
      pos s' = (pos s)(k := pos s k |` (- set ms)) \<and> score s' = (score s)(k := score s k |` (- set ms))"
    and zrem_err: "zrem R k ms s = (s', Some e) \<Longrightarrow>
      (pos s' = pos s \<and> score s' = score s) \<or>
      (pos s' = (pos s)(k := pos s k |` (- set ms)) \<and> score s' = (score s)(k := score s k |` (- set ms)))"
    and geoadd_ok: "geoadd R k rows s = (s', None) \<Longrightarrow>
      (\<forall>k'. k' \<noteq> k \<longrightarrow> pos s' k' = pos s k' \<and> score s' k' = score s k') \<and>
      pos s' k = pos s k ++ map_of (rev rows)"
    and zadd_ok: "zadd R k vs s = (s', None) \<Longrightarrow>
      (\<forall>k'. k' \<noteq> k \<longrightarrow> pos s' k' = pos s k' \<and> score s' k' = score s k') \<and>
      score s' k = score s k ++ map_of (rev vs)"
    and write_pipe_steps: "write_pipe R cmds s = (s', e') \<Longrightarrow> (step_of cmds)\<^sup>*\<^sup>* s s'"
    and write_pipe_ok: "write_pipe R cmds s = (s', None) \<Longrightarrow> run_cmds cmds s = (s', None)"

section \<open>Retrying\<close>

lemma retry_loop_inv:
  assumes "retry_loop r n b opn s = (s', x)" "P s"
    and "\<And>t t' y. opn t = (t', y) \<Longrightarrow> P t \<Longrightarrow> P t'"
    and "\<And>d t t' j. geo_rand (lr_client r) d t = (t', j) \<Longrightarrow> P t \<Longrightarrow> P t'"
    and "\<And>d t t' w. geo_sleep (lr_client r) d t = (t', w) \<Longrightarrow> P t \<Longrightarrow> P t'"
  shows "P s' \<and> (\<forall>v. x = Inr v \<longrightarrow> (\<exists>t. P t \<and> opn t = (s', Inr v)))"
  using assms(1,2)
proof (induction n arbitrary: b s)
  case 0
  then show ?case using assms(3)
    by (auto simp: retry_loop.simps [of r 0] split: prod.splits sum.splits if_splits)
next
  case (Suc n)
  obtain s1 y where o: "opn s = (s1, y)" by force
  with Suc.prems(2) assms(3) have p1: "P s1" by blast
  show ?case
  proof (cases "\<exists>e. y = Inl e \<and> retryable (Some e)")
    case False
    with Suc.prems o p1 show ?thesis
      by (cases y) (auto simp: retry_loop.simps [of r "Suc n"])
  next
    case True
    then obtain e where y: "y = Inl e" "retryable (Some e)" by blast
    obtain s2 j where j: "geo_rand (lr_client r) b s1 = (s2, j)" by force
    obtain s3 w where w: "geo_sleep (lr_client r) (b + j) s2 = (s3, w)" by force
    have p3: "P s3" using assms(4,5) j w p1 by blast
    show ?thesis
    proof (cases w)
      case None
      with Suc.prems(1) o y j w
      have "retry_loop r n (min (b * 2) (500 * millisecond)) opn s3 = (s', x)"
        by (simp add: retry_loop.simps [of r "Suc n"])
      from Suc.IH [OF this p3] show ?thesis .
    next
      case (Some c)
      with Suc.prems(1) o y j w p3 show ?thesis
        by (auto simp: retry_loop.simps [of r "Suc n"])
    qed
  qed
qed

lemma withRetry_inv:
  assumes "withRetry r opn s = (s', x)" "P s"
    and "\<And>t t' y. opn t = (t', y) \<Longrightarrow> P t \<Longrightarrow> P t'"
    and "\<And>d t t' j. geo_rand (lr_client r) d t = (t', j) \<Longrightarrow> P t \<Longrightarrow> P t'"
    and "\<And>d t t' w. geo_sleep (lr_client r) d t = (t', w) \<Longrightarrow> P t \<Longrightarrow> P t'"
  shows "P s' \<and> (\<forall>v. x = Inr v \<longrightarrow> (\<exists>t. P t \<and> opn t = (s', Inr v)))"
proof (cases "lo_MaxRetries (lr_opts r) < 0")
  case True
  with assms(1,2) show ?thesis by (auto simp: withRetry_def)
next
  case False
  with assms(1) have "retry_loop r (nat (lo_MaxRetries (lr_opts r))) (10 * millisecond) opn s = (s', x)"
    by (simp add: withRetry_def)
  from retry_loop_inv [OF this, of P] assms(2-5) show ?thesis by blast
qed

text \<open>The number of attempts, for any measure \<open>count\<close> of them.\<close>

lemma retry_loop_count:
  fixes count :: "'s \<Rightarrow> nat"
  assumes "\<And>t. count (fst (opn t)) = Suc (count t)"
    and "\<And>d t. count (fst (geo_rand (lr_client r) d t)) = count t"
    and "\<And>d t. count (fst (geo_sleep (lr_client r) d t)) = count t"
  shows "Suc (count s) \<le> count (fst (retry_loop r n b opn s)) \<and>
    count (fst (retry_loop r n b opn s)) \<le> count s + Suc n"
proof (induction n arbitrary: b s)
  case 0
  then show ?case using assms(1) [of s]
    by (auto simp: retry_loop.simps [of r 0] split: prod.splits sum.splits)
next
  case (Suc n)
  obtain s1 y where o: "opn s = (s1, y)" by force
  then have c1: "count s1 = Suc (count s)" using assms(1) [of s] by simp
  obtain s2 j where j: "geo_rand (lr_client r) b s1 = (s2, j)" by force
  then have c2: "count s2 = count s1" using assms(2) [of b s1] by simp
  obtain s3 w where w: "geo_sleep (lr_client r) (b + j) s2 = (s3, w)" by force
  then have c3: "count s3 = count s2" using assms(3) [of "b + j" s2] by simp
  from Suc.IH [where b = "min (b * 2) (500 * millisecond)" and s = s3] o c1 j c2 w c3 show ?case
    by (cases y; cases w) (auto simp: retry_loop.simps [of r "Suc n"])
qed


section \<open>Radius searches\<close>

text \<open>What a search means: the hits that pinged at or after the cutoff, nearest first, at most
  \<open>room\<close> of them.\<close>

definition nearby_spec ::
  "string \<Rightarrow> int \<Rightarrow> nat \<Rightarrow> (string \<Rightarrow> int) \<Rightarrow> geo_hit list \<Rightarrow> DriverLocation list" where
  "nearby_spec tenant since room f hs =
     take room (map (\<lambda>h. \<lparr>dl_TenantID = tenant, DriverID = gh_Name h, dl_Lat = gh_Lat h, dl_Lng = gh_Lng h,
                         DistanceMeters = gh_Dist h, LastSeen = time_unix_milli (f (gh_Name h))\<rparr>)
       (filter (\<lambda>h. since \<le> f (gh_Name h)) hs))"

lemma take_fresh_spec:
  "0 < room \<Longrightarrow> take_fresh since room hs (map (f \<circ> gh_Name) hs) = nearby_spec [] since room f hs"
proof (induction hs arbitrary: room)
  case (Cons h hs)
  show ?case
  proof (cases "room = 1")
    case False
    with Cons.prems obtain n where "room = Suc n" "0 < n" by (cases room) auto
    with Cons.IH [of n] Cons.IH [of room] Cons.prems show ?thesis by (simp add: nearby_spec_def)
  qed (use Cons in \<open>simp add: nearby_spec_def\<close>)
qed (simp add: nearby_spec_def)

lemma pick_fresh_spec:
  assumes "\<forall>h\<in>set hs. fresh (gh_Name h) =
      (if since \<le> f (gh_Name h) then Some (time_unix_milli (f (gh_Name h))) else None)" "0 < room"
  shows "pick_fresh tenant fresh room hs = nearby_spec tenant since room f hs"
  using assms
proof (induction hs arbitrary: room)
  case (Cons h hs)
  show ?case
  proof (cases "room = 1")
    case False
    with Cons.prems obtain n where "room = Suc n" "0 < n" by (cases room) auto
    with Cons.IH [of n] Cons.IH [of room] Cons.prems show ?thesis by (simp add: nearby_spec_def)
  qed (use Cons in \<open>simp add: nearby_spec_def\<close>)
qed (simp add: nearby_spec_def)

lemma union_members_fold:
  "set (fold (\<lambda>l acc. if gh_Name l \<in> set acc then acc else gh_Name l # acc) ls acc) =
     set acc \<union> gh_Name ` set ls \<and>
   (distinct acc \<longrightarrow>
      distinct (fold (\<lambda>l acc. if gh_Name l \<in> set acc then acc else gh_Name l # acc) ls acc))"
  by (induction ls arbitrary: acc) auto

lemma set_union_members: "set (union_members raw) = gh_Name ` set (concat raw)"
  and distinct_union_members: "distinct (union_members raw)"
  using union_members_fold [of "concat raw" "[]"] by (auto simp: union_members_def)

lemma fresh_map_spec:
  assumes "m \<in> set ms"
  shows "fresh_map since ms (map f ms) m = (if since \<le> f m then Some (time_unix_milli (f m)) else None)"
proof -
  let ?ps = "map (\<lambda>(m, sc). (m, time_unix_milli sc)) (filter (\<lambda>(m, sc). since \<le> sc) (zip ms (map f ms)))"
  have e: "?ps = map (\<lambda>m. (m, time_unix_milli (f m))) (filter (\<lambda>m. since \<le> f m) ms)"
    by (simp add: zip_map2 zip_same_conv_map filter_map o_def)
  show ?thesis
    unfolding fresh_map_def e using assms by (simp add: map_of_map_restrict restrict_map_def)
qed


lemma query_limit_pos [simp]: "0 < query_limit q"
  by (simp add: query_limit_def)

text \<open>The rows that \<open>UpsertMany\<close> writes.\<close>

definition ping_ms :: "gotime \<Rightarrow> DriverLocation \<Rightarrow> int" where
  "ping_ms now l = f64_of_int (unix_milli (if is_zero (LastSeen l) then now else LastSeen l))"

lemma upsert_rows_ok:
  "upsert_rows pf now ls = Inr rows \<longleftrightarrow>
     (\<forall>l\<in>set ls. DriverID l \<noteq> [] \<and> \<not> out_of_mercator l) \<and>
     rows = map (\<lambda>l. ((DriverID l, dl_Lat l, dl_Lng l), (DriverID l, ping_ms now l))) ls"
proof (induction ls arbitrary: rows)
  case (Cons l ls)
  then show ?case
    by (cases "upsert_rows pf now ls") (auto simp: ping_ms_def Let_def)
qed auto

text \<open>The score that \<open>ZMSCORE\<close> reports: 0 for a member that has none.\<close>

definition ping_score ::
  "('s \<Rightarrow> string \<Rightarrow> string \<Rightarrow> int option) \<Rightarrow> 's RedisRepository \<Rightarrow> 's \<Rightarrow> string \<Rightarrow> int" where
  "ping_score score r s m = (case score s (seenKey r) m of None \<Rightarrow> 0 | Some v \<Rightarrow> v)"

text \<open>The laws for the client of a repository.\<close>

locale location_store = redis_geo "lr_client r" hits pos score
  for r :: "'s RedisRepository" and hits pos score
begin

definition unmoved :: "'s \<Rightarrow> 's \<Rightarrow> bool" where
  "unmoved s t \<longleftrightarrow> hits t = hits s \<and> pos t = pos s \<and> score t = score s"

abbreviation last_score :: "'s \<Rightarrow> string \<Rightarrow> int" where
  "last_score \<equiv> ping_score score r"

lemma unmoved_refl [simp]: "unmoved s s"
  by (simp add: unmoved_def)

lemma retry_unmoved:
  assumes w: "withRetry r opn s = (s', x)"
    and o: "\<And>t t' y. opn t = (t', y) \<Longrightarrow> unmoved t t'"
  shows "unmoved s s' \<and> (\<forall>v. x = Inr v \<longrightarrow> (\<exists>t. unmoved s t \<and> opn t = (s', Inr v)))"
proof (rule withRetry_inv [OF w])
  show "\<And>t t' y. opn t = (t', y) \<Longrightarrow> unmoved s t \<Longrightarrow> unmoved s t'"
    using o by (fastforce simp: unmoved_def)
  show "\<And>d t t' j. geo_rand (lr_client r) d t = (t', j) \<Longrightarrow> unmoved s t \<Longrightarrow> unmoved s t'"
    using rand_quiet by (fastforce simp: unmoved_def)
  show "\<And>d t t' w. geo_sleep (lr_client r) d t = (t', w) \<Longrightarrow> unmoved s t \<Longrightarrow> unmoved s t'"
    using sleep_quiet by (fastforce simp: unmoved_def)
qed simp

lemma retry_geosearch:
  assumes "withRetry r (geosearch (lr_client r) k q n) s = (s', x)"
  shows "unmoved s s'" "\<And>hs. x = Inr hs \<Longrightarrow> hs = hits s k q n"
  using retry_unmoved [OF assms] geosearch_reads unfolding unmoved_def by metis+

lemma retry_zmscore:
  assumes "withRetry r (zmscore (lr_client r) (seenKey r) ms) s = (s', x)"
  shows "unmoved s s'" "\<And>sc. x = Inr sc \<Longrightarrow> sc = map (last_score s) ms"
proof -
  have u: "unmoved s s' \<and> (\<forall>v. x = Inr v \<longrightarrow>
      (\<exists>t. unmoved s t \<and> zmscore (lr_client r) (seenKey r) ms t = (s', Inr v)))"
    using retry_unmoved [OF assms] zmscore_reads unfolding unmoved_def by metis
  then show "unmoved s s'" by blast
  fix sc assume "x = Inr sc"
  with u obtain t where t: "unmoved s t" "zmscore (lr_client r) (seenKey r) ms t = (s', Inr sc)" by blast
  from zmscore_reads [OF t(2)] t(1) show "sc = map (last_score s) ms"
    by (simp add: unmoved_def ping_score_def [abs_def])
qed

lemma Nearby_result:
  assumes "Nearby r q s = (s', Inr ds)"
  shows "unmoved s s' \<and> ds = nearby_spec [] (cutoff r s') (nat (query_limit q)) (last_score s)
    (hits s (geoKey r) q (query_fetch q))"
proof -
  obtain s1 raw where g: "withRetry r (geosearch (lr_client r) (geoKey r) q (query_fetch q)) s = (s1, raw)"
    by force
  note g' = retry_geosearch [OF g]
  from assms g obtain hs where hs: "raw = Inr hs"
    by (cases raw) (auto simp: Nearby_def split: if_splits)
  show ?thesis
  proof (cases "hs = []")
    case True
    with assms g hs g' show ?thesis by (auto simp: Nearby_def nearby_spec_def split: if_splits)
  next
    case False
    obtain s2 sc where z: "withRetry r (zmscore (lr_client r) (seenKey r) (map gh_Name hs)) s1 = (s2, sc)"
      by force
    note z' = retry_zmscore [OF z]
    from assms g hs False z obtain v where v: "sc = Inr v" "s' = s2"
        "ds = take_fresh (cutoff r s2) (nat (query_limit q)) hs v"
      by (cases sc) (auto simp: Nearby_def split: if_splits)
    have "last_score s1 = last_score s" using g'(1) by (simp add: unmoved_def ping_score_def [abs_def])
    with z'(2) [OF v(1)] have "v = map (last_score s \<circ> gh_Name) hs" by simp
    with v g'(2) [OF hs] take_fresh_spec [of "nat (query_limit q)" "cutoff r s2" hs "last_score s"]
      g'(1) z'(1) show ?thesis by (simp add: unmoved_def)
  qed
qed

lemma collect_hits_ok:
  assumes "list_all2 (\<lambda>(q, n) c. c = Inr (hits s k q n) \<or>
      hits s k q n = [] \<and> (\<exists>e'. c = Inl e' \<and> errors_is e' RedisNil)) qs cs"
  shows "collect_hits i cs = Inr (map (\<lambda>(q, n). hits s k q n) qs)"
  using assms by (induction qs cs arbitrary: i rule: list_all2_induct) auto

lemma search_pipe_op_reads:
  assumes "search_pipe_op r queries s = (s', x)"
  shows "unmoved s s'" "\<And>cs. x = Inr cs \<Longrightarrow>
    collect_hits 0 cs = Inr (map (\<lambda>q. hits s (geoKey r) q (query_fetch q)) queries)"
proof -
  let ?qs = "map (\<lambda>q. (q, query_fetch q)) queries"
  obtain s1 pe cs where p: "geosearch_pipe (lr_client r) (geoKey r) ?qs s = (s1, pe, cs)"
    by (metis prod_cases3)
  note l = geosearch_pipe_reads [OF p]
  have x: "s' = s1" "x = (case pe of None \<Rightarrow> Inr cs | Some e \<Rightarrow> if errors_is e RedisNil then Inr cs else Inl e)"
    using assms p by (auto simp: search_pipe_op_def split: option.splits if_splits)
  show "unmoved s s'" using l x(1) by (simp add: unmoved_def)
  fix ds assume "x = Inr ds"
  with x(2) have d: "ds = cs" "pe = None \<or> (\<exists>e. pe = Some e \<and> errors_is e RedisNil)"
    by (auto split: option.splits if_splits)
  then have "list_all2 (\<lambda>(q, n) c. c = Inr (hits s (geoKey r) q n) \<or>
      hits s (geoKey r) q n = [] \<and> (\<exists>e'. c = Inl e' \<and> errors_is e' RedisNil)) ?qs cs"
    using l by (auto simp: list.rel_map intro!: list.rel_refl)
  from collect_hits_ok [OF this] d(1)
  show "collect_hits 0 ds = Inr (map (\<lambda>q. hits s (geoKey r) q (query_fetch q)) queries)"
    by (simp add: o_def)
qed

lemma NearbyMany_result:
  assumes "NearbyMany r queries s = (s', Inr dss)"
  shows "unmoved s s' \<and> dss = map (\<lambda>q. nearby_spec (lo_TenantID (lr_opts r)) (cutoff r s')
    (nat (query_limit q)) (last_score s) (hits s (geoKey r) q (query_fetch q))) queries"
proof (cases "queries = []")
  case False
  let ?h = "\<lambda>q. hits s (geoKey r) q (query_fetch q)" and ?t = "lo_TenantID (lr_opts r)"
  define raw where "raw = map ?h queries"
  obtain s1 x where w: "withRetry r (search_pipe_op r queries) s = (s1, x)" by force
  have w': "unmoved s s1 \<and> (\<forall>v. x = Inr v \<longrightarrow>
      (\<exists>t. unmoved s t \<and> search_pipe_op r queries t = (s1, Inr v)))"
    by (rule retry_unmoved [OF w]) (rule search_pipe_op_reads(1))
  from assms False w obtain cs where x: "x = Inr cs"
    by (cases x) (auto simp: NearbyMany_def)
  with w' obtain t where t: "unmoved s t" "search_pipe_op r queries t = (s1, Inr cs)" by blast
  have c: "collect_hits 0 cs = Inr raw"
    using search_pipe_op_reads(2) [OF t(2)] t(1) by (simp add: raw_def unmoved_def)
  have z: "zip queries raw = map (\<lambda>q. (q, ?h q)) queries" by (simp add: raw_def zip_map2 zip_same_conv_map)
  show ?thesis
  proof (cases "union_members raw = []")
    case True
    then have "?h q = []" if "q \<in> set queries" for q
      using that set_union_members [of raw] by (auto simp: raw_def)
    with assms False w x c True w' show ?thesis
      by (auto simp: NearbyMany_def z nearby_spec_def)
  next
    case ne: False
    obtain s2 y where y: "withRetry r (zmscore (lr_client r) (seenKey r) (union_members raw)) s1 = (s2, y)"
      by force
    note y' = retry_zmscore [OF y]
    from assms False w x c ne y obtain sc where sc: "y = Inr sc" "s' = s2"
        "dss = map (\<lambda>(q, locs). pick_fresh ?t (fresh_map (cutoff r s2) (union_members raw) sc)
                 (nat (query_limit q)) locs) (zip queries raw)"
      by (cases y) (auto simp: NearbyMany_def)
    have "last_score s1 = last_score s" using w' by (simp add: unmoved_def ping_score_def [abs_def])
    with y'(2) [OF sc(1)] have v: "sc = map (last_score s) (union_members raw)" by simp
    have "pick_fresh ?t (fresh_map (cutoff r s2) (union_members raw) sc) (nat (query_limit q)) (?h q) =
        nearby_spec ?t (cutoff r s2) (nat (query_limit q)) (last_score s) (?h q)"
      if q: "q \<in> set queries" for q
    proof (rule pick_fresh_spec)
      have "gh_Name ` set (?h q) \<subseteq> set (union_members raw)"
        using q by (auto simp: set_union_members raw_def)
      then show "\<forall>h\<in>set (?h q). fresh_map (cutoff r s2) (union_members raw) sc (gh_Name h) =
          (if cutoff r s2 \<le> last_score s (gh_Name h) then Some (time_unix_milli (last_score s (gh_Name h))) else None)"
        unfolding v by (auto simp: fresh_map_spec)
    qed simp
    with sc z w' y'(1) show ?thesis by (simp add: unmoved_def)
  qed
qed (use assms in \<open>auto simp: NearbyMany_def\<close>)

text \<open>A retried pipeline of writes: what every queued command keeps, it keeps; when it succeeds, its
  last attempt executed all commands.\<close>

lemma retry_write:
  assumes w: "withRetry r (err_op (write_pipe (lr_client r) cs)) s = (s', x)"
    and p: "Q (pos s) (score s)"
    and c: "\<And>t. Q (pos t) (score t) \<Longrightarrow> \<forall>c\<in>set cs. Q (pos (fst (c t))) (score (fst (c t)))"
  shows "Q (pos s') (score s') \<and> (x = Inr () \<longrightarrow> (\<exists>t. Q (pos t) (score t) \<and> run_cmds cs t = (s', None)))"
proof -
  have steps: "(step_of cs)\<^sup>*\<^sup>* t t' \<Longrightarrow> Q (pos t) (score t) \<Longrightarrow> Q (pos t') (score t')" for t t'
    by (induction rule: rtranclp_induct) (auto simp: step_of_def dest: c)
  have "Q (pos s') (score s') \<and> (\<forall>v. x = Inr v \<longrightarrow>
      (\<exists>t. Q (pos t) (score t) \<and> err_op (write_pipe (lr_client r) cs) t = (s', Inr v)))"
  proof (rule withRetry_inv [OF w, of "\<lambda>t. Q (pos t) (score t)"])
    show "Q (pos t') (score t')"
      if "err_op (write_pipe (lr_client r) cs) t = (t', y)" "Q (pos t) (score t)" for t t' y
      using that steps write_pipe_steps [of cs t] by (auto simp: err_op_def split: prod.splits)
    show "Q (pos t') (score t')"
      if "geo_rand (lr_client r) d t = (t', j)" "Q (pos t) (score t)" for d t t' j
      using that rand_quiet by metis
    show "Q (pos t') (score t')"
      if "geo_sleep (lr_client r) d t = (t', v)" "Q (pos t) (score t)" for d t t' v
      using that sleep_quiet by metis
  qed (rule p)
  moreover have "run_cmds cs t = (s', None)" if "err_op (write_pipe (lr_client r) cs) t = (s', Inr v)" for t v
    using that write_pipe_ok [of cs t s'] by (auto simp: err_op_def split: prod.splits option.splits)
  ultimately show ?thesis by blast
qed

lemma zrem_keeps:
  "m \<notin> set ms \<Longrightarrow> pos (fst (zrem (lr_client r) k ms t)) k' m = pos t k' m \<and>
     score (fst (zrem (lr_client r) k ms t)) k' m = score t k' m"
proof -
  assume m: "m \<notin> set ms"
  obtain t' x where z: "zrem (lr_client r) k ms t = (t', x)" by force
  then show ?thesis using m zrem_ok [of k ms t t'] zrem_err [of k ms t t']
    by (cases x) (auto simp: restrict_map_def)
qed

lemma keys_differ [simp]: "geoKey r \<noteq> seenKey r" "seenKey r \<noteq> geoKey r"
  by (simp_all add: geoKey_def seenKey_def)

lemma Reap_result:
  assumes "Reap r s = (s', x)"
  shows "\<exists>stale. (\<forall>m\<in>set stale. \<exists>v. score s (seenKey r) m = Some v \<and> v < cutoff r s) \<and>
    (\<forall>k m. m \<notin> set stale \<longrightarrow> pos s' k m = pos s k m \<and> score s' k m = score s k m) \<and>
    (\<forall>n. x = Inr n \<longrightarrow> distinct stale \<and> n = int (length stale) \<and> n \<le> 10000 \<and>
       (\<forall>m\<in>set stale. pos s' (geoKey r) m = None \<and> score s' (seenKey r) m = None))"
proof -
  let ?scan = "zrange_below (lr_client r) (seenKey r) (cutoff r s) 10000"
  obtain s1 y where w: "withRetry r ?scan s = (s1, y)" by force
  have u: "unmoved s s1 \<and> (\<forall>v. y = Inr v \<longrightarrow> (\<exists>t. unmoved s t \<and> ?scan t = (s1, Inr v)))"
    by (rule retry_unmoved [OF w]) (auto simp: unmoved_def dest: zrange_reads)
  show ?thesis
  proof (cases y)
    case (Inl e)
    with assms w u show ?thesis by (intro exI [of _ "[]"]) (auto simp: Reap_def unmoved_def)
  next
    case (Inr stale)
    with u obtain t where t: "unmoved s t" "?scan t = (s1, Inr stale)" by blast
    have st: "distinct stale" "length stale \<le> 10000"
      "\<forall>m\<in>set stale. \<exists>v. score s (seenKey r) m = Some v \<and> v < cutoff r s"
      using zrange_reads [OF t(2)] t(1) by (auto simp: unmoved_def)
    show ?thesis
    proof (cases "stale = []")
      case True
      with assms w u Inr show ?thesis by (intro exI [of _ "[]"]) (auto simp: Reap_def unmoved_def)
    next
      case False
      let ?cs = "[zrem (lr_client r) (geoKey r) stale, zrem (lr_client r) (seenKey r) stale]"
      obtain s2 z where d: "withRetry r (err_op (write_pipe (lr_client r) ?cs)) s1 = (s2, z)" by force
      define Q where "Q = (\<lambda>p c. \<forall>k m. m \<notin> set stale \<longrightarrow> p k m = pos s k m \<and> c k m = score s k m)"
      have "Q (pos s1) (score s1)" using u by (simp add: Q_def unmoved_def)
      moreover have "Q (pos t) (score t) \<Longrightarrow> \<forall>c\<in>set ?cs. Q (pos (fst (c t))) (score (fst (c t)))" for t
        by (simp add: Q_def zrem_keeps)
      ultimately have q: "Q (pos s2) (score s2)" "z = Inr () \<Longrightarrow> \<exists>t. run_cmds ?cs t = (s2, None)"
        using retry_write [OF d, of Q] by blast+
      have e: "s' = s2" "\<forall>n. x = Inr n \<longrightarrow> z = Inr () \<and> n = int (length stale)"
        using assms w Inr False d
        by (auto simp: Reap_def err_of_def split: sum.splits option.splits)
      have gone: "pos s2 (geoKey r) m = None \<and> score s2 (seenKey r) m = None"
        if z: "z = Inr ()" and m: "m \<in> set stale" for m
      proof -
        obtain t0 t1 where "zrem (lr_client r) (geoKey r) stale t0 = (t1, None)"
          "zrem (lr_client r) (seenKey r) stale t1 = (s2, None)"
          using q(2) [OF z] unfolding run_cmds_two by blast
        from zrem_ok [OF this(1)] zrem_ok [OF this(2)] m show ?thesis by simp
      qed
      show ?thesis
        using st q(1) e gone by (intro exI [of _ stale]) (auto simp: Q_def)
    qed
  qed
qed

lemma UpsertMany_result:
  assumes "UpsertMany pf r ls s = (s', None)" "map_of (rev (map (\<lambda>l. (DriverID l, l)) ls)) d = Some l"
  shows "l \<in> set ls \<and> DriverID l = d \<and> \<not> out_of_mercator l \<and>
    pos s' (geoKey r) d = Some (dl_Lat l, dl_Lng l) \<and>
    score s' (seenKey r) d = Some (ping_ms (lo_Now (lr_opts r) s) l)"
proof -
  let ?now = "lo_Now (lr_opts r) s"
  have l: "l \<in> set ls" "DriverID l = d" using map_of_SomeD [OF assms(2)] by auto
  then have "ls \<noteq> []" by auto
  with assms(1) obtain rows where rows: "upsert_rows pf ?now ls = Inr rows"
    by (cases "upsert_rows pf ?now ls") (auto simp: UpsertMany_def)
  let ?cs = "[geoadd (lr_client r) (geoKey r) (map fst rows), zadd (lr_client r) (seenKey r) (map snd rows)]"
  have w: "withRetry r (err_op (write_pipe (lr_client r) ?cs)) s = (s', Inr ())"
    using assms(1) rows \<open>ls \<noteq> []\<close>
    by (auto simp: UpsertMany_def err_of_def prod_eq_iff split: sum.splits)
  from retry_write [OF w, of "\<lambda>_ _. True"] obtain t where "run_cmds ?cs t = (s', None)" by auto
  then obtain t1 where g: "geoadd (lr_client r) (geoKey r) (map fst rows) t = (t1, None)"
    and z: "zadd (lr_client r) (seenKey r) (map snd rows) t1 = (s', None)"
    unfolding run_cmds_two by blast
  have lookup: "map_of (rev (map (\<lambda>l. (DriverID l, f l)) ls)) d = Some (f l)" for f :: "DriverLocation \<Rightarrow> 'z"
  proof -
    have "map (\<lambda>l. (DriverID l, f l)) ls = map (\<lambda>(i, l). (i, f l)) (map (\<lambda>l. (DriverID l, l)) ls)" by simp
    then have "map_of (rev (map (\<lambda>l. (DriverID l, f l)) ls)) =
        map_option f \<circ> map_of (rev (map (\<lambda>l. (DriverID l, l)) ls))"
      by (simp only: rev_map map_of_map)
    with assms(2) show ?thesis by simp
  qed
  have r': "rows = map (\<lambda>l. ((DriverID l, dl_Lat l, dl_Lng l), (DriverID l, ping_ms ?now l))) ls"
    and ok: "\<not> out_of_mercator l"
    using rows l by (auto simp: upsert_rows_ok)
  have "map_of (rev (map fst rows)) d = Some (dl_Lat l, dl_Lng l)"
    "map_of (rev (map snd rows)) d = Some (ping_ms ?now l)"
    using lookup [of "\<lambda>l. (dl_Lat l, dl_Lng l)"] lookup [of "ping_ms ?now"] by (simp_all add: r' o_def)
  with geoadd_ok [OF g] zadd_ok [OF z] l ok show ?thesis by simp
qed

end

section \<open>An in-memory instance\<close>

text \<open>A search finds the members whose latitude is within the radius, in the order of the index;
  a command fails without effect when the head of \<open>mg_faults\<close> is \<open>True\<close>.\<close>

record mem_geo =
  mg_pos :: "string \<Rightarrow> (string \<times> float64 \<times> float64) list"
  mg_score :: "string \<Rightarrow> (string \<times> int) list"
  mg_faults :: "bool list"
  mg_clock :: gotime

definition mg_near :: "Query \<Rightarrow> float64 \<Rightarrow> bool" where
  "mg_near q lat = (case (q_Lat q, q_Radius q, lat) of (Fin a, Fin d, Fin b) \<Rightarrow> \<bar>a - b\<bar> \<le> d | _ \<Rightarrow> False)"

definition mg_hits :: "mem_geo \<Rightarrow> string \<Rightarrow> Query \<Rightarrow> int \<Rightarrow> geo_hit list" where
  "mg_hits s k q n = take (nat n)
     (map (\<lambda>(m, la, lo). \<lparr>gh_Name = m, gh_Lat = la, gh_Lng = lo, gh_Dist = Fin 0\<rparr>)
       (filter (\<lambda>(m, la, lo). mg_near q la) (mg_pos s k)))"

definition mg_position :: "mem_geo \<Rightarrow> string \<Rightarrow> string \<Rightarrow> (float64 \<times> float64) option" where
  "mg_position s k = map_of (mg_pos s k)"

definition mg_ping :: "mem_geo \<Rightarrow> string \<Rightarrow> string \<Rightarrow> int option" where
  "mg_ping s k = map_of (mg_score s k)"

definition mg_try :: "(mem_geo \<Rightarrow> mem_geo \<times> 'a) \<Rightarrow> mem_geo \<Rightarrow> mem_geo \<times> (goerr + 'a)" where
  "mg_try f s = (case mg_faults s of
     True # bs \<Rightarrow> (s\<lparr>mg_faults := bs\<rparr>, Inl (NetError ''i/o timeout''))
   | _ \<Rightarrow> (let (s1, v) = f s in (s1\<lparr>mg_faults := tl (mg_faults s)\<rparr>, Inr v)))"

definition mg_put :: "string \<Rightarrow> ('k \<times> 'v) list \<Rightarrow> (string \<Rightarrow> ('k \<times> 'v) list) \<Rightarrow> string \<Rightarrow> ('k \<times> 'v) list" where
  "mg_put k rows f = f(k := fold (\<lambda>(m, v). assoc_put m v) rows (f k))"

definition mg_del :: "string \<Rightarrow> string list \<Rightarrow> (string \<Rightarrow> (string \<times> 'v) list) \<Rightarrow> string \<Rightarrow> (string \<times> 'v) list" where
  "mg_del k ms f = f(k := filter (\<lambda>(m, _). m \<notin> set ms) (f k))"

definition mem_geo_client :: "mem_geo geo_client" where
  "mem_geo_client =
     \<lparr>geoadd = (\<lambda>k rows. as_cmd (mg_try (\<lambda>s. (s\<lparr>mg_pos := mg_put k rows (mg_pos s)\<rparr>, ())))),
      zadd = (\<lambda>k rows. as_cmd (mg_try (\<lambda>s. (s\<lparr>mg_score := mg_put k rows (mg_score s)\<rparr>, ())))),
      zrem = (\<lambda>k ms. as_cmd (mg_try (\<lambda>s. (s\<lparr>mg_pos := mg_del k ms (mg_pos s), mg_score := mg_del k ms (mg_score s)\<rparr>, ())))),
      write_pipe = run_until_error,
      geosearch = (\<lambda>k q n. mg_try (\<lambda>s. (s, mg_hits s k q n))),
      geosearch_pipe = (\<lambda>k qs s. (s, None, map (\<lambda>(q, n). Inr (mg_hits s k q n)) qs)),
      zmscore = (\<lambda>k ms. mg_try (\<lambda>s. (s, map (\<lambda>m. case mg_ping s k m of None \<Rightarrow> 0 | Some v \<Rightarrow> v) ms))),
      zrange_below = (\<lambda>k c n. mg_try (\<lambda>s. (s, take (nat n)
        (remdups (map fst (filter (\<lambda>(m, v). mg_ping s k m = Some v \<and> v < c) (mg_score s k))))))),
      zcard = (\<lambda>k. mg_try (\<lambda>s. (s, int (length (mg_pos s k))))),
      geo_ping = (\<lambda>s. (s, None)),
      geo_rand = (\<lambda>b s. (s, 0)),
      geo_sleep = (\<lambda>d s. (s, None))\<rparr>"

lemma mg_view_faults [simp]:
  "mg_hits (s\<lparr>mg_faults := bs\<rparr>) = mg_hits s" "mg_position (s\<lparr>mg_faults := bs\<rparr>) = mg_position s"
  "mg_ping (s\<lparr>mg_faults := bs\<rparr>) = mg_ping s"
  by (simp_all add: mg_hits_def mg_position_def mg_ping_def fun_eq_iff)

lemma mg_try_cases:
  assumes "mg_try f s = (s', x)"
  obtains (fault) e bs where "x = Inl e" "s' = s\<lparr>mg_faults := bs\<rparr>"
  | (run) s1 v bs where "f s = (s1, v)" "x = Inr v" "s' = s1\<lparr>mg_faults := bs\<rparr>"
  using assms by (auto simp: mg_try_def split: list.splits bool.splits prod.splits)

lemma map_of_fold_put: "map_of (fold (\<lambda>(m, v). assoc_put m v) rows xs) = map_of xs ++ map_of (rev rows)"
  by (induction rows arbitrary: xs) auto

lemma map_of_del: "map_of (filter (\<lambda>(m, _). m \<notin> set ms) xs) = map_of xs |` (- set ms)"
  by (induction xs) (auto simp: restrict_map_def fun_eq_iff)

lemma mg_put_view: "map_of (mg_put k rows f k') = (if k' = k then map_of (f k) ++ map_of (rev rows) else map_of (f k'))"
  by (simp add: mg_put_def map_of_fold_put)

lemma mg_del_view: "map_of (mg_del k ms f k') = (if k' = k then map_of (f k) |` (- set ms) else map_of (f k'))"
  by (simp add: mg_del_def map_of_del)

lemma run_until_error_steps: "run_until_error cs s = (s', e) \<Longrightarrow> (step_of cs)\<^sup>*\<^sup>* s s'"
proof (induction cs arbitrary: s)
  case (Cons c cs)
  obtain s1 x where c: "c s = (s1, x)" by force
  then have one: "step_of (c # cs) s s1" by (auto simp: step_of_def intro!: bexI [of _ c])
  have mono: "(step_of cs)\<^sup>*\<^sup>* t t' \<Longrightarrow> (step_of (c # cs))\<^sup>*\<^sup>* t t'" for t t'
    by (erule mono_rtranclp [rule_format, rotated]) (auto simp: step_of_def)
  show ?case
  proof (cases x)
    case None
    with Cons c have "(step_of cs)\<^sup>*\<^sup>* s1 s'" by simp
    with one mono show ?thesis by (meson converse_rtranclp_into_rtranclp)
  next
    case (Some y)
    with Cons.prems c one show ?thesis by auto
  qed
qed simp

interpretation memg: redis_geo mem_geo_client mg_hits mg_position mg_ping
proof (unfold_locales, goal_cases)
  case (1 k q n s s' x)
  then show ?case by (auto simp: mem_geo_client_def elim!: mg_try_cases)
next
  case (2 k qs s s' pe cs)
  then show ?case by (auto simp: mem_geo_client_def)
next
  case (3 k ms s s' y)
  then show ?case by (auto simp: mem_geo_client_def elim!: mg_try_cases)
next
  case (4 k c n s s' z)
  then show ?case
    by (auto simp: mem_geo_client_def dest!: in_set_takeD elim!: mg_try_cases)
next
  case (5 b s s' j)
  then show ?case by (simp add: mem_geo_client_def)
next
  case (6 b s s' w)
  then show ?case by (simp add: mem_geo_client_def)
next
  case (7 k ms s s')
  then show ?case
    by (auto simp: mem_geo_client_def mg_position_def mg_ping_def mg_del_view fun_eq_iff
        elim!: as_cmd_cases mg_try_cases)
next
  case (8 k ms s s' e)
  then show ?case by (auto simp: mem_geo_client_def elim!: as_cmd_cases mg_try_cases)
next
  case (9 k rows s s')
  then show ?case
    by (auto simp: mem_geo_client_def mg_position_def mg_ping_def mg_put_view fun_eq_iff
        elim!: as_cmd_cases mg_try_cases)
next
  case (10 k vs s s')
  then show ?case
    by (auto simp: mem_geo_client_def mg_position_def mg_ping_def mg_put_view fun_eq_iff
        elim!: as_cmd_cases mg_try_cases)
next
  case (11 cmds s s' e')
  then show ?case by (simp add: mem_geo_client_def run_until_error_steps)
next
  case (12 cmds s s')
  then show ?case by (simp add: mem_geo_client_def run_until_error_ok)
qed

definition mem_repo :: "mem_geo RedisRepository" where
  "mem_repo = \<lparr>lr_client = mem_geo_client, lr_opts = (DefaultOptions mg_clock)\<lparr>lo_TenantID := ''acme''\<rparr>\<rparr>"

lemma mem_repo_sel [simp]:
  "lr_client mem_repo = mem_geo_client" "lo_TenantID (lr_opts mem_repo) = ''acme''"
  "lo_TTL (lr_opts mem_repo) = 30 * second" "lo_MaxRetries (lr_opts mem_repo) = 3"
  "lo_Now (lr_opts mem_repo) = mg_clock"
  by (simp_all add: mem_repo_def DefaultOptions_def)

interpretation mems: location_store mem_repo mg_hits mg_position mg_ping
  by (simp add: location_store_def memg.redis_geo_axioms)

text \<open>A fleet of two drivers: \<open>d1\<close> pinged just now, \<open>d2\<close> a minute ago.\<close>

definition fleet :: mem_geo where
  "fleet = \<lparr>mg_pos = (\<lambda>k. if k = ''drivers:geo:acme'' then [(''d2'', Fin 1, Fin 1), (''d1'', Fin 2, Fin 2)] else []),
     mg_score = (\<lambda>k. if k = ''drivers:seen:acme'' then [(''d2'', 0), (''d1'', 60000)] else []),
     mg_faults = [True, False], mg_clock = 60 * second\<rparr>"

definition near_q :: Query where
  "near_q = \<lparr>q_Lat = Fin 1, q_Lng = Fin 1, q_Radius = Fin 5, q_Limit = 8\<rparr>"

section \<open>The properties\<close>



text \<open>C17. \<open>Nearby\<close> never returns a driver that stopped pinging: its answer is, in order and without
  gaps, the first \<open>Limit\<close> hits of the radius search whose recorded ping is at or after the cutoff;
  a driver in the geo index without a recorded ping counts as never seen.\<close>

theorem nearby_only_fresh:
  assumes "location_store r hits pos score" "Nearby r q s = (s', Inr ds)"
  shows "ds = nearby_spec [] (cutoff r s') (nat (query_limit q)) (ping_score score r s)
      (hits s (geoKey r) q (query_fetch q)) \<and>
    (\<forall>d\<in>set ds. unix_milli (LastSeen d) = ping_score score r s (DriverID d) \<and>
      cutoff r s' \<le> unix_milli (LastSeen d)) \<and>
    int (length ds) \<le> query_limit q"
proof (intro conjI)
  show e: "ds = nearby_spec [] (cutoff r s') (nat (query_limit q)) (ping_score score r s)
      (hits s (geoKey r) q (query_fetch q))"
    using location_store.Nearby_result [OF assms] by blast
  show "\<forall>d\<in>set ds. unix_milli (LastSeen d) = ping_score score r s (DriverID d) \<and>
      cutoff r s' \<le> unix_milli (LastSeen d)"
    unfolding e by (auto simp: nearby_spec_def dest!: in_set_takeD)
  have "length ds \<le> nat (query_limit q)" unfolding e by (simp add: nearby_spec_def)
  with query_limit_pos [of q] show "int (length ds) \<le> query_limit q" by linarith
qed

theorem nearby_only_fresh_witness:
  "case Nearby mem_repo near_q fleet of
     (s', Inl _) \<Rightarrow> False
   | (s', Inr ds) \<Rightarrow> ds \<noteq> [] \<and> (\<forall>d\<in>set ds. cutoff mem_repo s' \<le> unix_milli (LastSeen d))"
proof -
  have ne: "case snd (Nearby mem_repo near_q fleet) of Inl _ \<Rightarrow> False | Inr ds \<Rightarrow> ds \<noteq> []" by code_simp
  obtain s' x where n: "Nearby mem_repo near_q fleet = (s', x)" by force
  with ne obtain ds where x: "x = Inr ds" "ds \<noteq> []" by (cases x) auto
  with n have "Nearby mem_repo near_q fleet = (s', Inr ds)" by simp
  then have "\<forall>d\<in>set ds. cutoff mem_repo s' \<le> unix_milli (LastSeen d)"
    using nearby_only_fresh [OF mems.location_store_axioms] by blast
  with n x show ?thesis by (simp only: prod.case sum.case simp_thms not_False_eq_True)
qed




definition fresh_ping :: DriverLocation where
  "fresh_ping = \<lparr>dl_TenantID = ''acme'', DriverID = ''d3'', dl_Lat = Fin 3, dl_Lng = Fin 4,
     DistanceMeters = Fin 0, LastSeen = zero_time\<rparr>"


text \<open>\<open>UpsertMany\<close> validates the whole batch before it writes: one ping with an empty driver id
  or coordinates outside the Mercator range makes it return an error and write nothing, however
  many valid pings the batch holds.\<close>

theorem upsert_rejects_whole_batch:
  assumes "\<exists>l\<in>set ls. DriverID l = [] \<or> out_of_mercator l"
  shows "\<exists>e. UpsertMany pf r ls s = (s, Some (Errorf e))"
proof -
  have "\<exists>e. upsert_rows pf now ls = Inl (Errorf e)" for now
    using assms
  proof (induction ls)
    case (Cons a ls)
    show ?case
    proof (cases "DriverID a = [] \<or> out_of_mercator a")
      case False
      with Cons obtain e where "upsert_rows pf now ls = Inl (Errorf e)" by auto
      with False show ?thesis by simp
    qed auto
  qed simp
  then obtain e where "upsert_rows pf (lo_Now (lr_opts r) s) ls = Inl (Errorf e)" by blast
  moreover have "ls \<noteq> []" using assms by auto
  ultimately show ?thesis by (simp add: UpsertMany_def)
qed

theorem upsert_rejects_whole_batch_witness:
  "\<exists>e. UpsertMany (\<lambda>_. ''0'') mem_repo [fresh_ping, fresh_ping\<lparr>dl_Lat := Fin 86\<rparr>] fleet = (fleet, Some (Errorf e))"
  by (rule upsert_rejects_whole_batch) (simp add: out_of_mercator_def fresh_ping_def)

text \<open>\<open>withRetry\<close> is bounded: counting the runs of the operation with any counter that backoff
  leaves alone, there is at least one and at most \<open>MaxRetries + 1\<close>, and an error that is not
  retryable is returned from the first run as it is.\<close>

theorem with_retry_bounded:
  fixes count :: "'s \<Rightarrow> nat"
  assumes "0 \<le> lo_MaxRetries (lr_opts r)"
    and "\<And>t. count (fst (opn t)) = Suc (count t)"
    and "\<And>d t. count (fst (geo_rand (lr_client r) d t)) = count t"
    and "\<And>d t. count (fst (geo_sleep (lr_client r) d t)) = count t"
  shows "count s < count (fst (withRetry r opn s)) \<and>
    int (count (fst (withRetry r opn s))) \<le> int (count s) + lo_MaxRetries (lr_opts r) + 1 \<and>
    (\<forall>s1 e. opn s = (s1, Inl e) \<and> \<not> retryable (Some e) \<longrightarrow> withRetry r opn s = (s1, Inl e))"
proof (intro conjI allI impI)
  have w: "withRetry r opn s = retry_loop r (nat (lo_MaxRetries (lr_opts r))) (10 * millisecond) opn s"
    using assms(1) by (simp add: withRetry_def)
  note c = retry_loop_count [of count opn r s "nat (lo_MaxRetries (lr_opts r))" "10 * millisecond",
      OF assms(2-4)]
  show "count s < count (fst (withRetry r opn s))" using c unfolding w by simp
  show "int (count (fst (withRetry r opn s))) \<le> int (count s) + lo_MaxRetries (lr_opts r) + 1"
    using c assms(1) unfolding w by linarith
  show "withRetry r opn s = (s1, Inl e)" if "opn s = (s1, Inl e) \<and> \<not> retryable (Some e)" for s1 e
    using that unfolding w by (subst retry_loop.simps) simp
qed

definition failing_ping :: "mem_geo \<Rightarrow> mem_geo \<times> (goerr + unit)" where
  "failing_ping s = (s\<lparr>mg_faults := False # mg_faults s\<rparr>, Inl (NetError ''i/o timeout''))"

theorem with_retry_bounded_witness:
  "length (mg_faults (fst (withRetry mem_repo failing_ping fleet))) \<le> 6 \<and>
   retryable (Some (NetError ''i/o timeout''))"
  using with_retry_bounded [of mem_repo "\<lambda>t. length (mg_faults t)" failing_ping fleet]
  by (simp add: failing_ping_def mem_geo_client_def) (simp add: fleet_def)

end
