(* ===== verification/Pipeline_Properties.thy ===== *)
theory Pipeline_Properties
  imports Pipeline Locations_Properties
begin

text \<open>
  The buffer: bounded and well formed along every interleaving, and after any sequence of pings
  exactly the latest position of each of the first \<open>MaxBufferedDrivers\<close> drivers. The flush: every
  tenant's positions go to that tenant's own store, whatever happens to the others; and what a
  pipeline with one store does with the pings of several tenants.
\<close>

section \<open>The buffer\<close>

definition entry_ok :: "string \<times> DriverLocation \<Rightarrow> bool" where
  "entry_ok e \<longleftrightarrow> fst e = bufKey (dl_TenantID (snd e)) (DriverID (snd e))"

definition buffer_ok :: "'s Pipeline \<Rightarrow> pipe_state \<Rightarrow> bool" where
  "buffer_ok p ps \<longleftrightarrow> distinct (map fst (pb_buffer ps)) \<and> (\<forall>e\<in>set (pb_buffer ps). entry_ok e) \<and>
     int (length (pb_buffer ps)) \<le> max 0 (pc_MaxBufferedDrivers (pp_cfg p))"

lemma set_assoc_put: "set (assoc_put k v m) \<subseteq> insert (k, v) (set m)"
  by (auto simp: assoc_put_def split: if_splits)

lemma accept_buffer_ok:
  assumes "Accept p ping (ps, s) = ((ps', s'), e)" "buffer_ok p ps"
  shows "buffer_ok p ps' \<and> s' = s"
proof -
  let ?k = "bufKey (pg_TenantID ping) (pg_DriverID ping)" and ?l = "location_of ping (pc_Now (pp_cfg p) s)"
  have k: "entry_ok (?k, ?l)" by (simp add: entry_ok_def location_of_def)
  show ?thesis
  proof (cases "?k \<notin> fst ` set (pb_buffer ps) \<and> pc_MaxBufferedDrivers (pp_cfg p) \<le> int (length (pb_buffer ps))")
    case True
    with assms show ?thesis by (auto simp: Accept_def buffer_ok_def)
  next
    case False
    then have ps': "pb_buffer ps' = assoc_put ?k ?l (pb_buffer ps)" "s' = s"
      using assms(1) by (auto simp: Accept_def Let_def split: if_splits)
    have "\<forall>e\<in>set (assoc_put ?k ?l (pb_buffer ps)). entry_ok e"
      using set_assoc_put k assms(2) by (fastforce simp: buffer_ok_def)
    with False assms(2) ps' show ?thesis
      by (auto simp: buffer_ok_def distinct_assoc_put length_assoc_put)
  qed
qed

lemma flush_empties:
  assumes "flush p (ps, s) = ((ps', s'), stats)"
  shows "pb_buffer ps' = [] \<and> pb_windows ps' = pb_windows ps + 1 \<and> pb_pings ps' = pb_pings ps \<and> pb_shed ps' = pb_shed ps"
  using assms by (auto simp: flush_def Let_def split: if_splits prod.splits)

lemma pipeline_step_ok:
  assumes "pipeline_step p a b" "buffer_ok p (fst (snd a))"
  shows "buffer_ok p (fst (snd b))"
  using assms(1)
proof cases
  case (accepts ping st st' e running)
  then show ?thesis using accept_buffer_ok [of p ping "fst st" "snd st" "fst st'" "snd st'" e] assms(2) by simp
next
  case (ticks st st' stats)
  then show ?thesis using flush_empties [of p "fst st" "snd st" "fst st'" "snd st'" stats] by (simp add: buffer_ok_def)
next
  case (cancelled st st' stats)
  then show ?thesis using flush_empties [of p "fst st" "snd st" "fst st'" "snd st'" stats] by (simp add: buffer_ok_def)
next
  case (flushes st st' err running)
  obtain stats where "flush p st = (st', stats)" using flushes by (auto simp: Flush_def split: prod.splits)
  then show ?thesis using flush_empties [of p "fst st" "snd st" "fst st'" "snd st'" stats] flushes by (simp add: buffer_ok_def)
next
  case (world_moves running ps s s')
  then show ?thesis using assms(2) by simp
qed

section \<open>A window of pings\<close>

text \<open>The pings of one window, each with the world it arrived in.\<close>

fun accept_all :: "'s Pipeline \<Rightarrow> (Ping \<times> 's) list \<Rightarrow> pipe_state \<Rightarrow> pipe_state" where
  "accept_all p [] ps = ps"
| "accept_all p ((ping, s) # xs) ps = accept_all p xs (fst (fst (Accept p ping (ps, s))))"

abbreviation ping_key :: "Ping \<times> 's \<Rightarrow> string" where
  "ping_key x \<equiv> bufKey (pg_TenantID (fst x)) (pg_DriverID (fst x))"

definition first_seen :: "string list \<Rightarrow> string list" where
  "first_seen ks = foldl (\<lambda>acc k. if k \<in> set acc then acc else acc @ [k]) [] ks"

lemma first_seen_snoc: "first_seen (ks @ [k]) = (if k \<in> set (first_seen ks) then first_seen ks else first_seen ks @ [k])"
  by (simp add: first_seen_def)

lemma accept_all_snoc:
  "accept_all p (xs @ [(ping, s)]) ps = fst (fst (Accept p ping (accept_all p xs ps, s)))"
  by (induction p xs ps rule: accept_all.induct) auto

lemma take_first_seen_snoc:
  assumes "u' = (if k \<in> set u then u else u @ [k])"
  shows "take n u' = (if k \<in> set (take n u) \<or> n \<le> length (take n u) then take n u else take n u @ [k])"
proof (cases "k \<in> set u \<or> n \<le> length u")
  case True
  then show ?thesis using assms by (auto simp: min_def dest: in_set_takeD)
next
  case False
  then have "Suc 0 \<le> n - length u" by linarith
  with False show ?thesis using assms by simp
qed

lemma accept_all_window:
  assumes "0 \<le> pc_MaxBufferedDrivers (pp_cfg p)" "pb_buffer ps = []"
  shows "map fst (pb_buffer (accept_all p xs ps)) =
      take (nat (pc_MaxBufferedDrivers (pp_cfg p))) (first_seen (map ping_key xs)) \<and>
    (\<forall>k l. map_of (pb_buffer (accept_all p xs ps)) k = Some l \<longrightarrow>
       (\<exists>ping s. find (\<lambda>x. ping_key x = k) (rev xs) = Some (ping, s) \<and> l = location_of ping (pc_Now (pp_cfg p) s))) \<and>
    pb_pings (accept_all p xs ps) + pb_shed (accept_all p xs ps) = pb_pings ps + pb_shed ps + int (length xs)"
proof (induction xs rule: rev_induct)
  case Nil
  with assms show ?case by (simp add: first_seen_def)
next
  case (snoc x xs)
  obtain ping s where x: "x = (ping, s)" by force
  define q where "q = accept_all p xs ps"
  define n where "n = nat (pc_MaxBufferedDrivers (pp_cfg p))"
  define u where "u = first_seen (map ping_key xs)"
  define k where "k = bufKey (pg_TenantID ping) (pg_DriverID ping)"
  have keys: "map fst (pb_buffer q) = take n u" using snoc.IH by (simp add: q_def n_def u_def)
  have len: "length (pb_buffer q) = length (take n u)" using arg_cong [OF keys, of length] by simp
  have mem: "k \<in> fst ` set (pb_buffer q) \<longleftrightarrow> k \<in> set (take n u)" unfolding keys [symmetric] by simp
  have full: "pc_MaxBufferedDrivers (pp_cfg p) \<le> int (length (pb_buffer q)) \<longleftrightarrow> n \<le> length (take n u)"
    using assms(1) len by (auto simp: n_def nat_le_iff min_def)
  note u' = take_first_seen_snoc [OF first_seen_snoc [of "map ping_key xs" k], of n, folded u_def]
  have r: "accept_all p (xs @ [x]) ps = fst (fst (Accept p ping (q, s)))" by (simp add: x accept_all_snoc q_def)
  show ?case
  proof (cases "k \<notin> set (take n u) \<and> n \<le> length (take n u)")
    case True
    then have a: "accept_all p (xs @ [x]) ps = q\<lparr>pb_shed := pb_shed q + 1\<rparr>"
      using mem full by (simp add: r Accept_def Let_def k_def)
    have "map_of (pb_buffer q) k = None" using True mem by (simp add: map_of_eq_None_iff)
    with True a snoc.IH keys u' show ?thesis by (auto simp: x k_def q_def n_def u_def)
  next
    case False
    then have a: "accept_all p (xs @ [x]) ps =
        q\<lparr>pb_buffer := assoc_put k (location_of ping (pc_Now (pp_cfg p) s)) (pb_buffer q), pb_pings := pb_pings q + 1\<rparr>"
      using mem full by (auto simp: r Accept_def Let_def k_def)
    have "map fst (assoc_put k (location_of ping (pc_Now (pp_cfg p) s)) (pb_buffer q)) = take n (first_seen (map ping_key xs @ [k]))"
      unfolding assoc_put_keys keys mem u' using False by auto
    with a snoc.IH show ?thesis by (auto simp: x k_def q_def n_def)
  qed
qed

section \<open>Groups\<close>

lemma map_of_group_add:
  "map_of (group_add m l) t = (if t = dl_TenantID l then Some ((case map_of m t of None \<Rightarrow> [] | Some ls \<Rightarrow> ls) @ [l]) else map_of m t)"
  by (simp add: group_add_def)

lemma byTenant_groups:
  "distinct (map fst (byTenant ls)) \<and>
   map_of (byTenant ls) t = (let mine = filter (\<lambda>l. dl_TenantID l = t) ls in if mine = [] then None else Some mine)"
proof (induction ls arbitrary: t rule: rev_induct)
  case Nil
  then show ?case by (simp add: byTenant_def)
next
  case (snoc l ls)
  have s: "byTenant (ls @ [l]) = group_add (byTenant ls) l" by (simp add: byTenant_def)
  have "distinct (map fst (group_add (byTenant ls) l))"
    using snoc.IH [of t] by (simp add: group_add_def distinct_assoc_put)
  then show ?case unfolding s map_of_group_add using snoc.IH [of t]
    by (auto simp: Let_def split: option.splits if_splits)
qed

lemma write_groups_append:
  "write_groups p (a @ b) err s = (let (s1, e) = write_groups p a err s in write_groups p b e s1)"
  by (induction p a err s rule: write_groups.induct) (auto split: prod.splits)

lemma write_groups_frame:
  assumes "\<And>t ls u. (t, ls) \<in> set gs \<Longrightarrow> obs (fst (repo_UpsertMany (tenant_store p t) ls u)) = obs u"
  shows "obs (fst (write_groups p gs err s)) = obs s"
  using assms
proof (induction gs arbitrary: err s)
  case (Cons g gs)
  obtain t ls where g: "g = (t, ls)" by force
  obtain s1 e where u: "repo_UpsertMany (tenant_store p t) ls s = (s1, e)" by force
  have "obs s1 = obs s" using Cons.prems [of t ls s] g u by simp
  with Cons g u show ?case by simp
qed simp

section \<open>The properties\<close>

text \<open>C33. The buffer is always bounded and well formed: along every interleaving of pings, ticks,
  explicit flushes and shutdown, it holds at most \<open>MaxBufferedDrivers\<close> entries, one per key, each
  under the key of its own tenant and driver; and keys of tenants without a NUL byte never collide.\<close>

theorem buffer_wellformed:
  assumes "(pipeline_step p)\<^sup>*\<^sup>* (True, empty_pipe, s) (running, ps, s')"
    and "CHR 0x00 \<notin> set t" "CHR 0x00 \<notin> set t'"
  shows "buffer_ok p ps \<and> (bufKey t d = bufKey t' d' \<longleftrightarrow> t = t' \<and> d = d')"
proof
  have "buffer_ok p (fst (snd (True, empty_pipe, s)))" by (simp add: buffer_ok_def empty_pipe_def)
  with assms(1) have "buffer_ok p (fst (snd (running, ps, s')))"
    by (induction rule: rtranclp_induct) (auto dest: pipeline_step_ok simp del: fst_conv snd_conv)
  then show "buffer_ok p ps" by simp
  have "takeWhile (\<lambda>c. c \<noteq> CHR 0x00) (bufKey a x) = a" if "CHR 0x00 \<notin> set a" for a x
    using that by (auto simp: bufKey_def takeWhile_append)
  then show "bufKey t d = bufKey t' d' \<longleftrightarrow> t = t' \<and> d = d'"
    using assms(2,3) by (metis append_same_eq bufKey_def same_append_eq)
qed

definition two_pings :: "(Ping \<times> unit) list" where
  "two_pings =
     [(\<lparr>pg_TenantID = ''acme'', pg_DriverID = ''d1'', pg_Lat = Fin 1, pg_Lng = Fin 1, pg_SentAtUnixMs = 0\<rparr>, ()),
      (\<lparr>pg_TenantID = ''acme'', pg_DriverID = ''d2'', pg_Lat = Fin 2, pg_Lng = Fin 2, pg_SentAtUnixMs = 0\<rparr>, ()),
      (\<lparr>pg_TenantID = ''acme'', pg_DriverID = ''d1'', pg_Lat = Fin 3, pg_Lng = Fin 3, pg_SentAtUnixMs = 0\<rparr>, ())]"

definition small_pipeline :: "unit Pipeline" where
  "small_pipeline = \<lparr>pp_cfg = (PipelineDefaultConfig (\<lambda>_. 7))\<lparr>pc_MaxBufferedDrivers := 1\<rparr>, pp_store = noopStore,
     pp_storeFor = None, pp_iter_buffer = (\<lambda>x. x), pp_iter_tenants = (\<lambda>x. x), pp_wall = (\<lambda>_. 0)\<rparr>"

theorem buffer_wellformed_witness:
  "buffer_ok small_pipeline (fst (fst (Accept small_pipeline (fst (hd two_pings)) (empty_pipe, ())))) \<and>
     bufKey ''a'' ''b'' \<noteq> bufKey ''ab'' []"
proof -
  let ?x = "Accept small_pipeline (fst (hd two_pings)) (empty_pipe, ())"
  have "pipeline_step small_pipeline (True, empty_pipe, ()) (True, fst ?x)"
    by (rule pipeline_step.accepts) (rule prod.collapse [symmetric])
  then have "(pipeline_step small_pipeline)\<^sup>*\<^sup>* (True, empty_pipe, ()) (True, fst (fst ?x), snd (fst ?x))"
    unfolding prod.collapse by (rule r_into_rtranclp)
  from buffer_wellformed [OF this, of "''a''" "''ab''" "''b''" "[]"] show ?thesis by simp
qed

text \<open>C31. Coalescing and shedding, exactly: after any sequence of pings in a window the buffer holds
  the first \<open>MaxBufferedDrivers\<close> distinct drivers in the order of their first ping, each at the
  position of its latest ping stamped with the server's clock, and every ping was either counted as
  accepted or as shed.\<close>

theorem buffer_coalesces:
  assumes "0 \<le> pc_MaxBufferedDrivers (pp_cfg p)" "pb_buffer ps = []"
  shows "map fst (pb_buffer (accept_all p xs ps)) =
      take (nat (pc_MaxBufferedDrivers (pp_cfg p))) (first_seen (map ping_key xs)) \<and>
    (\<forall>k l. map_of (pb_buffer (accept_all p xs ps)) k = Some l \<longrightarrow>
       (\<exists>ping s. find (\<lambda>x. ping_key x = k) (rev xs) = Some (ping, s) \<and> l = location_of ping (pc_Now (pp_cfg p) s))) \<and>
    pb_pings (accept_all p xs ps) + pb_shed (accept_all p xs ps) = pb_pings ps + pb_shed ps + int (length xs)"
  by (rule accept_all_window [OF assms])

theorem buffer_coalesces_witness:
  "map fst (pb_buffer (accept_all small_pipeline two_pings empty_pipe)) = [bufKey ''acme'' ''d1''] \<and>
   pb_pings (accept_all small_pipeline two_pings empty_pipe) + pb_shed (accept_all small_pipeline two_pings empty_pipe) = 3"
proof -
  have "0 \<le> pc_MaxBufferedDrivers (pp_cfg small_pipeline)" "pb_buffer empty_pipe = []"
    by (simp_all add: small_pipeline_def empty_pipe_def)
  from buffer_coalesces [OF this, of two_pings] show ?thesis
    by (simp add: small_pipeline_def two_pings_def first_seen_def bufKey_def empty_pipe_def)
qed

text \<open>C32. A flush keeps tenants apart. In a pipeline made by \<open>NewMultiTenant\<close>, when the other tenants'
  stores do not touch what \<open>obs\<close> observes of tenant \<open>t\<close>, a flush, whatever errors the others return,
  writes exactly the buffered positions of \<open>t\<close> to the store of \<open>t\<close> in one call, and the buffer is
  empty afterwards.\<close>

theorem flush_isolates_tenants:
  assumes "NewMultiTenant dur iterB iterT wall (Some f) cfg = Inr p" "pc_OnWindow cfg = None"
    and "\<And>xs. mset (iterB xs) = mset xs" "\<And>gs. mset (iterT gs) = mset gs"
    and "\<And>t' ls u. t' \<noteq> t \<Longrightarrow> obs (fst (repo_UpsertMany (f t') ls u)) = obs u"
    and "flush p (ps, s) = ((ps', s'), stats)"
    and "filter (\<lambda>l. dl_TenantID l = t) (map snd (pb_buffer ps)) \<noteq> []"
  shows "pb_buffer ps' = [] \<and>
    (\<exists>ls u. mset ls = mset (filter (\<lambda>l. dl_TenantID l = t) (map snd (pb_buffer ps))) \<and> obs u = obs s \<and>
       obs s' = obs (fst (repo_UpsertMany (f t) ls u)))"
proof
  show "pb_buffer ps' = []" using flush_empties [OF assms(6)] by blast
  have p: "pp_storeFor p = Some f" "pp_iter_buffer p = iterB" "pp_iter_tenants p = iterT" "pc_OnWindow (pp_cfg p) = None"
    using assms(1,2) by (auto simp: NewMultiTenant_def NewPipeline_def pipeline_applyDefaults_def Let_def
        split: if_splits option.splits sum.splits)
  define batch where "batch = map snd (iterB (pb_buffer ps))"
  define gs where "gs = iterT (byTenant batch)"
  define mine where "mine = filter (\<lambda>l. dl_TenantID l = t) batch"
  have batch: "mset batch = mset (map snd (pb_buffer ps))" by (simp add: batch_def assms(3))
  then have m: "mset mine = mset (filter (\<lambda>l. dl_TenantID l = t) (map snd (pb_buffer ps)))"
    by (simp add: mine_def)
  then have "mine \<noteq> []" using assms(7) by (metis mset_zero_iff)
  then have "map_of (byTenant batch) t = Some mine" using byTenant_groups [of batch t] by (simp add: mine_def)
  then have "(t, mine) \<in> set gs" using assms(4) [of "byTenant batch"] by (metis gs_def map_of_SomeD set_mset_mset)
  moreover have "distinct (map fst gs)"
    using byTenant_groups [of batch t] assms(4) [of "byTenant batch"] by (metis gs_def mset_eq_imp_distinct_iff mset_map)
  moreover from calculation(1) obtain a b where gs: "gs = a @ (t, mine) # b" by (meson split_list)
  ultimately have ab: "t \<notin> fst ` set a" "t \<notin> fst ` set b" by auto
  have frame: "obs (fst (write_groups p xs err u)) = obs u" if "t \<notin> fst ` set xs" for xs err u
  proof (rule write_groups_frame)
    show "obs (fst (repo_UpsertMany (tenant_store p t') ls v)) = obs v" if "(t', ls) \<in> set xs" for t' ls v
    proof -
      have "t' \<noteq> t" using \<open>t \<notin> fst ` set xs\<close> that by force
      then show ?thesis using assms(5) [of t'] by (simp add: tenant_store_def p)
    qed
  qed
  obtain s1 e1 where s1: "write_groups p a None s = (s1, e1)" by force
  obtain s2 e2 where s2: "repo_UpsertMany (f t) mine s1 = (s2, e2)" by force
  have "pb_buffer ps \<noteq> []" using assms(7) by auto
  then have "s' = fst (write_groups p gs None s)"
    using assms(6) by (auto simp: flush_def Let_def on_window_def p gs_def batch_def split: prod.splits)
  then have "obs s' = obs s2" using frame [OF ab(2)] s1 s2 by (simp add: gs write_groups_append tenant_store_def p)
  moreover have "obs s1 = obs s" using frame [OF ab(1), of None s] s1 by simp
  ultimately show "\<exists>ls u. mset ls = mset (filter (\<lambda>l. dl_TenantID l = t) (map snd (pb_buffer ps))) \<and> obs u = obs s \<and>
       obs s' = obs (fst (repo_UpsertMany (f t) ls u))"
    using m s2 by (intro exI [of _ mine] exI [of _ s1]) simp
qed

text \<open>Two tenants with a store each: the world is what each store was last given. The store of the
  tenant \<open>down\<close> refuses every write.\<close>

definition told_store :: "string \<Rightarrow> (string \<Rightarrow> DriverLocation list) Repository" where
  "told_store t = noopStore\<lparr>repo_UpsertMany := (\<lambda>ls w. if t = ''down'' then (w, Some (NetError ''refused'')) else (w(t := ls), None))\<rparr>"

definition told_pipeline :: "(string \<Rightarrow> DriverLocation list) Pipeline" where
  "told_pipeline = \<lparr>pp_cfg = PipelineDefaultConfig (\<lambda>_. 7), pp_store = noopStore, pp_storeFor = Some told_store,
     pp_iter_buffer = (\<lambda>x. x), pp_iter_tenants = (\<lambda>x. x), pp_wall = (\<lambda>_. 0)\<rparr>"

definition mixed_window :: pipe_state where
  "mixed_window = empty_pipe\<lparr>pb_buffer := map (\<lambda>t. (bufKey t ''d1'',
     location_of \<lparr>pg_TenantID = t, pg_DriverID = ''d1'', pg_Lat = Fin 1, pg_Lng = Fin 1, pg_SentAtUnixMs = 0\<rparr> 7)) [''down'', ''acme'']\<rparr>"

theorem flush_isolates_tenants_witness:
  "map DriverID (snd (fst (flush told_pipeline (mixed_window, \<lambda>_. []))) ''acme'') = [''d1'']"
proof -
  let ?f = "flush told_pipeline (mixed_window, \<lambda>_. [])"
  have n: "NewMultiTenant (\<lambda>_. []) (\<lambda>x. x) (\<lambda>x. x) (\<lambda>_. 0) (Some told_store) (PipelineDefaultConfig (\<lambda>_. 7)) = Inr told_pipeline"
    by (simp add: NewMultiTenant_def NewPipeline_def pipeline_applyDefaults_def PipelineDefaultConfig_def told_pipeline_def Let_def)
  have f: "?f = ((fst (fst ?f), snd (fst ?f)), snd ?f)" by simp
  have mine: "filter (\<lambda>l. dl_TenantID l = ''acme'') (map snd (pb_buffer mixed_window)) = [snd (pb_buffer mixed_window ! 1)]"
    by (simp add: mixed_window_def location_of_def)
  have "\<exists>ls u. mset ls = mset [snd (pb_buffer mixed_window ! 1)] \<and>
      snd (fst ?f) ''acme'' = fst (repo_UpsertMany (told_store ''acme'') ls u) ''acme''"
    using flush_isolates_tenants [where obs = "\<lambda>w. w ''acme''" and t = "''acme''", OF n _ _ _ _ f]
    unfolding mine by (auto simp: PipelineDefaultConfig_def told_store_def)
  then show ?thesis by (auto simp: told_store_def mixed_window_def location_of_def)
qed

text \<open>A pipeline with a single store mixes tenants. \<open>ingestd\<close> builds its pipeline with \<open>New\<close> and the
  store of its own tenant while connections authenticate as any tenant: a ping that a driver of
  another tenant sent is then found by a search in that tenant's fleet.\<close>

theorem single_store_mixes_tenants:
  "(case NewPipeline (\<lambda>_. []) (\<lambda>x. x) (\<lambda>x. x) mg_clock (Some (redis_repository (\<lambda>_. []) mem_repo))
           (PipelineDefaultConfig mg_clock) of
      Inl _ \<Rightarrow> False
    | Inr p \<Rightarrow>
        let (st, _) = Accept p \<lparr>pg_TenantID = ''rival'', pg_DriverID = ''r1'', pg_Lat = Fin 1, pg_Lng = Fin 1, pg_SentAtUnixMs = 0\<rparr>
              (empty_pipe, fleet);
            ((ps, s), stats) = flush p st
        in ws_FlushError stats = None \<and> lo_TenantID (lr_opts mem_repo) = ''acme'' \<and>
           (case snd (Nearby mem_repo near_q s) of Inl _ \<Rightarrow> False | Inr ds \<Rightarrow> ''r1'' \<in> set (map DriverID ds)))"
  by code_simp

end
