(* ===== verification/Ingest_Properties.thy ===== *)
theory Ingest_Properties
  imports Ingest
begin

text \<open>
  The concurrent server: what its counters mean in every reachable state, the bound on the
  connections, and shutdown. \<open>tokens\<close> and \<open>slots\<close> are what a thread holds of the wait group and of
  \<open>activeConns\<close>; \<open>effort\<close> bounds the steps it still takes.
\<close>

fun tokens :: "phase \<Rightarrow> int" where
  "tokens (Conn t h c w r) = (if h then 2 else 1)"
| "tokens _ = 1"

fun slots :: "phase \<Rightarrow> int" where
  "slots (Admitted _) = 0"
| "slots Leaving = 0"
| "slots _ = 1"

fun holds_connection :: "phase \<Rightarrow> bool" where
  "holds_connection (Reserved _) \<longleftrightarrow> True"
| "holds_connection (Upgrading _) \<longleftrightarrow> True"
| "holds_connection (Conn _ _ _ _ _) \<longleftrightarrow> True"
| "holds_connection _ \<longleftrightarrow> False"

fun effort :: "phase \<Rightarrow> nat" where
  "effort (Admitted _) = 9"
| "effort (Reserved _) = 8"
| "effort (Upgrading _) = 7"
| "effort Overflowed = 2"
| "effort Leaving = 1"
| "effort (Conn t h c w r) = 1 + of_bool h + 2 * of_bool w + 2 * of_bool r"

definition server_inv :: "'s IngestConfig \<Rightarrow> 's ingest_state \<Rightarrow> bool" where
  "server_inv cfg st \<longleftrightarrow>
     sv_wg (is_server st) = (\<Sum>p\<in>#is_threads st. tokens p) \<and>
     sv_active (is_server st) = (\<Sum>p\<in>#is_threads st. slots p) \<and>
     int (size (filter_mset holds_connection (is_threads st))) \<le> ic_MaxConnections cfg"

definition ingest_start :: "'s \<Rightarrow> 's ingest_state" where
  "ingest_start s = \<lparr>is_server = new_server, is_world = s, is_threads = {#}\<rparr>"

lemmas server_ops = admit_def wg_done_def free_slot_def reject_def reserve_def connected_def serve_end_def
  Shutdown_begin_def

lemma holds_le_slots: "int (size (filter_mset holds_connection T)) \<le> (\<Sum>p\<in>#T. slots p)"
proof (induction T)
  case (add p T)
  then show ?case by (cases p) auto
qed simp

lemma read_frame_counts:
  "read_frame unmarshal ftoa sink t data sv s = (sv', s', l) \<Longrightarrow>
     sv_wg sv' = sv_wg sv \<and> sv_active sv' = sv_active sv \<and> sv_closed sv' = sv_closed sv"
  by (auto simp: read_frame_def Let_def split: option.splits if_splits)

lemma ingest_step_inv:
  assumes "ingest_step cfg unmarshal ftoa sink ev st st'" "server_inv cfg st"
  shows "server_inv cfg st'"
  using assms
proof cases
  case (reserves sv sv' fits s r T)
  then show ?thesis using assms(2) holds_le_slots [of T]
    by (auto simp: server_inv_def server_ops Let_def)
next
  case (frame t data sv s sv' s' looked h c w T)
  from read_frame_counts [OF frame(4)] frame assms(2) show ?thesis by (auto simp: server_inv_def)
qed (auto simp: server_inv_def server_ops split: if_splits)

lemma ingest_inv:
  assumes "(\<lambda>a b. \<exists>ev. ingest_step cfg unmarshal ftoa sink ev a b)\<^sup>*\<^sup>* (ingest_start s) st" "0 \<le> ic_MaxConnections cfg"
  shows "server_inv cfg st"
  using assms(1)
proof induction
  case base
  with assms(2) show ?case by (simp add: server_inv_def ingest_start_def new_server_def)
next
  case (step a b)
  then show ?case using ingest_step_inv by blast
qed

lemma effort_pos: "1 \<le> effort p"
  by (cases p) auto

lemma tokens_pos: "0 < tokens p"
  by (cases p) auto

lemma tokens_sum_zero: "(\<Sum>p\<in>#T. tokens p) = 0 \<longleftrightarrow> T = {#}"
proof -
  have "0 \<le> (\<Sum>p\<in>#T. tokens p)" for T by (induction T) (use tokens_pos in \<open>auto intro: order_less_imp_le add_nonneg_nonneg\<close>)
  then show ?thesis using tokens_pos
    by (cases T) (auto, metis add_pos_nonneg less_irrefl)
qed

section \<open>Threads\<close>

text \<open>A pump that has ended has cancelled the context; with keys, the tenant of a stream is that of a
  key that was verified.\<close>

definition verified_tenant :: "'s IngestConfig \<Rightarrow> string \<Rightarrow> bool" where
  "verified_tenant cfg t \<longleftrightarrow>
     (case ic_Keys cfg of
        None \<Rightarrow> t = ic_TenantID cfg
      | Some keys \<Rightarrow> \<exists>raw now s s' k. Verify keys raw now s = (s', Some k, None) \<and> t = ak_TenantID k)"

fun thread_ok :: "'s IngestConfig \<Rightarrow> phase \<Rightarrow> bool" where
  "thread_ok cfg (Conn t h c w r) \<longleftrightarrow> (w \<and> r \<or> c) \<and> verified_tenant cfg t"
| "thread_ok cfg (Upgrading t) \<longleftrightarrow> verified_tenant cfg t"
| "thread_ok cfg _ \<longleftrightarrow> True"

lemma Verify_key: "Verify keys raw now s = (s', k, None) \<Longrightarrow> \<exists>key. k = Some key"
  by (auto simp: Verify_def Let_def split: sum.splits prod.splits if_splits)

lemma stream_tenant_verified:
  assumes "stream_tenant cfg r w s = (s', Inr t)"
  shows "verified_tenant cfg t"
proof (cases "ic_Keys cfg")
  case None
  with assms show ?thesis by (simp add: stream_tenant_def verified_tenant_def)
next
  case (Some keys)
  obtain s1 k e where v: "Verify keys (WebSocketKey r) (ic_Now cfg s) s = (s1, k, e)" by (metis prod.exhaust)
  have raw: "WebSocketKey r \<noteq> []" using assms Some by (auto simp: stream_tenant_def Let_def)
  have e: "e = None" using assms Some v raw by (cases e) (simp_all add: stream_tenant_def Let_def)
  obtain key where k: "k = Some key" using Verify_key [OF v [unfolded e]] by blast
  have "t = ak_TenantID key" using assms Some v raw e k by (simp add: stream_tenant_def Let_def)
  with v e k Some show ?thesis unfolding verified_tenant_def by (simp del: split_paired_Ex) blast
qed

lemma ingest_step_threads:
  assumes "ingest_step cfg unmarshal ftoa sink ev st st'" "\<forall>p\<in>#is_threads st. thread_ok cfg p"
  shows "\<forall>p\<in>#is_threads st'. thread_ok cfg p"
  using assms
proof cases
  case (authenticates r w s s' tenant sv T)
  with stream_tenant_verified assms(2) show ?thesis by fastforce
qed auto

abbreviation reachable :: "'s IngestConfig \<Rightarrow> (string \<Rightarrow> Ping option) \<Rightarrow> (float64 \<Rightarrow> string) \<Rightarrow> 's Sink option \<Rightarrow>
    's \<Rightarrow> 's ingest_state \<Rightarrow> bool" where
  "reachable cfg unmarshal ftoa sink s st \<equiv>
     (\<lambda>a b. \<exists>ev. ingest_step cfg unmarshal ftoa sink ev a b)\<^sup>*\<^sup>* (ingest_start s) st"

lemma ingest_threads:
  "reachable cfg unmarshal ftoa sink s st \<Longrightarrow> \<forall>p\<in>#is_threads st. thread_ok cfg p"
  by (induction rule: rtranclp_induct) (auto simp: ingest_start_def dest: ingest_step_threads)

section \<open>Shutdown\<close>

abbreviation total_effort :: "'s ingest_state \<Rightarrow> nat" where
  "total_effort st \<equiv> (\<Sum>p\<in>#is_threads st. effort p)"

lemma ingest_step_effort:
  assumes "ingest_step cfg unmarshal ftoa sink ev st st'" "sv_closed (is_server st)"
  shows "sv_closed (is_server st') \<and> total_effort st' + of_bool (ev \<in> {Lifecycle, Peer}) \<le> total_effort st"
  using assms
proof cases
  case (frame t data sv s sv' s' looked h c w T)
  from read_frame_counts [OF frame(4)] frame assms(2) show ?thesis by auto
next
  case (reserves sv sv' fits s r T)
  then show ?thesis using assms(2) by (auto simp: server_ops Let_def)
qed (auto simp: server_ops)

inductive ingest_run ::
  "'s IngestConfig \<Rightarrow> (string \<Rightarrow> Ping option) \<Rightarrow> (float64 \<Rightarrow> string) \<Rightarrow> 's Sink option \<Rightarrow>
     's ingest_state \<Rightarrow> ingest_event list \<Rightarrow> 's ingest_state \<Rightarrow> bool" for cfg unmarshal ftoa sink st where
    run_start: "ingest_run cfg unmarshal ftoa sink st [] st"
  | run_more: "ingest_run cfg unmarshal ftoa sink st evs a \<Longrightarrow> ingest_step cfg unmarshal ftoa sink ev a b \<Longrightarrow>
      ingest_run cfg unmarshal ftoa sink st (evs @ [ev]) b"

lemma ingest_run_effort:
  "ingest_run cfg unmarshal ftoa sink st evs st' \<Longrightarrow> sv_closed (is_server st) \<Longrightarrow>
     sv_closed (is_server st') \<and>
     total_effort st' + length (filter (\<lambda>ev. ev \<in> {Lifecycle, Peer}) evs) \<le> total_effort st"
proof (induction rule: ingest_run.induct)
  case (run_more evs a ev b)
  with ingest_step_effort [OF run_more.hyps(2)] show ?case by (cases "ev \<in> {Lifecycle, Peer}") auto
qed simp

lemma lifecycle_enabled:
  assumes "p \<in># is_threads st" "thread_ok cfg p" "sv_closed (is_server st)"
  shows "\<exists>st'. ingest_step cfg unmarshal ftoa sink Lifecycle st st'"
proof -
  obtain sv s T where st: "st = \<lparr>is_server = sv, is_world = s, is_threads = add_mset p T\<rparr>"
    using assms(1) by (metis ingest_state.surjective old.unit.exhaust insert_DiffM)
  have closed: "sv_closed sv" using assms(3) st by simp
  show ?thesis
  proof (cases p)
    case (Admitted r)
    then show ?thesis using st ingest_step.reserves [of cfg sv] by (metis prod.exhaust)
  next
    case (Reserved r)
    obtain s' x where x: "stream_tenant cfg r fresh_response s = (s', x)" by force
    show ?thesis
    proof (cases x)
      case (Inl w)
      with x have "stream_tenant cfg r fresh_response s = (s', Inl w)" by simp
      from ingest_step.refuses [OF this] show ?thesis unfolding st Reserved by blast
    next
      case (Inr t)
      with x have "stream_tenant cfg r fresh_response s = (s', Inr t)" by simp
      from ingest_step.authenticates [OF this] show ?thesis unfolding st Reserved by blast
    qed
  next
    case (Conn t h c w r)
    show ?thesis
    proof (cases w)
      case True
      have "c \<or> sv_closed sv" using closed by simp
      with True show ?thesis unfolding st Conn by (auto intro: ingest_step.writer_ends)
    next
      case False
      then have "c" using assms(2) Conn by simp
      with False show ?thesis unfolding st Conn by (cases r) (auto intro: ingest_step.reader_unblocked ingest_step.serve_ends)
    qed
  next
    case Overflowed
    show ?thesis unfolding st Overflowed by (rule exI, rule ingest_step.overflows)
  next
    case (Upgrading t)
    show ?thesis unfolding st Upgrading by (rule exI, rule ingest_step.upgrades)
  next
    case Leaving
    show ?thesis unfolding st Leaving by (rule exI, rule ingest_step.leaves)
  qed
qed

section \<open>The properties\<close>


definition open_config :: "unit IngestConfig" where
  "open_config = (IngestDefaultConfig (\<lambda>_. 0))\<lparr>ic_MaxConnections := 1, ic_TenantID := ''acme''\<rparr>"

definition driver_request :: request where
  "driver_request = \<lparr>hr_Method = ''GET'', hr_Path = ''/v1/drivers'', hr_Header = [], hr_Body = [], hr_RemoteAddr = [],
     ctx_apikey = None, ctx_request_id = None\<rparr>"

text \<open>One stream connects; a second request is over the limit.\<close>

definition busy_server :: "unit ingest_state" where
  "busy_server = \<lparr>is_server = \<lparr>sv_active = 2, sv_total = 1, sv_rejected = 0, sv_pings = 0, sv_pingsBad = 0, sv_wg = 3,
     sv_closed = False\<rparr>, is_world = (), is_threads = {#Overflowed, Conn ''acme'' True False True True#}\<rparr>"

lemma busy_server_reachable: "reachable open_config u f None () busy_server"
proof -
  define R where "R = (\<lambda>a b. \<exists>ev. ingest_step open_config u f None ev a b)"
  let ?sv = "\<lambda>a t w. \<lparr>sv_active = a, sv_total = t, sv_rejected = 0, sv_pings = 0, sv_pingsBad = 0, sv_wg = w, sv_closed = False\<rparr>"
  let ?st = "\<lambda>sv T. \<lparr>is_server = sv, is_world = (), is_threads = T\<rparr>"
  have r1: "R (?st (?sv 0 0 0) {#}) (?st (?sv 0 0 1) {#Admitted driver_request#})"
    unfolding R_def by (rule exI [of _ Arrival], rule ingest_step.arrives) (simp add: admit_def)
  have r2: "R (?st (?sv 0 0 1) {#Admitted driver_request#}) (?st (?sv 1 0 1) {#Reserved driver_request#})"
    unfolding R_def using ingest_step.reserves [of open_config "?sv 0 0 1" "?sv 1 0 1" True u f None "()" driver_request "{#}"]
    by (auto simp: reserve_def open_config_def)
  have r3: "R (?st (?sv 1 0 1) {#Reserved driver_request#}) (?st (?sv 1 0 1) {#Upgrading ''acme''#})"
    unfolding R_def by (rule exI [of _ Lifecycle], rule ingest_step.authenticates [of _ _ fresh_response])
      (simp add: stream_tenant_def open_config_def IngestDefaultConfig_def)
  have r4: "R (?st (?sv 1 0 1) {#Upgrading ''acme''#}) (?st (?sv 1 1 2) {#Conn ''acme'' True False True True#})"
    unfolding R_def using ingest_step.upgrades [of open_config u f None "?sv 1 0 1" "()" "''acme''" "{#}"] by (auto simp: connected_def)
  have r5: "R (?st (?sv 1 1 2) {#Conn ''acme'' True False True True#})
      (?st (?sv 1 1 3) {#Admitted driver_request, Conn ''acme'' True False True True#})"
    unfolding R_def by (rule exI [of _ Arrival], rule ingest_step.arrives) (simp add: admit_def)
  have r6: "R (?st (?sv 1 1 3) {#Admitted driver_request, Conn ''acme'' True False True True#}) busy_server"
    unfolding R_def using ingest_step.reserves [of open_config "?sv 1 1 3" "?sv 2 1 3" False u f None "()" driver_request
        "{#Conn ''acme'' True False True True#}"]
    by (auto simp: reserve_def open_config_def busy_server_def)
  note more = converse_rtranclp_into_rtranclp [of R]
  have "R\<^sup>*\<^sup>* (?st (?sv 0 0 0) {#}) busy_server"
    by (rule more [OF r1 more [OF r2 more [OF r3 more [OF r4 more [OF r5 more [OF r6 rtranclp.rtrancl_refl]]]]]])
  then show ?thesis unfolding R_def ingest_start_def new_server_def .
qed


text \<open>C29. Shutdown drains. Once \<open>Shutdown\<close> has been called, in every reachable state either the wait
  group is empty, and then \<open>Shutdown\<close> returns success with no thread left and \<open>activeConns\<close> 0, or the
  server itself can take a step; and no execution from there, however clients behave, contains
  more than a fixed number of steps other than the reading of frames, so the server gets there.\<close>

theorem shutdown_drains:
  assumes "reachable cfg unmarshal ftoa sink s st" "0 \<le> ic_MaxConnections cfg" "sv_closed (is_server st)"
  shows "(if sv_wg (is_server st) = 0
      then is_threads st = {#} \<and> sv_active (is_server st) = 0 \<and> Shutdown_result expired (is_server st) = Some None
      else \<exists>st'. ingest_step cfg unmarshal ftoa sink Lifecycle st st') \<and>
    (\<forall>evs st'. ingest_run cfg unmarshal ftoa sink st evs st' \<longrightarrow>
       length (filter (\<lambda>ev. ev \<in> {Lifecycle, Peer}) evs) \<le> 9 * size (is_threads st) \<and> Arrival \<notin> set evs)"
proof -
  note inv = ingest_inv [OF assms(1,2)]
  have wg: "sv_wg (is_server st) = 0 \<longleftrightarrow> is_threads st = {#}"
    using inv tokens_sum_zero [of "is_threads st"] by (simp add: server_inv_def)
  have "\<exists>st'. ingest_step cfg unmarshal ftoa sink Lifecycle st st'" if "is_threads st \<noteq> {#}"
  proof -
    from that obtain p where p: "p \<in># is_threads st" by blast
    with ingest_threads [OF assms(1)] have "thread_ok cfg p" by blast
    from lifecycle_enabled [OF p this assms(3)] show ?thesis .
  qed
  moreover have "total_effort st \<le> 9 * size (is_threads st)"
  proof -
    have "(\<Sum>p\<in>#T. effort p) \<le> 9 * size T" for T
    proof (induction T)
      case (add p T)
      have "effort p \<le> 9" by (cases p) auto
      with add show ?case by simp
    qed simp
    then show ?thesis .
  qed
  moreover have "Arrival \<notin> set evs" if "ingest_run cfg unmarshal ftoa sink st evs st'" for evs st'
    using that
  proof induction
    case (run_more evs a ev b)
    from ingest_run_effort [OF run_more.hyps(1) assms(3)] run_more.hyps(2) have "ev \<noteq> Arrival"
      by (auto simp: admit_def elim: ingest_step.cases)
    with run_more.IH show ?case by simp
  qed simp
  ultimately show ?thesis using wg inv ingest_run_effort [OF _ assms(3)]
    by (fastforce simp: server_inv_def Shutdown_result_def)
qed

theorem shutdown_drains_witness:
  "\<exists>st'. ingest_step open_config (\<lambda>_. None) (\<lambda>_. []) None Lifecycle (busy_server\<lparr>is_server := Shutdown_begin (is_server busy_server)\<rparr>) st'"
proof -
  let ?st = "busy_server\<lparr>is_server := Shutdown_begin (is_server busy_server)\<rparr>"
  have "ingest_step open_config (\<lambda>_. None) (\<lambda>_. []) None ShutdownCalled busy_server ?st"
    unfolding busy_server_def by (simp add: ingest_step.shuts_down)
  then have "reachable open_config (\<lambda>_. None) (\<lambda>_. []) None () ?st"
    using busy_server_reachable by (auto intro: rtranclp.rtrancl_into_rtrancl)
  from shutdown_drains [OF this] show ?thesis
    by (simp add: Shutdown_begin_def busy_server_def open_config_def split: if_splits)
qed

end
