(* ===== verification/Queue_Contract.thy ===== *)
theory Queue_Contract
  imports Ride_Queue
begin

text \<open>
  What the \<open>Queue\<close> interface of \<open>queue.go\<close> promises, as the locale \<open>queue_contract\<close>, and the proof
  that \<open>RedisStream\<close> keeps it. The client of a queue sees, under a broker id, the request the
  queue holds durably (\<open>held\<close>: stored and not acknowledged), whether it is claimed (\<open>claimed_by\<close>),
  how many further publishes it survives before \<open>MAXLEN\<close> may evict it (\<open>slack\<close>), and the
  dead-letter records (\<open>dead\<close>, with \<open>deadroom\<close> the records that fit before eviction). Operations
  may fail at any point; the laws say what survives then.
\<close>

section \<open>The contract\<close>

text \<open>A request after one more unsuccessful match, published at time \<open>t\<close>.\<close>

definition retried :: "RideRequest \<Rightarrow> gotime \<Rightarrow> RideRequest" where
  "retried r t = r\<lparr>MatchAttempts := wrap64 (MatchAttempts r + 1), RequestedAt := t\<rparr>"

locale queue_contract =
  fixes Q :: "'s Queue"
    and held :: "'s \<Rightarrow> string \<Rightarrow> RideRequest option"
    and claimed_by :: "'s \<Rightarrow> string \<Rightarrow> bool"
    and known :: "'s \<Rightarrow> string set"
    and slack :: "'s \<Rightarrow> string \<Rightarrow> nat"
    and dead :: "'s \<Rightarrow> string \<Rightarrow> string \<Rightarrow> bool"
    and deadroom :: "'s \<Rightarrow> nat"
    and cap :: nat
    and storable :: "RideRequest \<Rightarrow> bool"
  assumes held_known: "held s i = Some r \<Longrightarrow> i \<in> known s"
    and storable_retry: "storable r \<Longrightarrow> storable (retried r t)"
    and storable_time: "storable r \<Longrightarrow> storable (r\<lparr>RequestedAt := t\<rparr>)"
    and publish_stored: "Publish Q r s = (s', Inr i) \<Longrightarrow> storable r \<Longrightarrow>
      i \<notin> known s \<and> (\<exists>t. held s' i = Some (r\<lparr>RequestedAt := t\<rparr>)) \<and> cap \<le> Suc (slack s' i)"
    and publish_keeps: "Publish Q r s = (s', x) \<Longrightarrow>
      known s \<subseteq> known s' \<and> dead s' = dead s \<and> deadroom s' = deadroom s \<and>
      (held s j = Some r' \<longrightarrow> 0 < slack s j \<longrightarrow>
         held s' j = Some r' \<and> slack s j \<le> Suc (slack s' j) \<and> claimed_by s' j = claimed_by s j)"
    and ack_keeps: "Ack Q ids s = (s', e) \<Longrightarrow>
      known s' = known s \<and> slack s' = slack s \<and> dead s' = dead s \<and> deadroom s' = deadroom s \<and>
      (j \<notin> set ids \<longrightarrow> held s' j = held s j \<and> claimed_by s' j = claimed_by s j) \<and>
      (held s' j = held s j \<or> held s' j = None)"
    and ack_settles: "Ack Q ids s = (s', None) \<Longrightarrow> j \<in> set ids \<Longrightarrow> claimed_by s j \<Longrightarrow> held s' j = None"
    and dead_letter_keeps: "DeadLetter Q m why s = (s', e) \<Longrightarrow>
      known s' = known s \<and> slack s' = slack s \<and> deadroom s \<le> Suc (deadroom s') \<and>
      (j \<noteq> ID m \<longrightarrow> held s' j = held s j \<and> claimed_by s' j = claimed_by s j) \<and>
      (0 < deadroom s \<longrightarrow> dead s a b \<longrightarrow> dead s' a b)"
    and dead_letter_done: "DeadLetter Q m why s = (s', None) \<Longrightarrow>
      dead s' (ID m) (RequestID (Request m)) \<and>
      (ID m \<noteq> [] \<longrightarrow> claimed_by s (ID m) \<longrightarrow> held s' (ID m) = None)"
    and dead_letter_failed: "DeadLetter Q m why s = (s', Some err) \<Longrightarrow>
      held s' (ID m) = held s (ID m) \<or> dead s' (ID m) (RequestID (Request m))"
    and republish_keeps: "Republish Q m s = (s', e) \<Longrightarrow> j \<noteq> ID m \<Longrightarrow>
      known s \<subseteq> known s' \<and> dead s' = dead s \<and> deadroom s' = deadroom s \<and>
      (held s j = Some r' \<longrightarrow> 0 < slack s j \<longrightarrow>
         held s' j = Some r' \<and> slack s j \<le> Suc (slack s' j) \<and> claimed_by s' j = claimed_by s j)"
    and republish_safe: "Republish Q m s = (s', e) \<Longrightarrow> held s (ID m) = Some (Request m) \<Longrightarrow>
      0 < slack s (ID m) \<Longrightarrow> storable (Request m) \<Longrightarrow>
      (held s' (ID m) = Some (Request m) \<and> slack s (ID m) \<le> Suc (slack s' (ID m)) \<and> e \<noteq> None) \<or>
      (\<exists>i t. i \<notin> known s \<and> held s' i = Some (retried (Request m) t) \<and> cap \<le> Suc (slack s' i))"
    and republish_done: "Republish Q m s = (s', None) \<Longrightarrow> held s (ID m) = Some (Request m) \<Longrightarrow>
      0 < slack s (ID m) \<Longrightarrow> ID m \<noteq> [] \<Longrightarrow> claimed_by s (ID m) \<Longrightarrow> held s' (ID m) = None"
    and consume_keeps: "Consume Q n blk s = (s', y) \<Longrightarrow> held s j = Some r' \<Longrightarrow>
      held s' j = Some r' \<and> slack s' j = slack s j \<and> known s' = known s"
    and consume_claims: "Consume Q n blk s = (s', Inr ms) \<Longrightarrow>
      distinct (map ID ms) \<and> (\<forall>m\<in>set ms. held s' (ID m) = Some (Request m) \<and> claimed_by s' (ID m))"
    and reclaim_keeps: "Reclaim Q d n s = (s', ms, e) \<Longrightarrow> held s j = Some r' \<Longrightarrow>
      nat (max 1 n) \<le> deadroom s \<Longrightarrow> held s' j = Some r' \<or> dead s' j (RequestID r')"
    and reclaim_claims: "Reclaim Q d n s = (s', ms, e) \<Longrightarrow>
      distinct (map ID ms) \<and> (\<forall>m\<in>set ms. held s' (ID m) = Some (Request m) \<and> claimed_by s' (ID m))"

section \<open>Redis Streams keep the contract\<close>

subsection \<open>The observations of a \<open>RedisStream\<close>\<close>

definition suffix_from :: "string \<Rightarrow> xmessage list \<Rightarrow> xmessage list" where
  "suffix_from i es = dropWhile (\<lambda>e. xm_id e \<noteq> i) es"

definition live_request :: "float_conv \<Rightarrow> delivery \<Rightarrow> xmessage list \<Rightarrow> RideRequest option" where
  "live_request conv d es =
     (if d = Settled then None
      else case es of
             [] \<Rightarrow> None
           | e # _ \<Rightarrow> (case decode conv e of Inl _ \<Rightarrow> None | Inr m \<Rightarrow> Some (Request m)))"

definition rs_held ::
  "('s \<Rightarrow> string \<Rightarrow> xmessage list) \<Rightarrow> ('s \<Rightarrow> string \<Rightarrow> string \<Rightarrow> string \<Rightarrow> delivery) \<Rightarrow>
   's RedisStream \<Rightarrow> 's \<Rightarrow> string \<Rightarrow> RideRequest option" where
  "rs_held entries deliv q s i =
     live_request (rq_conv q) (deliv s (streamKey q) (so_Group (rq_opts q)) i)
       (suffix_from i (entries s (streamKey q)))"

definition rs_claimed ::
  "('s \<Rightarrow> string \<Rightarrow> string \<Rightarrow> string \<Rightarrow> delivery) \<Rightarrow> 's RedisStream \<Rightarrow> 's \<Rightarrow> string \<Rightarrow> bool" where
  "rs_claimed deliv q s i \<longleftrightarrow> is_pending (deliv s (streamKey q) (so_Group (rq_opts q)) i)"

definition rs_slack ::
  "('s \<Rightarrow> string \<Rightarrow> xmessage list) \<Rightarrow> 's RedisStream \<Rightarrow> 's \<Rightarrow> string \<Rightarrow> nat" where
  "rs_slack entries q s i =
     nat (so_MaxLen (rq_opts q)) - length (suffix_from i (entries s (streamKey q)))"

definition rs_dead ::
  "('s \<Rightarrow> string \<Rightarrow> xmessage list) \<Rightarrow> 's RedisStream \<Rightarrow> 's \<Rightarrow> string \<Rightarrow> string \<Rightarrow> bool" where
  "rs_dead entries q s i rid \<longleftrightarrow>
     (\<exists>e \<in> set (entries s (deadKey q)). field e ''original_id'' = i \<and> field e ''request_id'' = rid)"

definition rs_deadroom :: "('s \<Rightarrow> string \<Rightarrow> xmessage list) \<Rightarrow> 's RedisStream \<Rightarrow> 's \<Rightarrow> nat" where
  "rs_deadroom entries q s = nat (so_MaxLen (rq_opts q)) - length (entries s (deadKey q))"

text \<open>A request whose fields survive the trip through their text form: what \<open>strconv\<close> documents
  for every \<open>float64\<close>, and a 64-bit attempt counter.\<close>

definition storable_in :: "float_conv \<Rightarrow> RideRequest \<Rightarrow> bool" where
  "storable_in conv r \<longleftrightarrow>
     parse_float conv (format_float conv (Lat r)) = Some (Lat r) \<and>
     parse_float conv (format_float conv (Lng r)) = Some (Lng r) \<and>
     in_int64 (MatchAttempts r)"

subsection \<open>Encoding and decoding\<close>

lemma decode_id: "decode conv e = Inr m \<Longrightarrow> ID m = xm_id e"
  by (auto simp: decode_def Let_def split: if_splits option.splits)

lemma decode_request_id: "decode conv e = Inr m \<Longrightarrow> RequestID (Request m) \<noteq> []"
  by (auto simp: decode_def Let_def split: if_splits option.splits)

lemma decode_encoded:
  assumes "storable_in conv r" "RequestID r \<noteq> []" "in_int64 (unix_milli t)"
  shows "decode conv \<lparr>xm_id = i, xm_values = request_fields conv r t\<rparr> =
    Inr \<lparr>ID = i, Request = r\<lparr>RequestedAt := time_unix_milli (unix_milli t)\<rparr>, Deliveries = 0\<rparr>"
  using assms
  by (simp add: decode_def field_def request_fields_def storable_in_def parse_format_int)

lemma decode_encoded_some:
  assumes "storable_in conv r" "RequestID r \<noteq> []"
  shows "\<exists>t'. decode conv \<lparr>xm_id = i, xm_values = request_fields conv r t\<rparr> =
    Inr \<lparr>ID = i, Request = r\<lparr>RequestedAt := t'\<rparr>, Deliveries = 0\<rparr>"
  using assms
  by (cases r) (simp add: decode_def field_def request_fields_def storable_in_def parse_format_int)

lemma dead_fields_ids:
  "field \<lparr>xm_id = i, xm_values = dead_fields conv m why t\<rparr> ''original_id'' = ID m"
  "field \<lparr>xm_id = i, xm_values = dead_fields conv m why t\<rparr> ''request_id'' = RequestID (Request m)"
  by (simp_all add: field_def dead_fields_def)

lemma keys_distinct [simp]: "streamKey q \<noteq> deadKey q" "deadKey q \<noteq> streamKey q"
  by (simp_all add: streamKey_def deadKey_def)

subsection \<open>Positions in the stream\<close>

lemma suffix_from_Nil: "suffix_from i es = [] \<longleftrightarrow> i \<notin> xm_id ` set es"
  by (auto simp: suffix_from_def dropWhile_eq_Nil_conv)

lemma suffix_from_hd: "suffix_from i es = e # rest \<Longrightarrow> e \<in> set es \<and> xm_id e = i"
  unfolding suffix_from_def
  by (metis (mono_tags, lifting) dropWhile_eq_Cons_conv in_set_conv_decomp)

lemma suffix_from_distinct:
  assumes "distinct (map xm_id es)" "e \<in> set es"
  shows "\<exists>rest. suffix_from (xm_id e) es = e # rest"
proof -
  obtain a rest where "suffix_from (xm_id e) es = a # rest"
    using assms(2) suffix_from_Nil [of "xm_id e" es] by (cases "suffix_from (xm_id e) es") auto
  moreover from this have "a \<in> set es" "xm_id a = xm_id e"
    using suffix_from_hd by blast+
  ultimately show ?thesis
    using assms by (metis distinct_map inj_on_def)
qed

text \<open>Appending an entry, with eviction only while \<open>M\<close> entries remain: whoever was among the last
  \<open>M - 1\<close> entries keeps its place.\<close>

lemma suffix_from_appended:
  assumes "suffix_from j es \<noteq> []" "length (suffix_from j es) < M"
    and "n = 0 \<or> M \<le> length (drop n (es @ [x]))"
  shows "suffix_from j (drop n (es @ [x])) = suffix_from j es @ [x]"
proof -
  have sn: "suffix_from j (es @ [x]) = suffix_from j es @ [x]"
    using assms(1) by (simp add: suffix_from_def dropWhile_snoc)
  have "length (suffix_from j es) \<le> length es"
    by (simp add: suffix_from_def length_dropWhile_le)
  with assms(2,3) have "n \<le> length (es @ [x]) - length (suffix_from j (es @ [x]))"
    unfolding sn by auto
  then show ?thesis
    using sn by (simp add: suffix_from_def dropWhile_drop del: drop_append)
qed

lemma suffix_from_new:
  assumes "xm_id x \<notin> xm_id ` set es" "0 < M" "n = 0 \<or> M \<le> length (drop n (es @ [x]))"
  shows "suffix_from (xm_id x) (drop n (es @ [x])) = [x]"
proof -
  have "n \<le> length es" using assms(2,3) by auto
  moreover have "xm_id x \<notin> xm_id ` set (drop n es)"
    using assms(1) by (auto dest: in_set_dropD)
  then have "dropWhile (\<lambda>e. xm_id e \<noteq> xm_id x) (drop n es @ [x]) = [x]"
    by (subst dropWhile_append2) (metis image_eqI, simp)
  ultimately show ?thesis by (simp add: suffix_from_def)
qed

subsection \<open>The operations\<close>

locale redis_ride_queue =
  redis_accepting "rq_client q" entries used deliv
  for q :: "'s RedisStream" and entries used deliv +
  assumes maxlen_pos: "0 < so_MaxLen (rq_opts q)"
begin

abbreviation K :: string where "K \<equiv> streamKey q"
abbreviation G :: string where "G \<equiv> so_Group (rq_opts q)"
abbreviation M :: nat where "M \<equiv> nat (so_MaxLen (rq_opts q))"
abbreviation hld :: "'s \<Rightarrow> string \<Rightarrow> RideRequest option" where "hld \<equiv> rs_held entries deliv q"
abbreviation clm :: "'s \<Rightarrow> string \<Rightarrow> bool" where "clm \<equiv> rs_claimed deliv q"
abbreviation slk :: "'s \<Rightarrow> string \<Rightarrow> nat" where "slk \<equiv> rs_slack entries q"
abbreviation ded :: "'s \<Rightarrow> string \<Rightarrow> string \<Rightarrow> bool" where "ded \<equiv> rs_dead entries q"
abbreviation room :: "'s \<Rightarrow> nat" where "room \<equiv> rs_deadroom entries q"

lemma held_SomeD:
  assumes "hld s j = Some r"
  obtains e rest m where "suffix_from j (entries s K) = e # rest" "deliv s K G j \<noteq> Settled"
    "decode (rq_conv q) e = Inr m" "Request m = r" "xm_id e = j" "e \<in> set (entries s K)"
  using assms suffix_from_hd
  by (fastforce simp: rs_held_def live_request_def split: list.splits if_splits sum.splits)

lemma held_entry:
  assumes "e \<in> set (entries s K)" "deliv s K G (xm_id e) \<noteq> Settled" "decode (rq_conv q) e = Inr m"
  shows "hld s (xm_id e) = Some (Request m)"
  using suffix_from_distinct [OF entries_distinct assms(1)] assms(2,3)
  by (auto simp: rs_held_def live_request_def)

lemma held_used: "hld s j = Some r \<Longrightarrow> j \<in> used s K"
  by (erule held_SomeD) (metis entries_used)

lemma unchanged_views:
  assumes "unchanged entries used deliv s s'"
  shows "used s' = used s" "hld s' = hld s" "clm s' = clm s" "slk s' = slk s" "ded s' = ded s"
    "room s' = room s"
  using assms
  by (simp_all add: unchanged_def rs_held_def [abs_def] rs_claimed_def [abs_def]
      rs_slack_def [abs_def] rs_dead_def [abs_def] rs_deadroom_def)

lemma appended_limit:
  assumes "appended entries used deliv k m f i s s'"
  obtains n where "entries s' k = drop n (entries s k @ [\<lparr>xm_id = i, xm_values = f\<rparr>])"
    "n = 0 \<or> nat m \<le> length (drop n (entries s k @ [\<lparr>xm_id = i, xm_values = f\<rparr>]))"
proof -
  obtain n where n: "entries s' = (entries s)(k := drop n (entries s k @ [\<lparr>xm_id = i, xm_values = f\<rparr>]))"
    "n = 0 \<or> m \<le> int (length (entries s' k))"
    using assms unfolding appended_def by blast
  from n(1) have e: "entries s' k = drop n (entries s k @ [\<lparr>xm_id = i, xm_values = f\<rparr>])" by simp
  from n(2) have "n = 0 \<or> nat m \<le> length (entries s' k)" by linarith
  with e that show thesis by metis
qed

lemma appended_other_key:
  assumes "appended entries used deliv k m f i s s'" "k' \<noteq> k"
  shows "entries s' k' = entries s k'" "used s' k' = used s k'" "deliv s' k' = deliv s k'"
  using assms by (auto simp: appended_def fun_eq_iff)

lemma appended_request:
  assumes a: "appended entries used deliv K (so_MaxLen (rq_opts q)) f i s s'"
  shows "used s K \<subseteq> used s' K" "ded s' = ded s" "room s' = room s"
    and "hld s j = Some r \<Longrightarrow> 0 < slk s j \<Longrightarrow>
      hld s' j = Some r \<and> slk s j \<le> Suc (slk s' j) \<and> clm s' j = clm s j"
proof -
  show "used s K \<subseteq> used s' K" using a by (auto simp: appended_def)
  show "ded s' = ded s" "room s' = room s"
    using appended_other_key [OF a, of "deadKey q"]
    by (simp_all add: rs_dead_def rs_deadroom_def fun_eq_iff)
  assume h: "hld s j = Some r" and sl: "0 < slk s j"
  from h obtain e rest where suf: "suffix_from j (entries s K) = e # rest" by (rule held_SomeD)
  from a have "i \<notin> used s K" and d: "\<forall>k g x. deliv s' k g x = (if k = K \<and> x = i then Undelivered else deliv s k g x)"
    by (simp_all add: appended_def)
  with held_used [OF h] have dj: "deliv s' K g j = deliv s K g j" for g by auto
  obtain n where n: "entries s' K = drop n (entries s K @ [\<lparr>xm_id = i, xm_values = f\<rparr>])"
    "n = 0 \<or> M \<le> length (drop n (entries s K @ [\<lparr>xm_id = i, xm_values = f\<rparr>]))"
    by (rule appended_limit [OF a])
  have "length (suffix_from j (entries s K)) < M" using sl by (simp add: rs_slack_def)
  then have suf': "suffix_from j (entries s' K) =
      suffix_from j (entries s K) @ [\<lparr>xm_id = i, xm_values = f\<rparr>]"
    unfolding n(1) using suf n(2) by (intro suffix_from_appended) auto
  have "hld s' j = Some r" using h suf suf' dj by (auto simp: rs_held_def live_request_def split: if_splits)
  moreover have "slk s j \<le> Suc (slk s' j)" using suf' by (simp add: rs_slack_def)
  ultimately show "hld s' j = Some r \<and> slk s j \<le> Suc (slk s' j) \<and> clm s' j = clm s j"
    using dj by (simp add: rs_claimed_def)
qed

lemma appended_new:
  assumes a: "appended entries used deliv K (so_MaxLen (rq_opts q)) f i s s'"
    and dec: "decode (rq_conv q) \<lparr>xm_id = i, xm_values = f\<rparr> = Inr m"
  shows "i \<notin> used s K" "hld s' i = Some (Request m)" "M \<le> Suc (slk s' i)"
proof -
  show nu: "i \<notin> used s K" using a by (simp add: appended_def)
  let ?x = "\<lparr>xm_id = i, xm_values = f\<rparr>"
  have ni: "xm_id ?x \<notin> xm_id ` set (entries s K)"
    using nu entries_used by fastforce
  obtain n where n: "entries s' K = drop n (entries s K @ [?x])"
    "n = 0 \<or> M \<le> length (drop n (entries s K @ [?x]))"
    by (rule appended_limit [OF a])
  have suf: "suffix_from i (entries s' K) = [?x]"
    unfolding n(1) using suffix_from_new [OF ni _ n(2)] maxlen_pos by simp
  have "deliv s' K G i = Undelivered" using a by (simp add: appended_def)
  then show "hld s' i = Some (Request m)" using suf dec by (simp add: rs_held_def live_request_def)
  show "M \<le> Suc (slk s' i)" using suf by (simp add: rs_slack_def)
qed

lemma acked_views:
  assumes "acked entries used deliv K G ids s s'"
  shows "used s' = used s" "slk s' = slk s" "ded s' = ded s" "room s' = room s"
    and "j \<notin> set ids \<Longrightarrow> hld s' j = hld s j \<and> clm s' j = clm s j"
    and "hld s' j = hld s j \<or> hld s' j = None"
    and "j \<in> set ids \<Longrightarrow> clm s j \<Longrightarrow> hld s' j = None"
proof -
  have e: "entries s' = entries s" and u: "used s' = used s"
    and d: "deliv s' K G x = (if x \<in> set ids \<and> deliv s K G x \<noteq> Undelivered then Settled else deliv s K G x)" for x
    using assms by (simp_all add: acked_def)
  show "used s' = used s" "slk s' = slk s" "ded s' = ded s" "room s' = room s"
    using e u by (simp_all add: rs_slack_def [abs_def] rs_dead_def [abs_def] rs_deadroom_def)
  show "j \<notin> set ids \<Longrightarrow> hld s' j = hld s j \<and> clm s' j = clm s j"
    using e d [of j] by (simp add: rs_held_def rs_claimed_def)
  show "hld s' j = hld s j \<or> hld s' j = None"
    using e d [of j] by (auto simp: rs_held_def live_request_def)
  show "j \<in> set ids \<Longrightarrow> clm s j \<Longrightarrow> hld s' j = None"
    using e d [of j]
    by (auto simp: rs_held_def live_request_def rs_claimed_def is_pending_def split: delivery.splits)
qed

lemma appended_dead:
  assumes a: "appended entries used deliv (deadKey q) (so_MaxLen (rq_opts q)) f i s s'"
  shows "used s' K = used s K" "slk s' = slk s" "hld s' = hld s" "clm s' = clm s"
    and "room s \<le> Suc (room s')" "0 < room s \<Longrightarrow> ded s a b \<Longrightarrow> ded s' a b"
    and "\<lparr>xm_id = i, xm_values = f\<rparr> \<in> set (entries s' (deadKey q))"
proof -
  let ?x = "\<lparr>xm_id = i, xm_values = f\<rparr>" and ?D = "deadKey q"
  note o = appended_other_key [OF a, of K]
  show "used s' K = used s K" using o by simp
  show "slk s' = slk s" "hld s' = hld s" "clm s' = clm s"
    using o by (simp_all add: rs_slack_def [abs_def] rs_held_def [abs_def] rs_claimed_def [abs_def])
  obtain n where n: "entries s' ?D = drop n (entries s ?D @ [?x])"
    "n = 0 \<or> M \<le> length (drop n (entries s ?D @ [?x]))"
    by (rule appended_limit [OF a])
  show "room s \<le> Suc (room s')"
    using n(1) by (simp add: rs_deadroom_def)
  from n(2) maxlen_pos have "n \<le> length (entries s ?D)" by auto
  then show "?x \<in> set (entries s' ?D)" using n(1) by simp
  assume "0 < room s" "ded s a b"
  then have "length (entries s ?D) < M" by (simp add: rs_deadroom_def)
  with n(2) have "n = 0" by auto
  with n(1) \<open>ded s a b\<close> show "ded s' a b" by (auto simp: rs_dead_def)
qed

lemma publish_cases:
  assumes "rs_Publish q r s = (s', x)"
  obtains (none) e where "unchanged entries used deliv s s'" "x = Inl e"
  | (lost) i e where "appended entries used deliv K (so_MaxLen (rq_opts q))
        (request_fields (rq_conv q) r (publish_time q r s)) i s s'" "x = Inl e" "RequestID r \<noteq> []"
  | (stored) i where "appended entries used deliv K (so_MaxLen (rq_opts q))
        (request_fields (rq_conv q) r (publish_time q r s)) i s s'" "x = Inr i" "RequestID r \<noteq> []"
proof (cases "RequestID r = []")
  case True
  with assms have "s' = s" "x = Inl (Sent ErrEmptyRequestID)" by (simp_all add: rs_Publish_def)
  then show thesis by (intro none) (simp_all add: unchanged_def)
next
  case False
  obtain y where y: "xadd (rq_client q) K (so_MaxLen (rq_opts q))
      (request_fields (rq_conv q) r (publish_time q r s)) s = (s', y)"
    and x: "x = (case y of Inl e \<Rightarrow> Inl (Wrapf ''queue: publish: '' e []) | Inr i \<Rightarrow> Inr i)"
    using assms False by (auto simp: rs_Publish_def split: prod.splits sum.splits)
  show thesis
  proof (cases y)
    case (Inl e)
    with y have "unchanged entries used deliv s s' \<or> (\<exists>i. appended entries used deliv K
        (so_MaxLen (rq_opts q)) (request_fields (rq_conv q) r (publish_time q r s)) i s s')"
      using xadd_err by blast
    with Inl x False show thesis by (auto intro: none lost)
  next
    case (Inr i)
    with y x False show thesis by (intro stored) (auto dest: xadd_ok)
  qed
qed

lemma ack_cases:
  assumes "rs_Ack q ids s = (s', x)"
  obtains (none) "unchanged entries used deliv s s'" "x = None \<longrightarrow> ids = []"
  | (settled) "acked entries used deliv K G ids s s'"
proof (cases "ids = []")
  case True
  with assms show thesis by (intro none) (simp_all add: rs_Ack_def unchanged_def)
next
  case False
  obtain y where y: "xack (rq_client q) K G ids s = (s', y)" and x: "x = None \<longleftrightarrow> \<not> isl y"
    using assms False by (auto simp: rs_Ack_def split: prod.splits sum.splits)
  show thesis
  proof (cases y)
    case (Inl e)
    with y x show thesis using xack_err [of K G ids s s' e] by (auto intro: none settled)
  next
    case (Inr n)
    with y x show thesis using xack_ok [of K G ids s s' n] by (auto intro: settled)
  qed
qed

lemma dead_letter_cases:
  assumes "rs_DeadLetter q m why s = (s', x)"
  obtains (none) "unchanged entries used deliv s s'" "x \<noteq> None"
  | (written) i s1 where
      "appended entries used deliv (deadKey q) (so_MaxLen (rq_opts q))
         (dead_fields (rq_conv q) m why (so_Now (rq_opts q) s)) i s s1"
      "unchanged entries used deliv s1 s' \<and> (x \<noteq> None \<or> ID m = []) \<or>
       acked entries used deliv K G [ID m] s1 s'"
proof -
  define add where "add = as_cmd (xadd (rq_client q) (deadKey q) (so_MaxLen (rq_opts q))
    (dead_fields (rq_conv q) m why (so_Now (rq_opts q) s)))"
  define ack where "ack = as_cmd (xack (rq_client q) K G [ID m])"
  define cmds where "cmds = add # (if ID m = [] then [] else [ack])"
  obtain y where pipe: "xpipe (rq_client q) cmds s = (s', y)" and x: "x = None \<longleftrightarrow> y = None"
    using assms unfolding rs_DeadLetter_def Let_def cmds_def add_def ack_def
    by (auto split: prod.splits option.splits)
  obtain s1 a where add: "add s = (s1, a)" by force
  obtain s2 b where ack: "ack s1 = (s2, b)" by force
  let ?app = "\<lambda>i. appended entries used deliv (deadKey q) (so_MaxLen (rq_opts q))
         (dead_fields (rq_conv q) m why (so_Now (rq_opts q) s)) i s s1"
  have add': "unchanged entries used deliv s s1 \<and> a \<noteq> None \<or> (\<exists>i. ?app i)"
    using add unfolding add_def
    by (rule as_cmd_cases) (auto dest: xadd_err xadd_ok)
  have add_ok: "a = None \<Longrightarrow> \<exists>i. ?app i"
    using add' by auto
  have ack': "unchanged entries used deliv s1 s2 \<and> b \<noteq> None \<or> acked entries used deliv K G [ID m] s1 s2"
    using ack unfolding ack_def
    by (rule as_cmd_cases) (auto dest: xack_err xack_ok)
  show thesis
  proof (cases y)
    case None
    with pipe have "run_cmds cmds s = (s', None)" by (simp add: xpipe_ok)
    then have "a = None" "ID m = [] \<and> s' = s1 \<or> ID m \<noteq> [] \<and> s' = s2 \<and> b = None"
      using add ack by (auto simp: cmds_def split: option.splits if_splits)
    with add_ok ack' show thesis by (metis written unchanged_def)
  next
    case (Some e)
    then obtain n where n: "n \<le> length cmds" "fst (run_cmds (take n cmds) s) = s'"
      "snd (run_cmds (take (n - 1) cmds) s) = None"
      using pipe xpipe_err by blast
    from Some x have x: "x \<noteq> None" by simp
    consider "n = 0" | "n = 1" | "n = 2" "ID m \<noteq> []"
      using n(1) by (force simp: cmds_def split: if_splits)
    then show thesis
    proof cases
      case 1
      with n(2) x show thesis by (intro none) (auto simp: unchanged_def)
    next
      case 2
      with n(2) add have "s' = s1" by (simp add: cmds_def)
      with add' x show thesis by (metis none written unchanged_def)
    next
      case 3
      with n(2,3) add ack have "s' = s2" "a = None" by (auto simp: cmds_def numeral_2_eq_2 split: option.splits)
      with add_ok ack' x show thesis by (metis written)
    qed
  qed
qed

lemma dead_letter_views:
  assumes "rs_DeadLetter q m why s = (s', x)"
  shows "used s' K = used s K" "slk s' = slk s" "room s \<le> Suc (room s')"
    and "j \<noteq> ID m \<Longrightarrow> hld s' j = hld s j \<and> clm s' j = clm s j"
    and "0 < room s \<Longrightarrow> ded s a b \<Longrightarrow> ded s' a b"
    and "x = None \<Longrightarrow> ded s' (ID m) (RequestID (Request m))"
    and "x = None \<Longrightarrow> ID m \<noteq> [] \<Longrightarrow> clm s (ID m) \<Longrightarrow> hld s' (ID m) = None"
    and "hld s' (ID m) = hld s (ID m) \<or> ded s' (ID m) (RequestID (Request m))"
proof -
  have "used s' K = used s K \<and> slk s' = slk s \<and> room s \<le> Suc (room s') \<and>
    (j \<noteq> ID m \<longrightarrow> hld s' j = hld s j \<and> clm s' j = clm s j) \<and>
    (0 < room s \<longrightarrow> ded s a b \<longrightarrow> ded s' a b) \<and>
    (x = None \<longrightarrow> ded s' (ID m) (RequestID (Request m))) \<and>
    (x = None \<longrightarrow> ID m \<noteq> [] \<longrightarrow> clm s (ID m) \<longrightarrow> hld s' (ID m) = None) \<and>
    (hld s' (ID m) = hld s (ID m) \<or> ded s' (ID m) (RequestID (Request m)))"
    using assms
  proof (cases rule: dead_letter_cases)
    case none
    then show ?thesis using unchanged_views [of s s'] by auto
  next
    case (written i s1)
    note a = appended_dead [OF written(1)]
    have d1: "ded s1 (ID m) (RequestID (Request m))"
      using a(7) dead_fields_ids unfolding rs_dead_def by blast
    from written(2) show ?thesis
    proof
      assume "unchanged entries used deliv s1 s' \<and> (x \<noteq> None \<or> ID m = [])"
      then show ?thesis using unchanged_views [of s1 s'] a d1 by auto
    next
      assume k: "acked entries used deliv K G [ID m] s1 s'"
      note v = acked_views(1-4) [OF k]
      have "j \<noteq> ID m \<Longrightarrow> hld s' j = hld s1 j \<and> clm s' j = clm s1 j"
        using acked_views(5) [OF k, of j] by simp
      moreover have "clm s1 (ID m) \<Longrightarrow> hld s' (ID m) = None"
        using acked_views(7) [OF k, of "ID m"] by simp
      ultimately show ?thesis using v a d1 by simp
    qed
  qed
  then show "used s' K = used s K" "slk s' = slk s" "room s \<le> Suc (room s')"
    and "j \<noteq> ID m \<Longrightarrow> hld s' j = hld s j \<and> clm s' j = clm s j"
    and "0 < room s \<Longrightarrow> ded s a b \<Longrightarrow> ded s' a b"
    and "x = None \<Longrightarrow> ded s' (ID m) (RequestID (Request m))"
    and "x = None \<Longrightarrow> ID m \<noteq> [] \<Longrightarrow> clm s (ID m) \<Longrightarrow> hld s' (ID m) = None"
    and "hld s' (ID m) = hld s (ID m) \<or> ded s' (ID m) (RequestID (Request m))"
    by blast+
qed

lemma publish_views:
  assumes "rs_Publish q r s = (s', x)"
  shows "used s K \<subseteq> used s' K" "ded s' = ded s" "room s' = room s"
    and "hld s j = Some r' \<Longrightarrow> 0 < slk s j \<Longrightarrow>
      hld s' j = Some r' \<and> slk s j \<le> Suc (slk s' j) \<and> clm s' j = clm s j"
  using assms
  by (cases rule: publish_cases;
      use unchanged_views [of s s'] appended_request [of _ _ s s'] in auto)+

lemma publish_new:
  assumes "rs_Publish q r s = (s', Inr i)" "storable_in (rq_conv q) r"
  shows "i \<notin> used s K" "\<exists>t. hld s' i = Some (r\<lparr>RequestedAt := t\<rparr>)" "M \<le> Suc (slk s' i)"
proof -
  let ?f = "request_fields (rq_conv q) r (publish_time q r s)"
  have a: "appended entries used deliv K (so_MaxLen (rq_opts q)) ?f i s s'" and "RequestID r \<noteq> []"
    using assms(1) by (auto elim: publish_cases)
  then obtain t where t: "decode (rq_conv q) \<lparr>xm_id = i, xm_values = ?f\<rparr> =
      Inr \<lparr>ID = i, Request = r\<lparr>RequestedAt := t\<rparr>, Deliveries = 0\<rparr>"
    using decode_encoded_some [OF assms(2)] by blast
  show "i \<notin> used s K" "\<exists>t. hld s' i = Some (r\<lparr>RequestedAt := t\<rparr>)" "M \<le> Suc (slk s' i)"
    using appended_new [OF a t] by auto
qed

lemma ack_views:
  assumes "rs_Ack q ids s = (s', x)"
  shows "used s' = used s" "slk s' = slk s" "ded s' = ded s" "room s' = room s"
    and "j \<notin> set ids \<Longrightarrow> hld s' j = hld s j \<and> clm s' j = clm s j"
    and "hld s' j = hld s j \<or> hld s' j = None"
    and "x = None \<Longrightarrow> j \<in> set ids \<Longrightarrow> clm s j \<Longrightarrow> hld s' j = None"
  using assms
  by (cases rule: ack_cases; use unchanged_views [of s s'] acked_views [of ids s s'] in auto)+

lemma republish_cases:
  assumes "rs_Republish q m s = (s', x)"
  obtains (failed) e where
      "rs_Publish q ((Request m)\<lparr>MatchAttempts := wrap64 (MatchAttempts (Request m) + 1)\<rparr>) s = (s', Inl e)"
      "x \<noteq> None"
  | (copied) i s1 y where
      "rs_Publish q ((Request m)\<lparr>MatchAttempts := wrap64 (MatchAttempts (Request m) + 1)\<rparr>) s = (s1, Inr i)"
      "ID m = [] \<and> s' = s1 \<or> ID m \<noteq> [] \<and> rs_Ack q [ID m] s1 = (s', y) \<and> (x = None \<longleftrightarrow> y = None)"
  using assms
  by (auto simp: rs_Republish_def Let_def split: prod.splits sum.splits if_splits option.splits)

lemma republish_frame:
  assumes "rs_Republish q m s = (s', x)" "j \<noteq> ID m"
  shows "used s K \<subseteq> used s' K \<and> ded s' = ded s \<and> room s' = room s \<and>
    (hld s j = Some r' \<longrightarrow> 0 < slk s j \<longrightarrow>
       hld s' j = Some r' \<and> slk s j \<le> Suc (slk s' j) \<and> clm s' j = clm s j)"
  using assms(1)
proof (cases rule: republish_cases)
  case (failed e)
  then show ?thesis using publish_views [OF failed(1)] by blast
next
  case (copied i s1 y)
  note p = publish_views [OF copied(1)]
  from copied(2) show ?thesis
  proof
    assume "ID m = [] \<and> s' = s1"
    then show ?thesis using p by blast
  next
    assume k: "ID m \<noteq> [] \<and> rs_Ack q [ID m] s1 = (s', y) \<and> (x = None \<longleftrightarrow> y = None)"
    then have k: "rs_Ack q [ID m] s1 = (s', y)" by blast
    have "hld s' j = hld s1 j \<and> clm s' j = clm s1 j"
      using ack_views(5) [OF k, of j] assms(2) by simp
    then show ?thesis using p ack_views(1-4) [OF k] by simp
  qed
qed

lemma republish_result:
  assumes r: "rs_Republish q m s = (s', x)" and h: "hld s (ID m) = Some (Request m)"
    and sl: "0 < slk s (ID m)" and st: "storable_in (rq_conv q) (Request m)"
  shows "(hld s' (ID m) = Some (Request m) \<and> slk s (ID m) \<le> Suc (slk s' (ID m)) \<and> x \<noteq> None) \<or>
    (\<exists>i t. i \<notin> used s K \<and> hld s' i = Some (retried (Request m) t) \<and> M \<le> Suc (slk s' i))"
  using r
proof (cases rule: republish_cases)
  case (failed e)
  then show ?thesis using publish_views(4) [OF failed(1) h sl] by blast
next
  case (copied i s1 y)
  let ?r = "(Request m)\<lparr>MatchAttempts := wrap64 (MatchAttempts (Request m) + 1)\<rparr>"
  have "storable_in (rq_conv q) ?r" using st by (simp add: storable_in_def)
  note n = publish_new [OF copied(1) this]
  then obtain t where t: "hld s1 i = Some (retried (Request m) t)" by (auto simp: retried_def)
  have "i \<noteq> ID m" using n(1) held_used [OF h] by blast
  from copied(2) have "hld s' i = hld s1 i \<and> slk s' = slk s1"
  proof
    assume "ID m \<noteq> [] \<and> rs_Ack q [ID m] s1 = (s', y) \<and> (x = None \<longleftrightarrow> y = None)"
    then have k: "rs_Ack q [ID m] s1 = (s', y)" by blast
    show ?thesis using ack_views(5) [OF k, of i] ack_views(2) [OF k] \<open>i \<noteq> ID m\<close> by simp
  qed simp
  with t n show ?thesis by auto
qed

lemma republish_settles:
  assumes r: "rs_Republish q m s = (s', None)" and h: "hld s (ID m) = Some (Request m)"
    and sl: "0 < slk s (ID m)" and i: "ID m \<noteq> []" "clm s (ID m)"
  shows "hld s' (ID m) = None"
  using r
proof (cases rule: republish_cases)
  case (copied i s1 y)
  then have k: "rs_Ack q [ID m] s1 = (s', None)" using i by auto
  have "clm s1 (ID m)" using publish_views(4) [OF copied(1) h sl] i by blast
  then show ?thesis using ack_views(7) [OF k, of "ID m"] by simp
qed auto

text \<open>An entry that has just been claimed: its message is held if it decodes, and nothing is held
  under its id if it does not.\<close>

definition in_hand :: "'s \<Rightarrow> xmessage \<Rightarrow> bool" where
  "in_hand s e \<longleftrightarrow>
     (case decode (rq_conv q) e of
        Inl _ \<Rightarrow> hld s (xm_id e) = None
      | Inr m \<Rightarrow> hld s (xm_id e) = Some (Request m) \<and> clm s (xm_id e))"

lemma in_handI:
  assumes "e \<in> set (entries s K)" "deliv s K G (xm_id e) = Pending c"
  shows "in_hand s e"
proof (cases "decode (rq_conv q) e")
  case (Inl x)
  obtain rest where "suffix_from (xm_id e) (entries s K) = e # rest"
    using suffix_from_distinct [OF entries_distinct assms(1)] by blast
  with Inl show ?thesis by (simp add: in_hand_def rs_held_def live_request_def)
next
  case (Inr m)
  then show ?thesis
    using held_entry [OF assms(1) _ Inr] assms(2) by (simp add: in_hand_def rs_claimed_def is_pending_def)
qed

lemma in_hand_dead_letter:
  assumes "rs_DeadLetter q m why s = (s', x)" "ID m \<noteq> xm_id e" "in_hand s e"
  shows "in_hand s' e"
  using dead_letter_views(4) [OF assms(1), of "xm_id e"] assms(2,3)
  by (simp add: in_hand_def split: sum.splits)

lemma bare_message_id [simp]: "ID (bare_message i) = i"
  by (simp add: bare_message_def)

lemma consume_entries_views:
  assumes "consume_entries q es s = (s', out)" "distinct (map xm_id es)" "\<forall>e\<in>set es. in_hand s e"
  shows "slk s' = slk s \<and> used s' K = used s K \<and>
    (\<forall>j r. hld s j = Some r \<longrightarrow> hld s' j = Some r \<and> clm s' j = clm s j) \<and>
    distinct (map ID out) \<and> set (map ID out) \<subseteq> set (map xm_id es) \<and>
    (\<forall>m\<in>set out. hld s' (ID m) = Some (Request m) \<and> clm s' (ID m))"
  using assms
proof (induction es arbitrary: s out)
  case Nil
  then show ?case by simp
next
  case (Cons e es)
  show ?case
  proof (cases "decode (rq_conv q) e")
    case (Inl err)
    obtain s1 x where d: "rs_DeadLetter q (bare_message (xm_id e)) (error_text err) s = (s1, x)"
      by force
    with Cons.prems(1) Inl have c: "consume_entries q es s1 = (s', out)" by simp
    have "\<forall>e'\<in>set es. in_hand s1 e'"
      using Cons.prems(2,3) in_hand_dead_letter [OF d] by fastforce
    note IH = Cons.IH [OF c _ this]
    have "hld s (xm_id e) = None" using Cons.prems(3) Inl by (simp add: in_hand_def)
    then have "hld s j = Some r \<Longrightarrow> hld s1 j = Some r \<and> clm s1 j = clm s j" for j r
      using dead_letter_views(4) [OF d, of j] by force
    with IH Cons.prems(2) dead_letter_views(1,2) [OF d] show ?thesis by auto
  next
    case (Inr m)
    obtain out' where c: "consume_entries q es s = (s', out')" and out: "out = m\<lparr>Deliveries := 1\<rparr> # out'"
      using Cons.prems(1) Inr by (auto split: prod.splits)
    have "hld s (ID m) = Some (Request m)" "clm s (ID m)" "ID m = xm_id e"
      using Cons.prems(3) Inr decode_id [OF Inr] by (simp_all add: in_hand_def)
    with Cons.IH [OF c] Cons.prems(2,3) out show ?thesis by auto
  qed
qed

lemma delivered_views:
  assumes d: "delivered entries used deliv K G es s s'"
  shows "used s' = used s" "hld s' = hld s" "slk s' = slk s" "ded s' = ded s" "room s' = room s"
    and "\<forall>e\<in>set es. in_hand s' e" "distinct (map xm_id es)"
proof -
  have e: "entries s' = entries s" "used s' = used s" "distinct (map xm_id es)"
      "set es \<subseteq> set (entries s K)" "\<forall>e\<in>set es. deliv s K G (xm_id e) = Undelivered"
    and dl: "deliv s' K G j = (if j \<in> xm_id ` set es then Pending 1 else deliv s K G j)" for j
    using d by (auto simp: delivered_def)
  show "used s' = used s" "slk s' = slk s" "ded s' = ded s" "room s' = room s" "distinct (map xm_id es)"
    using e by (simp_all add: rs_slack_def [abs_def] rs_dead_def [abs_def] rs_deadroom_def)
  have "hld s' j = hld s j" for j
    using e dl [of j] by (auto simp: rs_held_def live_request_def)
  then show "hld s' = hld s" by (rule ext)
  show "\<forall>e\<in>set es. in_hand s' e"
    using e dl by (auto intro!: in_handI)
qed

lemma consume_cases:
  assumes "rs_Consume q n b s = (s', y)"
  obtains (failed) es where "delivered entries used deliv K G es s s'" "y = Inr [] \<or> (\<exists>e. y = Inl e)"
  | (read) es s1 out where "delivered entries used deliv K G es s s1"
      "consume_entries q es s1 = (s', out)" "y = Inr out"
proof -
  obtain s1 r where x: "xreadgroup (rq_client q) K G (so_Consumer (rq_opts q)) (if n \<le> 0 then 1 else n) b s = (s1, r)"
    by force
  show thesis
  proof (cases r)
    case (Inl e)
    with x obtain es where "delivered entries used deliv K G es s s1" using xreadgroup_err by blast
    moreover have "s' = s1" "y = Inr [] \<or> (\<exists>e. y = Inl e)"
      using assms x Inl by (auto simp: rs_Consume_def Let_def split: if_splits)
    ultimately show thesis by (intro failed) auto
  next
    case (Inr strs)
    with x have "delivered entries used deliv K G (concat (map snd strs)) s s1" by (auto dest: xreadgroup_ok)
    moreover obtain out where "consume_entries q (concat (map snd strs)) s1 = (s', out)" "y = Inr out"
      using assms x Inr by (auto simp: rs_Consume_def Let_def split: prod.splits)
    ultimately show thesis by (rule read)
  qed
qed

lemma consume_frame:
  assumes "rs_Consume q n b s = (s', y)" "hld s j = Some r"
  shows "hld s' j = Some r \<and> slk s' j = slk s j \<and> used s' K = used s K"
  using assms(1)
proof (cases rule: consume_cases)
  case (failed es)
  then show ?thesis using delivered_views [OF failed(1)] assms(2) by simp
next
  case (read es s1 out)
  note d = delivered_views [OF read(1)]
  show ?thesis using consume_entries_views [OF read(2) d(7) d(6)] d assms(2) by simp
qed

lemma consume_messages:
  assumes "rs_Consume q n b s = (s', Inr ms)"
  shows "distinct (map ID ms) \<and> (\<forall>m\<in>set ms. hld s' (ID m) = Some (Request m) \<and> clm s' (ID m))"
  using assms
proof (cases rule: consume_cases)
  case (read es s1 out)
  note d = delivered_views [OF read(1)]
  show ?thesis using consume_entries_views [OF read(2) d(7) d(6)] read(3) by simp
qed auto

lemma reclaim_entries_views:
  assumes "reclaim_entries q dl es out s = (s', ms, x)" "distinct (map ID out @ map xm_id es)"
    and "\<forall>e\<in>set es. in_hand s e" "\<forall>m\<in>set out. hld s (ID m) = Some (Request m) \<and> clm s (ID m)"
  shows "distinct (map ID ms) \<and> (\<forall>m\<in>set ms. hld s' (ID m) = Some (Request m) \<and> clm s' (ID m)) \<and>
    (length es \<le> room s \<longrightarrow>
       (\<forall>j r. hld s j = Some r \<longrightarrow> hld s' j = Some r \<or> ded s' j (RequestID r)) \<and>
       (\<forall>a b. ded s a b \<longrightarrow> ded s' a b))"
  using assms
proof (induction es arbitrary: s out)
  case Nil
  then show ?case by simp
next
  case (Cons e es)
  have step: ?case
    if d: "rs_DeadLetter q m why s = (s1, y)" and m: "ID m = xm_id e"
      and safe: "hld s (xm_id e) = None \<or> hld s (xm_id e) = Some (Request m)"
      and rest: "reclaim_entries q dl es out s1 = (s', ms, x) \<or> s' = s1 \<and> ms = out"
    for m why s1 y
  proof -
    note v = dead_letter_views [OF d]
    have o1: "\<forall>m\<in>set out. hld s1 (ID m) = Some (Request m) \<and> clm s1 (ID m)"
    proof
      fix m' assume "m' \<in> set out"
      moreover from this have "ID m' \<in> ID ` set out" by (rule imageI)
      then have "ID m' \<noteq> ID m" using Cons.prems(2) m by auto
      ultimately show "hld s1 (ID m') = Some (Request m') \<and> clm s1 (ID m')"
        using Cons.prems(4) v(4) by simp
    qed
    have h1: "\<forall>e'\<in>set es. in_hand s1 e'"
    proof
      fix e' assume e': "e' \<in> set es"
      then have "xm_id e' \<in> xm_id ` set es" by (rule imageI)
      then have "ID m \<noteq> xm_id e'" using Cons.prems(2) m by auto
      with e' Cons.prems(3) show "in_hand s1 e'" by (intro in_hand_dead_letter [OF d]) auto
    qed
    have k1: "hld s1 j = Some r \<or> ded s1 j (RequestID r)" if "hld s j = Some r" for j r
      using that v(4) [of j] v(8) safe m by (cases "j = ID m") auto
    have k2: "0 < room s \<Longrightarrow> ded s a b \<Longrightarrow> ded s1 a b" for a b using v(5) by blast
    from rest show ?thesis
    proof
      assume r: "reclaim_entries q dl es out s1 = (s', ms, x)"
      have "distinct (map ID out @ map xm_id es)" using Cons.prems(2) by auto
      note IH = Cons.IH [OF r this h1 o1]
      have "(\<forall>j r. hld s j = Some r \<longrightarrow> hld s' j = Some r \<or> ded s' j (RequestID r)) \<and>
        (\<forall>a b. ded s a b \<longrightarrow> ded s' a b)" if l: "length (e # es) \<le> room s"
      proof -
        have "length es \<le> room s1" "0 < room s" using l v(3) by auto
        with IH k2 have g: "hld s1 j = Some r \<Longrightarrow> hld s' j = Some r \<or> ded s' j (RequestID r)"
          "ded s1 a b \<Longrightarrow> ded s' a b" "ded s a b \<Longrightarrow> ded s1 a b" for j r a b by blast+
        with k1 show ?thesis by blast
      qed
      with IH show ?thesis by blast
    next
      assume "s' = s1 \<and> ms = out"
      with k1 k2 o1 Cons.prems(2) show ?thesis by auto
    qed
  qed
  show ?case
  proof (cases "decode (rq_conv q) e")
    case (Inl err)
    obtain s1 y where d: "rs_DeadLetter q (bare_message (xm_id e)) (error_text err) s = (s1, y)"
      by force
    have "hld s (xm_id e) = None" using Cons.prems(3) Inl by (simp add: in_hand_def)
    moreover have "reclaim_entries q dl es out s1 = (s', ms, x)" using Cons.prems(1) Inl d by simp
    ultimately show ?thesis using step [OF d] by simp
  next
    case (Inr m)
    define n where "n = (case dl (xm_id e) of Some c \<Rightarrow> c | None \<Rightarrow> 0) + 1"
    define m' where "m' = m\<lparr>Deliveries := n\<rparr>"
    have m: "hld s (xm_id e) = Some (Request m')" "clm s (xm_id e)" "ID m' = xm_id e"
      using Cons.prems(3) Inr decode_id [OF Inr] by (simp_all add: in_hand_def m'_def)
    show ?thesis
    proof (cases "so_MaxDeliveries (rq_opts q) < n")
      case True
      obtain s1 y where d: "rs_DeadLetter q m' (''exceeded MaxDeliveries ('' @
          format_int (so_MaxDeliveries (rq_opts q)) @ '')'') s = (s1, y)" by force
      have "reclaim_entries q dl es out s1 = (s', ms, x) \<or> s' = s1 \<and> ms = out"
        using Cons.prems(1) Inr True d
        by (auto simp: n_def m'_def Let_def split: option.splits)
      then show ?thesis using step [OF d] m by simp
    next
      case False
      then have r: "reclaim_entries q dl es (out @ [m']) s = (s', ms, x)"
        using Cons.prems(1) Inr by (auto simp: n_def m'_def Let_def)
      have "distinct (map ID (out @ [m']) @ map xm_id es)" using Cons.prems(2) m by auto
      from Cons.IH [OF r this] Cons.prems(3,4) m show ?thesis by auto
    qed
  qed
qed

lemma claimed_views:
  assumes c: "claimed entries used deliv K G ids es s s'"
  shows "used s' = used s" "slk s' = slk s" "ded s' = ded s" "room s' = room s"
    and "hld s j = Some r \<Longrightarrow> hld s' j = Some r"
    and "\<forall>e\<in>set es. in_hand s' e" "distinct (map xm_id es)" "xm_id ` set es \<subseteq> set ids"
proof -
  have e: "entries s' = entries s" "used s' = used s" "distinct (map xm_id es)"
      "set es \<subseteq> set (entries s K)"
    and dl: "\<forall>e\<in>set es. xm_id e \<in> set ids \<and>
        (\<exists>c. deliv s K G (xm_id e) = Pending c \<and> deliv s' K G (xm_id e) = Pending (c + 1))"
    using c by (auto simp: claimed_def)
  have dj: "j \<in> xm_id ` set es \<or> deliv s' K G j = deliv s K G j \<or> j \<notin> xm_id ` set (entries s K)" for j
    using c unfolding claimed_def by blast
  show "used s' = used s" "slk s' = slk s" "ded s' = ded s" "room s' = room s"
    "distinct (map xm_id es)" "xm_id ` set es \<subseteq> set ids"
    using e dl by (auto simp: rs_slack_def [abs_def] rs_dead_def [abs_def] rs_deadroom_def)
  show "\<forall>e\<in>set es. in_hand s' e"
  proof
    fix x assume "x \<in> set es"
    moreover from this dl obtain c where "deliv s' K G (xm_id x) = Pending c" by blast
    ultimately show "in_hand s' x" using e by (intro in_handI) auto
  qed
  assume h: "hld s j = Some r"
  then have "j \<in> xm_id ` set (entries s K)" by (rule held_SomeD) auto
  with dj [of j] dl have "deliv s' K G j = deliv s K G j \<or> deliv s' K G j \<noteq> Settled" by auto
  with h e show "hld s' j = Some r"
    by (auto simp: rs_held_def live_request_def split: if_splits)
qed

lemma reclaim_cases:
  assumes "rs_Reclaim q d n s = (s', ms, x)"
  obtains (quiet) "unchanged entries used deliv s s'" "ms = []"
  | (lost) ids es where "claimed entries used deliv K G ids es s s'" "ms = []"
  | (taken) ids es dl s1 where "claimed entries used deliv K G ids es s s1" "length ids \<le> nat (max 1 n)"
      "reclaim_entries q dl es [] s1 = (s', ms, x)"
      "\<forall>i\<in>set ids. \<exists>c. dl i = Some c \<and> deliv s K G i = Pending c"
proof -
  let ?n = "if n \<le> 0 then 1 else n"
  obtain s1 r where p: "xpending_ext (rq_client q) K G d ?n s = (s1, r)" by force
  show thesis
  proof (cases r)
    case (Inl e)
    with p have "unchanged entries used deliv s s1" by (simp add: xpending_ext_err)
    moreover have "s' = s1" "ms = []"
      using assms p Inl by (auto simp: rs_Reclaim_def Let_def split: if_splits)
    ultimately show thesis by (intro quiet) auto
  next
    case (Inr ps)
    with p have u: "unchanged entries used deliv s s1" and l: "length ps \<le> nat ?n"
      and c: "\<forall>(i, c)\<in>set ps. deliv s K G i = Pending c"
      using xpending_ext_ok by blast+
    have dl: "\<forall>i\<in>set (map fst ps). \<exists>c. map_of (rev ps) i = Some c \<and> deliv s K G i = Pending c"
    proof
      fix i assume "i \<in> set (map fst ps)"
      then obtain c where "map_of (rev ps) i = Some c"
        by (metis map_of_eq_None_iff not_None_eq set_map set_rev)
      moreover from this have "(i, c) \<in> set ps" by (auto dest: map_of_SomeD)
      ultimately show "\<exists>c. map_of (rev ps) i = Some c \<and> deliv s K G i = Pending c"
        using c by auto
    qed
    show thesis
    proof (cases "ps = []")
      case True
      with assms p Inr u show thesis by (intro quiet) (auto simp: rs_Reclaim_def Let_def)
    next
      case False
      obtain s2 r2 where c: "xclaim (rq_client q) K G (so_Consumer (rq_opts q)) d (map fst ps) s1 = (s2, r2)"
        by force
      show thesis
      proof (cases r2)
        case (Inl e)
        with c obtain es where "claimed entries used deliv K G (map fst ps) es s1 s2"
          using xclaim_err by blast
        then have "claimed entries used deliv K G (map fst ps) es s s2"
          by (simp add: unchanged_cong(4) [OF u])
        moreover have "s' = s2" "ms = []"
          using assms p Inr False c Inl by (auto simp: rs_Reclaim_def Let_def split: if_splits)
        ultimately show thesis by (intro lost) auto
      next
        case (Inr es)
        with c have "claimed entries used deliv K G (map fst ps) es s1 s2" by (simp add: xclaim_ok)
        then have "claimed entries used deliv K G (map fst ps) es s s2"
          by (simp add: unchanged_cong(4) [OF u])
        moreover have "reclaim_entries q (map_of (rev ps)) es [] s2 = (s', ms, x)"
          using assms p \<open>r = Inr ps\<close> False c Inr by (simp add: rs_Reclaim_def Let_def)
        moreover have "length (map fst ps) \<le> nat (max 1 n)" using l by (simp split: if_splits)
        ultimately show thesis using dl by (intro taken) auto
      qed
    qed
  qed
qed

lemma reclaim_frame:
  assumes "rs_Reclaim q d n s = (s', ms, x)" "hld s j = Some r" "nat (max 1 n) \<le> room s"
  shows "hld s' j = Some r \<or> ded s' j (RequestID r)"
  using assms(1)
proof (cases rule: reclaim_cases)
  case quiet
  then show ?thesis using unchanged_views(2) [of s s'] assms(2) by simp
next
  case (lost ids es)
  then show ?thesis using claimed_views(5) [OF lost(1) assms(2)] by simp
next
  case (taken ids es dl s1)
  note c = claimed_views [OF taken(1)]
  have "length es \<le> length ids"
    using c(7,8) by (metis card_length card_mono distinct_card length_map list.set_map
        finite_set le_trans)
  with taken(2) assms(3) c(4) have "length es \<le> room s1" by simp
  with reclaim_entries_views [OF taken(3)] c(5) [OF assms(2)] c(6,7) show ?thesis by simp
qed

lemma reclaim_messages:
  assumes "rs_Reclaim q d n s = (s', ms, x)"
  shows "distinct (map ID ms) \<and> (\<forall>m\<in>set ms. hld s' (ID m) = Some (Request m) \<and> clm s' (ID m))"
  using assms
proof (cases rule: reclaim_cases)
  case (taken ids es dl s1)
  note c = claimed_views [OF taken(1)]
  show ?thesis using reclaim_entries_views [OF taken(3)] c(6,7) by simp
qed simp_all

end

text \<open>The contract holds for every stream of every Redis that behaves as documented.\<close>

sublocale redis_ride_queue < queue_contract
  "redis_queue q" "rs_held entries deliv q" "rs_claimed deliv q" "\<lambda>s. used s (streamKey q)"
  "rs_slack entries q" "rs_dead entries q" "rs_deadroom entries q"
  "nat (so_MaxLen (rq_opts q))" "storable_in (rq_conv q)"
proof (unfold_locales, goal_cases)
  case (1 s i r)
  then show ?case by (rule held_used)
next
  case (2 r t)
  then show ?case by (simp add: storable_in_def retried_def)
next
  case (3 r t)
  then show ?case by (simp add: storable_in_def)
next
  case (4 r s s' i)
  then show ?case by (auto simp: redis_queue_def dest: publish_new)
next
  case (5 r s s' x j r')
  then show ?case
    using publish_views(1-3) [of r s s' x] publish_views(4) [of r s s' x j r'] by (simp add: redis_queue_def)
next
  case (6 ids s s' e j)
  then show ?case
    using ack_views(1-4) [of ids s s' e] ack_views(5,6) [of ids s s' e j] by (simp add: redis_queue_def)
next
  case (7 ids s s' j)
  then show ?case using ack_views(7) [of ids s s' None j] by (simp add: redis_queue_def)
next
  case (8 m why s s' e j a b)
  then show ?case
    using dead_letter_views(1-3) [of m why s s' e] dead_letter_views(4) [of m why s s' e j]
      dead_letter_views(5) [of m why s s' e a b] by (simp add: redis_queue_def)
next
  case (9 m why s s')
  then show ?case using dead_letter_views(6,7) [of m why s s' None] by (simp add: redis_queue_def)
next
  case (10 m why s s' err)
  then show ?case using dead_letter_views(8) [of m why s s'] by (simp add: redis_queue_def)
next
  case (11 m s s' e j r')
  then show ?case using republish_frame [of m s s' e j r'] by (simp add: redis_queue_def)
next
  case (12 m s s' e)
  then show ?case using republish_result [of m s s' e] by (simp add: redis_queue_def)
next
  case (13 m s s')
  then show ?case using republish_settles [of m s s'] by (simp add: redis_queue_def)
next
  case (14 n blk s s' y j r')
  then show ?case using consume_frame [of n blk s s' y j r'] by (simp add: redis_queue_def)
next
  case (15 n blk s s' ms)
  then show ?case using consume_messages [of n blk s s' ms] by (simp add: redis_queue_def)
next
  case (16 d n s s' ms e j r')
  then show ?case using reclaim_frame [of d n s s' ms e j r'] by (simp add: redis_queue_def)
next
  case (17 d n s s' ms e)
  then show ?case using reclaim_messages [of d n s s' ms e] by (simp add: redis_queue_def)
qed

section \<open>A queue on the in-memory server\<close>

text \<open>An executable text form of the rationals, for the concrete queue below.\<close>

definition mem_conv :: float_conv where
  "mem_conv =
     \<lparr>format_float = (\<lambda>x. case x of
          NaN \<Rightarrow> ''NaN'' | PInf \<Rightarrow> ''+Inf'' | NInf \<Rightarrow> ''-Inf''
        | Fin r \<Rightarrow> format_int (fst (quotient_of r)) @ ''/'' @ format_int (snd (quotient_of r))),
      parse_float = (\<lambda>x.
        if x = ''NaN'' then Some NaN else if x = ''+Inf'' then Some PInf
        else if x = ''-Inf'' then Some NInf
        else case split_on (CHR ''/'') x of
               [a, b] \<Rightarrow> (case (parsed_ok (parse_int a), parsed_ok (parse_int b)) of
                            (Some n, Some d) \<Rightarrow> Some (Fin (of_int n / of_int d))
                          | _ \<Rightarrow> None)
             | _ \<Rightarrow> None)\<rparr>"

definition mem_queue :: "string \<Rightarrow> int \<Rightarrow> mem_server RedisStream" where
  "mem_queue tenant maxlen =
     \<lparr>rq_client = mem_streams,
      rq_opts = (DefaultStreamOptions ms_clock)\<lparr>so_TenantID := tenant, so_Consumer := ''c1'', so_MaxLen := maxlen\<rparr>,
      rq_conv = mem_conv\<rparr>"

lemma mem_queue_sel [simp]:
  "rq_client (mem_queue t n) = mem_streams" "rq_conv (mem_queue t n) = mem_conv"
  "so_MaxLen (rq_opts (mem_queue t n)) = n" "so_TenantID (rq_opts (mem_queue t n)) = t"
  "so_Group (rq_opts (mem_queue t n)) = ''batchers''" "so_Consumer (rq_opts (mem_queue t n)) = ''c1''"
  "so_MaxDeliveries (rq_opts (mem_queue t n)) = 5" "so_Now (rq_opts (mem_queue t n)) = ms_clock"
  by (simp_all add: mem_queue_def DefaultStreamOptions_def)

lemma mem_queue_redis: "0 < n \<Longrightarrow> redis_ride_queue (mem_queue t n) mem_entries mem_used ms_deliv"
  by (simp add: redis_ride_queue_def redis_ride_queue_axioms_def mem.redis_accepting_axioms)

interpretation memq: redis_ride_queue "mem_queue t 1000" mem_entries mem_used ms_deliv for t
  by (rule mem_queue_redis) simp

definition mem_empty :: mem_server where
  "mem_empty = \<lparr>ms_log = (\<lambda>_. []), ms_evicted = (\<lambda>_. 0), ms_deliv = (\<lambda>_ _ _. Undelivered),
                ms_faults = [], ms_clock = 5 * second\<rparr>"

definition sample_request :: RideRequest where
  "sample_request = \<lparr>RequestID = ''req-1'', TenantID = ''acme'', RiderID = ''r1'', Lat = Fin 37,
     Lng = Fin (- 122), RequestedAt = zero_time, MatchAttempts = 0\<rparr>"

definition sample_message :: Message where
  "sample_message = \<lparr>ID = mem_id 0, Request = sample_request, Deliveries = 1\<rparr>"

end
