(* ===== verification/Queue_Properties.thy ===== *)
theory Queue_Properties
  imports Queue_Contract
begin

text \<open>
  The properties of \<open>internal/queue\<close>: what a stream built by \<open>NewRedisStream\<close> guarantees to its
  clients, whatever fails. Each is stated for every Redis that satisfies the locale of
  \<open>Redis_Streams\<close>, and instantiated on the in-memory server by its witness. The last one shows
  the limit of \<open>DeadLetter\<close>: a server that refuses \<open>XADD\<close> loses the request.
\<close>

context redis_ride_queue
begin

lemma publish_exact:
  assumes p: "rs_Publish q r s = (s', Inr i)" and st: "storable_in (rq_conv q) r"
    and t: "in_int64 (unix_milli (publish_time q r s))"
  shows "hld s' i = Some (r\<lparr>RequestedAt := time_unix_milli (unix_milli (publish_time q r s))\<rparr>)"
proof -
  let ?f = "request_fields (rq_conv q) r (publish_time q r s)"
  have a: "appended entries used deliv K (so_MaxLen (rq_opts q)) ?f i s s'" and r: "RequestID r \<noteq> []"
    using p by (auto elim: publish_cases)
  show ?thesis using appended_new [OF a decode_encoded [OF st r t]] by auto
qed

lemma reclaim_entries_counts:
  assumes "reclaim_entries q dl es out s = (s', ms, x)" "m \<in> set ms"
  shows "m \<in> set out \<or>
    (\<exists>e\<in>set es. ID m = xm_id e \<and> Deliveries m \<le> so_MaxDeliveries (rq_opts q) \<and>
       Deliveries m = (case dl (xm_id e) of Some c \<Rightarrow> c | None \<Rightarrow> 0) + 1)"
  using assms
proof (induction es arbitrary: s out)
  case Nil
  then show ?case by simp
next
  case (Cons e es)
  from Cons.prems(1) consider
      (rest) s1 where "reclaim_entries q dl es out s1 = (s', ms, x)"
    | (stop) "ms = out"
    | (keep) m' where "decode (rq_conv q) e = Inr m'"
        "(case dl (xm_id e) of Some c \<Rightarrow> c | None \<Rightarrow> 0) + 1 \<le> so_MaxDeliveries (rq_opts q)"
        "reclaim_entries q dl es
           (out @ [m'\<lparr>Deliveries := (case dl (xm_id e) of Some c \<Rightarrow> c | None \<Rightarrow> 0) + 1\<rparr>]) s = (s', ms, x)"
    by (auto simp: Let_def split: sum.splits if_splits prod.splits option.splits)
  then show ?case
  proof cases
    case rest
    from Cons.IH [OF rest Cons.prems(2)] show ?thesis by auto
  next
    case keep
    from Cons.IH [OF keep(3) Cons.prems(2)] keep(2) decode_id [OF keep(1)] show ?thesis by auto
  qed (use Cons.prems(2) in simp)
qed

lemma reclaim_counts:
  assumes "rs_Reclaim q d n s = (s', ms, x)" "m \<in> set ms"
  shows "Deliveries m \<le> so_MaxDeliveries (rq_opts q)" "deliv s K G (ID m) = Pending (Deliveries m - 1)"
proof -
  from assms(1) have "Deliveries m \<le> so_MaxDeliveries (rq_opts q) \<and>
      deliv s K G (ID m) = Pending (Deliveries m - 1)"
  proof (cases rule: reclaim_cases)
    case (taken ids es dl s1)
    from reclaim_entries_counts [OF taken(3) assms(2)] obtain e where e: "e \<in> set es"
      "ID m = xm_id e" "Deliveries m \<le> so_MaxDeliveries (rq_opts q)"
      "Deliveries m = (case dl (xm_id e) of Some c \<Rightarrow> c | None \<Rightarrow> 0) + 1" by auto
    with claimed_views(8) [OF taken(1)] taken(4) show ?thesis by force
  qed (use assms(2) in simp_all)
  then show "Deliveries m \<le> so_MaxDeliveries (rq_opts q)" "deliv s K G (ID m) = Pending (Deliveries m - 1)"
    by simp_all
qed

lemma keeps_contract:
  "queue_contract (redis_queue q) hld clm (\<lambda>s. used s K) slk ded room M (storable_in (rq_conv q))"
  by (rule queue_contract_axioms)

end

lemma NewRedisStream_queue:
  assumes "NewRedisStream client conv opts s = (s', Inr q)" "redis_accepting client entries used deliv"
  shows "redis_ride_queue q entries used deliv"
  using assms
  by (auto simp: NewRedisStream_def Let_def redis_ride_queue_def redis_ride_queue_axioms_def
      split: if_splits prod.splits option.splits)

section \<open>The properties\<close>



text \<open>A concrete stream for the witnesses: \<open>stored\<close> has the sample request published; in \<open>handed\<close>
  it has been delivered once and is pending.\<close>

abbreviation acme :: "mem_server RedisStream" where "acme \<equiv> mem_queue ''acme'' 1000"

definition stored :: mem_server where
  "stored = fst (rs_Publish acme sample_request mem_empty)"

definition sample_fields :: "(string \<times> string) list" where
  "sample_fields = [(''request_id'', ''req-1''), (''tenant_id'', ''acme''), (''rider_id'', ''r1''),
     (''lat'', ''37/1''), (''lng'', ''-122/1''), (''requested_at'', ''5000''),
     (''match_attempts'', ''0'')]"

definition handed :: mem_server where
  "handed = mem_empty
     \<lparr>ms_log := (\<lambda>k. if k = ''requests:stream:acme'' then [sample_fields] else []),
      ms_deliv := (\<lambda>k g j. if k = ''requests:stream:acme'' \<and> g = ''batchers'' \<and> j = ''i''
                          then Pending 1 else Undelivered)\<rparr>"




text \<open>C11. \<open>Republish\<close> never loses the message and never lowers its attempt count: whatever it
  returns, the request is still held under the old id, or a copy with one more attempt is held
  under a new id; when it succeeds the old id is settled, so exactly the copy remains.\<close>

theorem republish_never_loses:
  assumes "redis_ride_queue q entries used deliv" "rs_Republish q m s = (s', err)"
    and "rs_held entries deliv q s (ID m) = Some (Request m)" "0 < rs_slack entries q s (ID m)"
    and "storable_in (rq_conv q) (Request m)" "ID m \<noteq> []" "rs_claimed deliv q s (ID m)"
  shows "(rs_held entries deliv q s' (ID m) = Some (Request m) \<and> err \<noteq> None \<or>
    (\<exists>i t. i \<notin> used s (streamKey q) \<and> rs_held entries deliv q s' i = Some (retried (Request m) t))) \<and>
    (err = None \<longrightarrow> rs_held entries deliv q s' (ID m) = None)"
proof (intro conjI impI)
  show "rs_held entries deliv q s' (ID m) = Some (Request m) \<and> err \<noteq> None \<or>
    (\<exists>i t. i \<notin> used s (streamKey q) \<and> rs_held entries deliv q s' i = Some (retried (Request m) t))"
    using redis_ride_queue.republish_result [OF assms(1-5)] by blast
  show "rs_held entries deliv q s' (ID m) = None" if "err = None"
    using redis_ride_queue.republish_settles [OF assms(1) _ assms(3,4,6,7)] assms(2) that by simp
qed

lemma handed_message:
  "rs_held mem_entries ms_deliv acme handed (mem_id 0) =
     Some (sample_request\<lparr>RequestedAt := 5 * second\<rparr>)"
  "rs_slack mem_entries acme handed (mem_id 0) = 999"
  "rs_claimed ms_deliv acme handed (mem_id 0)"
  "ms_deliv handed ''requests:stream:acme'' ''batchers'' (mem_id 0) = Pending 1"
  by code_simp+

definition handed_message1 :: Message where
  "handed_message1 = \<lparr>ID = mem_id 0, Request = sample_request\<lparr>RequestedAt := 5 * second\<rparr>,
     Deliveries = 1\<rparr>"

theorem republish_never_loses_witness:
  "rs_held mem_entries ms_deliv acme (fst (rs_Republish acme handed_message1 handed)) (mem_id 0) = None"
proof -
  have "snd (rs_Republish acme handed_message1 handed) = None" by code_simp
  then have r: "rs_Republish acme handed_message1 handed = (fst (rs_Republish acme handed_message1 handed), None)"
    by (simp add: prod_eq_iff)
  have "storable_in (rq_conv acme) (Request handed_message1)" by code_simp
  from republish_never_loses [OF memq.redis_ride_queue_axioms r _ _ this] show ?thesis
    by (simp add: handed_message handed_message1_def)
qed


definition reclaimed :: "mem_server \<times> Message list \<times> goerr option" where
  "reclaimed = rs_Reclaim acme second 10 handed"


text \<open>C12. \<open>DeadLetter\<close> on a server that executes what reaches it: whether it returns an error or
  not, the message is recorded in the dead-letter stream or still held; on success it is recorded
  and, if it was claimed, settled; no other message is touched.\<close>

theorem dead_letter_never_loses:
  assumes "redis_ride_queue q entries used deliv" "rs_DeadLetter q m why s = (s', err)"
  shows "(rs_dead entries q s' (ID m) (RequestID (Request m)) \<or>
      err \<noteq> None \<and> rs_held entries deliv q s' (ID m) = rs_held entries deliv q s (ID m)) \<and>
    (err = None \<and> ID m \<noteq> [] \<and> rs_claimed deliv q s (ID m) \<longrightarrow> rs_held entries deliv q s' (ID m) = None) \<and>
    (\<forall>j. j \<noteq> ID m \<longrightarrow> rs_held entries deliv q s' j = rs_held entries deliv q s j)"
  using redis_ride_queue.dead_letter_views(4,6,7,8) [OF assms] by blast

theorem dead_letter_never_loses_witness:
  "rs_held mem_entries ms_deliv acme (fst (rs_DeadLetter acme handed_message1 ''bad'' handed)) (mem_id 0) = None"
proof -
  have "snd (rs_DeadLetter acme handed_message1 ''bad'' handed) = None" by code_simp
  then have r: "rs_DeadLetter acme handed_message1 ''bad'' handed =
      (fst (rs_DeadLetter acme handed_message1 ''bad'' handed), None)"
    by (simp add: prod_eq_iff)
  from dead_letter_never_loses [OF memq.redis_ride_queue_axioms r] show ?thesis
    by (simp add: handed_message handed_message1_def)
qed

text \<open>The comment on \<open>DeadLetter\<close> says that if the \<open>XADD\<close> fails the message stays pending and
  is retried rather than silently vanishing. A pipeline is not a transaction: on a server that is
  out of memory and refuses the \<open>XADD\<close>, the \<open>XACK\<close> behind it still executes, \<open>DeadLetter\<close> returns
  the error, and the request is neither held nor recorded.\<close>

theorem dead_letter_oom_loses:
  "let q = acme\<lparr>rq_client := oom_streams\<rparr>; (s', err) = rs_DeadLetter q handed_message1 ''bad'' handed
   in rs_held mem_entries ms_deliv q handed (mem_id 0) = Some (Request handed_message1) \<and>
      err = Some (Wrapf ''queue: dead-letter: '' (RedisError ''OOM command not allowed'') []) \<and>
      rs_held mem_entries ms_deliv q s' (mem_id 0) = None \<and>
      \<not> rs_dead mem_entries q s' (mem_id 0) ''req-1''"
  by code_simp

end
