(* ===== verification/Batcher_Properties.thy ===== *)
theory Batcher_Properties
  imports Batcher Queue_Properties Locations_Properties
begin

text \<open>
  The properties of the batcher. \<open>batcher_world\<close> is the interface it relies on: a queue that keeps
  \<open>queue_contract\<close>, and a driver store, an engine and metric hooks that leave the queue alone. In it,
  \<open>accounted\<close> says where a request can be after a batch: still held, held as a copy with one more
  attempt under a new id, or in the dead-letter log.
\<close>

section \<open>The median\<close>

lemma insort_snoc_less: "x < y \<Longrightarrow> insort x (xs @ [y]) = insort x xs @ [y]" for x y :: int
  by (induction xs) auto

lemma insort_last: "sorted xs \<Longrightarrow> \<forall>y\<in>set xs. y \<le> x \<Longrightarrow> insort x xs = xs @ [x]" for x :: int
  using properties_for_sort [of "insort x xs" "xs @ [x]"]
  by (simp add: sorted_insort sorted_sort_id sorted_append)

text \<open>The inner loop inserts the element at \<open>j\<close> into the sorted prefix before it.\<close>

lemma sift_down_insort:
  "sorted xs \<Longrightarrow> sift_down (xs @ x # ys) (length xs) = insort x xs @ ys"
proof (induction xs arbitrary: ys rule: rev_induct)
  case (snoc y xs)
  then have s: "sorted xs" "\<forall>z\<in>set xs. z \<le> y" by (auto simp: sorted_append)
  show ?case
  proof (cases "x < y")
    case True
    have "sift_down ((xs @ [y]) @ x # ys) (length (xs @ [y])) = sift_down (xs @ x # (y # ys)) (length xs)"
      using True by (simp add: nth_append list_update_append)
    also have "\<dots> = insort x xs @ y # ys" using snoc.IH [OF s(1)] .
    finally show ?thesis using True by (simp add: insort_snoc_less)
  next
    case False
    with s snoc.prems have "insort x (xs @ [y]) = (xs @ [y]) @ [x]" by (intro insort_last) force+
    with False show ?thesis by (simp add: nth_append)
  qed
qed simp

lemma insertion_sort_prefix:
  "n \<le> length ws \<Longrightarrow> 0 < n \<Longrightarrow> fold (\<lambda>i w. sift_down w i) [1..<n] ws = sort (take n ws) @ drop n ws"
proof (induction n)
  case (Suc n)
  show ?case
  proof (cases "n = 0")
    case True
    with Suc.prems show ?thesis by (cases ws) auto
  next
    case False
    have "drop n ws = ws ! n # drop (Suc n) ws" using Suc.prems by (simp add: Cons_nth_drop_Suc)
    with Suc False have "fold (\<lambda>i w. sift_down w i) [1..<Suc n] ws =
        sift_down (sort (take n ws) @ ws ! n # drop (Suc n) ws) (length (sort (take n ws)))"
      by simp
    also have "\<dots> = insort (ws ! n) (sort (take n ws)) @ drop (Suc n) ws"
      by (rule sift_down_insort) simp
    also have "insort (ws ! n) (sort (take n ws)) = sort (take (Suc n) ws)"
    proof (rule properties_for_sort [symmetric])
      show "sorted (insort (ws ! n) (sort (take n ws)))" by (simp add: sorted_insort)
      show "mset (insort (ws ! n) (sort (take n ws))) = mset (take (Suc n) ws)"
        using Suc.prems by (simp add: take_Suc_conv_app_nth)
    qed
    finally show ?thesis .
  qed
qed simp

lemma insertion_sort_sort: "insertion_sort ws = sort ws"
proof (cases ws)
  case (Cons w ws')
  then have "fold (\<lambda>i w. sift_down w i) [1..<length ws] ws = sort (take (length ws) ws) @ drop (length ws) ws"
    by (intro insertion_sort_prefix) auto
  then show ?thesis by (simp add: insertion_sort_def)
qed (simp add: insertion_sort_def)

section \<open>The world of a batcher\<close>

definition same_view ::
  "('s \<Rightarrow> string \<Rightarrow> RideRequest option) \<Rightarrow> ('s \<Rightarrow> string \<Rightarrow> bool) \<Rightarrow> ('s \<Rightarrow> string set) \<Rightarrow>
   ('s \<Rightarrow> string \<Rightarrow> nat) \<Rightarrow> ('s \<Rightarrow> string \<Rightarrow> string \<Rightarrow> bool) \<Rightarrow> ('s \<Rightarrow> nat) \<Rightarrow> 's \<Rightarrow> 's \<Rightarrow> bool" where
  "same_view held claimed_by known slack dead deadroom s s' \<longleftrightarrow>
     held s' = held s \<and> claimed_by s' = claimed_by s \<and> known s' = known s \<and> slack s' = slack s \<and>
     dead s' = dead s \<and> deadroom s' = deadroom s"

text \<open>Where the request of a message can be: \<open>K\<close> are the ids the queue had used before.\<close>

definition accounted ::
  "('s \<Rightarrow> string \<Rightarrow> RideRequest option) \<Rightarrow> ('s \<Rightarrow> string \<Rightarrow> string \<Rightarrow> bool) \<Rightarrow> string set \<Rightarrow> 's \<Rightarrow> Message \<Rightarrow> bool" where
  "accounted held dead K s m \<longleftrightarrow>
     held s (ID m) = Some (Request m) \<or>
     (\<exists>i t. i \<notin> K \<and> held s i = Some (retried (Request m) t)) \<or>
     dead s (ID m) (RequestID (Request m))"

text \<open>The engine, asked about exactly this batch, answered that the rider is matched.\<close>

definition engine_matched :: "'s Batcher \<Rightarrow> Message list \<Rightarrow> Message \<Rightarrow> bool" where
  "engine_matched b msgs m \<longleftrightarrow>
     (\<exists>c rq t t' resp. api_SolveBatch (ec_api (b_engine b)) c rq t = (t', Inr resp) \<and>
        map rider_Id (Riders rq) = map (RequestID \<circ> Request) msgs \<and>
        RequestID (Request m) \<in> RiderId ` set (Matches resp))"

text \<open>What must hold of a batch when it is handed to \<open>processBatch\<close>: its messages are distinct and
  held, can be written back, and neither the stream nor the dead-letter log evicts them meanwhile.\<close>

definition custody ::
  "('s \<Rightarrow> string \<Rightarrow> RideRequest option) \<Rightarrow> ('s \<Rightarrow> string \<Rightarrow> nat) \<Rightarrow> ('s \<Rightarrow> nat) \<Rightarrow> nat \<Rightarrow>
   (RideRequest \<Rightarrow> bool) \<Rightarrow> Message list \<Rightarrow> 's \<Rightarrow> bool" where
  "custody held slack deadroom cap storable msgs s \<longleftrightarrow>
     distinct (map ID msgs) \<and> length msgs \<le> deadroom s \<and> length msgs \<le> cap \<and>
     (\<forall>m\<in>set msgs. held s (ID m) = Some (Request m) \<and> length msgs \<le> slack s (ID m) \<and> storable (Request m))"

locale batcher_world =
  queue_contract "b_queue b" held claimed_by known slack dead deadroom cap storable
  for b :: "'s Batcher" and held claimed_by known slack dead deadroom cap storable +
  assumes nearby_frame: "repo_NearbyMany (b_drivers b) qs s = (s', x) \<Longrightarrow>
      same_view held claimed_by known slack dead deadroom s s'"
    and engine_frame: "api_SolveBatch (ec_api (b_engine b)) c rq s = (s', y) \<Longrightarrow>
      same_view held claimed_by known slack dead deadroom s s'"
    and prom_frame: "same_view held claimed_by known slack dead deadroom s (prom b xs s)"
    and hook_frame: "OnBatch (b_cfg b) = Some f \<Longrightarrow>
      same_view held claimed_by known slack dead deadroom s (f bm s)"
begin

abbreviation same :: "'s \<Rightarrow> 's \<Rightarrow> bool" where
  "same \<equiv> same_view held claimed_by known slack dead deadroom"

lemma same_trans: "same s t \<Longrightarrow> same t u \<Longrightarrow> same s u"
  by (simp add: same_view_def)

lemma emit_frame: "same s (emit b m started s)"
  using prom_frame [of s "samples (b_cfg b) (finish_metrics b m started s)"] hook_frame
  by (auto simp: emit_def Let_def intro: same_trans split: option.splits)

lemma solve_frame: "SolveBatch (b_engine b) ctx rq s = (s', r) \<Longrightarrow> same s s'"
  by (auto simp: SolveBatch_def same_view_def split: option.splits prod.splits dest!: engine_frame)

text \<open>Accounted for with room for \<open>n\<close> more publishes.\<close>

definition acct :: "string set \<Rightarrow> nat \<Rightarrow> 's \<Rightarrow> Message \<Rightarrow> bool" where
  "acct K n s m \<longleftrightarrow>
     (held s (ID m) = Some (Request m) \<and> n \<le> slack s (ID m)) \<or>
     (\<exists>i t. i \<notin> K \<and> held s i = Some (retried (Request m) t) \<and> n \<le> slack s i) \<or>
     dead s (ID m) (RequestID (Request m))"

lemma acct_accounted: "acct K n s m \<Longrightarrow> accounted held dead K s m"
  by (auto simp: acct_def accounted_def)

text \<open>One message of the batch dead-lettered or republished, whatever the outcome.\<close>

definition settles :: "Message \<Rightarrow> 's \<Rightarrow> 's \<Rightarrow> bool" where
  "settles m s s' \<longleftrightarrow>
     (\<exists>why e. DeadLetter (b_queue b) m why s = (s', e)) \<or> (\<exists>e. Republish (b_queue b) m s = (s', e))"

lemma settles_ops:
  "DeadLetter (b_queue b) m why s = (t, e) \<Longrightarrow> settles m s t"
  "Republish (b_queue b) m s = (t, e) \<Longrightarrow> settles m s t"
  by (auto simp: settles_def)

lemma settles_frame:
  assumes "settles m s s'" "j \<noteq> ID m" "held s j = Some r" "0 < slack s j"
  shows "held s' j = Some r" "slack s j \<le> Suc (slack s' j)"
  using assms dead_letter_keeps [of m] republish_keeps [of m] unfolding settles_def by (metis le_SucI order_refl)+

lemma settles_known: "settles m s s' \<Longrightarrow> known s \<subseteq> known s'"
proof -
  obtain j where j: "j \<noteq> ID m" by (metis list.distinct(1) neq_Nil_conv)
  assume "settles m s s'"
  with j dead_letter_keeps [of m _ s s'] republish_keeps [of m s s' _ j] show ?thesis
    unfolding settles_def by blast
qed

lemma settles_dead:
  assumes "settles m s s'"
  shows "deadroom s \<le> Suc (deadroom s')" "0 < deadroom s \<Longrightarrow> dead s a c \<Longrightarrow> dead s' a c"
proof -
  obtain j where j: "j \<noteq> ID m" by (metis list.distinct(1) neq_Nil_conv)
  show "deadroom s \<le> Suc (deadroom s')"
    using assms dead_letter_keeps [of m _ s s'] republish_keeps [OF _ j, of s s'] unfolding settles_def
    by (metis le_SucI order_refl)
  show "dead s' a c" if "0 < deadroom s" "dead s a c"
    using assms that dead_letter_keeps [of m _ s s'] republish_keeps [OF _ j, of s s'] unfolding settles_def by metis
qed

lemma settles_self:
  assumes "settles m s s'" "held s (ID m) = Some (Request m)" "Suc n \<le> slack s (ID m)" "Suc n \<le> cap"
    "storable (Request m)" "known s \<supseteq> K"
  shows "acct K n s' m"
proof -
  have sl: "0 < slack s (ID m)" using assms(3) by simp
  from assms(1) consider why e where "DeadLetter (b_queue b) m why s = (s', e)"
    | e where "Republish (b_queue b) m s = (s', e)" by (auto simp: settles_def)
  then show ?thesis
  proof cases
    case 1
    have "slack s' = slack s" using dead_letter_keeps [OF 1] by blast
    moreover have "held s' (ID m) = held s (ID m) \<or> dead s' (ID m) (RequestID (Request m))"
      using 1 dead_letter_failed [of m why s s'] dead_letter_done [of m why s s'] by (cases e) auto
    ultimately show ?thesis using assms(2,3) by (auto simp: acct_def)
  next
    case 2
    from republish_safe [OF 2 assms(2) sl assms(5)] assms(3,4,6) show ?thesis
      unfolding acct_def by fastforce
  qed
qed

lemma settles_acct:
  assumes "settles m s s'" "ID m' \<noteq> ID m" "ID m \<in> K" "acct K (Suc n) s m'" "0 < deadroom s"
  shows "acct K n s' m'"
proof -
  have keep: "held s j = Some r \<Longrightarrow> Suc n \<le> slack s j \<Longrightarrow> j \<noteq> ID m \<Longrightarrow> held s' j = Some r \<and> n \<le> slack s' j" for j r
    using settles_frame [OF assms(1), of j r] by linarith
  from assms(4) consider (held) "held s (ID m') = Some (Request m')" "Suc n \<le> slack s (ID m')"
    | (copy) i t where "i \<notin> K" "held s i = Some (retried (Request m') t)" "Suc n \<le> slack s i"
    | (gone) "dead s (ID m') (RequestID (Request m'))" by (auto simp: acct_def)
  then show ?thesis
  proof cases
    case held
    with keep assms(2) show ?thesis by (auto simp: acct_def)
  next
    case copy
    with assms(3) have "i \<noteq> ID m" by auto
    with keep [OF copy(2,3)] copy(1) show ?thesis by (auto simp: acct_def)
  next
    case gone
    with settles_dead(2) [OF assms(1,5)] show ?thesis by (simp add: acct_def)
  qed
qed

text \<open>A sequence of messages settled one after the other.\<close>

fun runs :: "Message list \<Rightarrow> 's \<Rightarrow> 's \<Rightarrow> bool" where
  "runs [] s s' \<longleftrightarrow> s' = s"
| "runs (m # ms) s s' \<longleftrightarrow> (\<exists>t. settles m s t \<and> runs ms t s')"

lemma runs_known: "runs ms s s' \<Longrightarrow> known s \<subseteq> known s'"
  by (induction ms arbitrary: s) (auto dest!: settles_known)

lemma runs_held:
  "runs ms s s' \<Longrightarrow> j \<notin> ID ` set ms \<Longrightarrow> held s j = Some r \<Longrightarrow> length ms + n \<le> slack s j \<Longrightarrow>
     held s' j = Some r \<and> n \<le> slack s' j"
proof (induction ms arbitrary: s)
  case (Cons m ms)
  from Cons.prems(1) obtain t where t: "settles m s t" "runs ms t s'" by auto
  have "held t j = Some r \<and> slack s j \<le> Suc (slack t j)"
    using settles_frame [OF t(1), of j r] Cons.prems by auto
  with Cons.IH [OF t(2)] Cons.prems(2,4) show ?case by auto
qed simp

lemma runs_acct:
  "runs ms s s' \<Longrightarrow> ID m' \<notin> ID ` set ms \<Longrightarrow> ID ` set ms \<subseteq> K \<Longrightarrow> acct K (length ms + n) s m' \<Longrightarrow>
     length ms \<le> deadroom s \<Longrightarrow> acct K n s' m'"
proof (induction ms arbitrary: s)
  case (Cons m ms)
  from Cons.prems(1) obtain t where t: "settles m s t" "runs ms t s'" by auto
  have "acct K (length ms + n) t m'"
    using settles_acct [OF t(1)] Cons.prems by auto
  moreover have "length ms \<le> deadroom t" using settles_dead(1) [OF t(1)] Cons.prems(5) by auto
  ultimately show ?case using Cons.IH [OF t(2)] Cons.prems(2,3) by auto
qed simp

lemma runs_accounts:
  assumes "runs ms s s'" "distinct (map ID ms)" "K \<subseteq> known s" "length ms \<le> deadroom s" "length ms + n \<le> cap"
    and "\<forall>m\<in>set ms. held s (ID m) = Some (Request m) \<and> length ms + n \<le> slack s (ID m) \<and>
      storable (Request m) \<and> ID m \<in> K"
  shows "\<forall>m\<in>set ms. acct K n s' m"
  using assms
proof (induction ms arbitrary: s)
  case (Cons m ms)
  from Cons.prems(1) obtain t where t: "settles m s t" "runs ms t s'" by auto
  have kt: "K \<subseteq> known t" using settles_known [OF t(1)] Cons.prems(3) by blast
  have dt: "length ms \<le> deadroom t" using settles_dead(1) [OF t(1)] Cons.prems(4) by auto
  have ids: "ID m \<notin> ID ` set ms" "distinct (map ID ms)" "ID ` set ms \<subseteq> K" using Cons.prems(2,6) by auto
  have "acct K (length ms + n) t m"
    using settles_self [OF t(1) _ _ _ _ Cons.prems(3), of "length ms + n"] Cons.prems(5,6) by auto
  then have head: "acct K n s' m" using runs_acct [OF t(2) ids(1,3)] dt by blast
  have "\<forall>m'\<in>set ms. held t (ID m') = Some (Request m') \<and> length ms + n \<le> slack t (ID m') \<and>
      storable (Request m') \<and> ID m' \<in> K"
  proof
    fix m' assume m': "m' \<in> set ms"
    then have "ID m' \<noteq> ID m" using ids(1) by (metis imageI)
    with m' Cons.prems(6) settles_frame [OF t(1), of "ID m'" "Request m'"]
    show "held t (ID m') = Some (Request m') \<and> length ms + n \<le> slack t (ID m') \<and>
        storable (Request m') \<and> ID m' \<in> K" by auto
  qed
  with Cons.IH [OF t(2) ids(2) kt dt] Cons.prems(5) head show ?case by auto
qed simp

lemma dead_letter_all_runs: "runs ms s (dead_letter_all (b_queue b) why ms s)"
proof (induction ms arbitrary: s)
  case (Cons m ms)
  have "settles m s (fst (DeadLetter (b_queue b) m why s))"
    unfolding settles_def by (metis prod.collapse)
  with Cons show ?case by auto
qed simp

lemma settle_loop_runs:
  "settle_loop (b_queue b) a M msgs s = (s', acks, rq, ex) \<Longrightarrow>
     runs (filter (\<lambda>m. RequestID (Request m) \<notin> M) msgs) s s' \<and>
     acks = map ID (filter (\<lambda>m. RequestID (Request m) \<in> M) msgs)"
proof (induction msgs arbitrary: s acks rq ex)
  case (Cons m msgs)
  show ?case
  proof (cases "RequestID (Request m) \<in> M")
    case True
    with Cons show ?thesis by (auto split: prod.splits)
  next
    case False
    with Cons.prems obtain t rq' ex' where t: "settles m s t"
      and l: "settle_loop (b_queue b) a M msgs t = (s', acks, rq', ex')"
      by (auto simp: Let_def dest!: settles_ops split: if_splits prod.splits)
    from Cons.IH [OF l] t False show ?thesis by auto
  qed
qed simp

lemma ack_all_frame:
  assumes "ack_all (b_queue b) ids s = (s', e)" "j \<notin> set ids"
  shows "held s' j = held s j \<and> dead s' = dead s \<and> slack s' = slack s"
  using assms ack_keeps [of ids s s' e j] by (auto simp: ack_all_def split: if_splits)

abbreviation in_custody :: "Message list \<Rightarrow> 's \<Rightarrow> bool" where
  "in_custody \<equiv> custody held slack deadroom cap storable"

lemmas in_custody_def = custody_def [of held slack deadroom cap storable]

lemma in_custody_same: "same s s' \<Longrightarrow> in_custody msgs s \<Longrightarrow> in_custody msgs s'"
  by (simp add: same_view_def in_custody_def)

lemma in_custody_filter: "in_custody msgs s \<Longrightarrow> in_custody (filter P msgs) s"
  by (auto simp: in_custody_def distinct_map_filter intro: le_trans [OF length_filter_le])

lemma runs_custody:
  assumes "runs msgs s s'" "in_custody msgs s" "m \<in> set msgs"
  shows "acct (known s) 0 s' m"
  using runs_accounts [OF assms(1), of "known s" 0] assms(2,3) held_known
  unfolding in_custody_def by auto

lemma settle_batch_accounts:
  assumes sb: "settle_batch b msgs resp metrics started (s, st) = (s', st')" and c: "in_custody msgs s"
    and m: "m \<in> set msgs"
  shows "accounted held dead (known s) s' m \<or> RequestID (Request m) \<in> matched_set resp"
proof (cases "RequestID (Request m) \<in> matched_set resp")
  case False
  let ?M = "matched_set resp"
  obtain s1 acks rq ex where l: "settle_loop (b_queue b) (MaxMatchAttempts (b_cfg b)) ?M msgs s = (s1, acks, rq, ex)"
    by (metis prod_cases4)
  obtain s2 e where k: "ack_all (b_queue b) acks s1 = (s2, e)" by force
  have "\<exists>bm. s' = emit b bm started s2" using sb l k by (auto simp: settle_batch_def Let_def)
  then have e: "same s2 s'" using emit_frame by blast
  note r = settle_loop_runs [OF l]
  have acks: "set acks \<subseteq> known s" "ID m \<notin> set acks"
    using r c m False held_known by (auto simp: in_custody_def distinct_map inj_on_def)
  have "acct (known s) 0 s1 m"
    using runs_custody [OF _ in_custody_filter [OF c]] r m False by auto
  then have "acct (known s) 0 s2 m"
    using ack_all_frame [OF k] acks unfolding acct_def by (metis subsetD)
  with e show ?thesis by (auto simp: acct_def accounted_def same_view_def)
qed simp

lemma batch_request_riders:
  "map rider_Id (Riders (batch_request b batchID msgs drivers)) = map (RequestID \<circ> Request) msgs"
  by (simp add: batch_request_def)

lemma custody_accounted: "in_custody msgs s \<Longrightarrow> m \<in> set msgs \<Longrightarrow> same s s' \<Longrightarrow> accounted held dead K s' m"
  by (simp add: in_custody_def accounted_def same_view_def)

lemma solve_batch_accounts:
  assumes sb: "solve_batch b ctx batchID msgs drivers metrics started (s, st) = (s', st')"
    and c: "in_custody msgs s" and m: "m \<in> set msgs"
  shows "accounted held dead (known s) s' m \<or> engine_matched b msgs m"
proof -
  let ?rq = "batch_request b batchID msgs drivers"
  let ?c = "with_timeout (api_now (ec_api (b_engine b)) s) (SolveTimeout (b_cfg b)) ctx"
  obtain s1 r where r: "SolveBatch (b_engine b) ?c (Some ?rq) s = (s1, r)" by force
  have f: "same s s1" using solve_frame [OF r] .
  then have c1: "in_custody msgs s1" and k: "known s1 = known s"
    using c in_custody_same by (auto simp: same_view_def)
  show ?thesis
  proof (cases r)
    case (Inl err)
    show ?thesis
    proof (cases "Retryable (Some err)")
      case True
      with sb r Inl have "\<exists>bm. s' = emit b bm started s1"
        by (auto simp: solve_batch_def Let_def simp del: Retryable.simps)
      then have "same s s'" using same_trans [OF f] emit_frame by blast
      then show ?thesis using custody_accounted [OF c m] by blast
    next
      case False
      let ?s2 = "dead_letter_all (b_queue b) (error_text err) msgs s1"
      from sb r Inl False have "\<exists>bm. s' = emit b bm started ?s2"
        by (auto simp: solve_batch_def Let_def simp del: Retryable.simps)
      then have e: "same ?s2 s'" using emit_frame by blast
      from runs_custody [OF dead_letter_all_runs c1 m, of "error_text err"] k e show ?thesis
        by (auto simp: acct_def accounted_def same_view_def)
    qed
  next
    case (Inr resp)
    with sb r obtain bm where sb': "settle_batch b msgs resp bm started (s1, st) = (s', st')"
      by (auto simp: solve_batch_def Let_def)
    have "engine_matched b msgs m" if mt: "RequestID (Request m) \<in> matched_set resp"
      using r
    proof (cases rule: SolveBatch_cases)
      case (answer a)
      with Inr mt have "RequestID (Request m) \<in> RiderId ` set (Matches a)" by (auto simp: matched_set_def)
      with answer(2) batch_request_riders show ?thesis unfolding engine_matched_def by blast
    qed (use Inr mt in \<open>simp_all add: matched_set_def\<close>)
    with settle_batch_accounts [OF sb' c1 m] k show ?thesis by auto
  qed
qed

lemma processBatch_accounts:
  assumes pb: "processBatch b ctx msgs reason (s, st) = (s', st')"
    and c: "in_custody msgs s" and m: "m \<in> set msgs"
  shows "accounted held dead (known s) s' m \<or> engine_matched b msgs m"
proof -
  have ne: "msgs \<noteq> []" using m by auto
  obtain s1 r where r: "repo_NearbyMany (b_drivers b) (batch_queries (b_cfg b) msgs) s = (s1, r)" by force
  have f: "same s s1" using nearby_frame [OF r] .
  have emitted: ?thesis if "s' = emit b bm started s1" for bm started
    using custody_accounted [OF c m] same_trans [OF f] emit_frame that by blast
  show ?thesis
  proof (cases r)
    case (Inl e)
    with pb ne r have "\<exists>bm started. s' = emit b bm started s1" by (auto simp: processBatch_def Let_def)
    with emitted show ?thesis by blast
  next
    case (Inr near)
    show ?thesis
    proof (cases "driver_set near = []")
      case True
      with pb ne r Inr have "\<exists>bm started. s' = emit b bm started s1" by (auto simp: processBatch_def Let_def)
      with emitted show ?thesis by blast
    next
      case False
      with pb ne r Inr obtain i bm started st1 where
        "solve_batch b ctx i msgs (driver_set near) bm started (s1, st1) = (s', st')"
        by (auto simp: processBatch_def Let_def)
      from solve_batch_accounts [OF this in_custody_same [OF f c] m] f show ?thesis
        by (simp add: same_view_def)
    qed
  qed
qed

end

section \<open>A concrete batcher\<close>

text \<open>A batcher on the in-memory stream of \<open>Queue_Properties\<close>, with a driver store that always
  finds \<open>ds\<close> and an engine that always answers \<open>answer\<close>.\<close>

definition fixed_drivers :: "DriverLocation list \<Rightarrow> mem_server Repository" where
  "fixed_drivers ds =
     \<lparr>repo_UpsertMany = (\<lambda>_ s. (s, None)), repo_NearbyMany = (\<lambda>qs s. (s, Inr (map (\<lambda>_. ds) qs))),
      repo_Nearby = (\<lambda>_ s. (s, Inr ds)), repo_RemoveDriver = (\<lambda>_ s. (s, None)),
      repo_Reap = (\<lambda>s. (s, Inr 0)), repo_Count = (\<lambda>s. (s, int (length ds), None))\<rparr>"

definition fixed_engine :: "goerr + MatchBatchResponse \<Rightarrow> mem_server Client" where
  "fixed_engine answer =
     \<lparr>ec_api =
        \<lparr>api_SolveBatch = (\<lambda>c rq s. (s, answer)),
         api_Health = (\<lambda>c s. (s, Inr \<lparr>Healthy = True, LoadedGraphs = []\<rparr>)),
         status_from_error = (\<lambda>e. case e of
             ForeignError n m \<Rightarrow>
               if n = 1 then Some (Canceled, m) else if n = 3 then Some (InvalidArgument, m)
               else if n = 14 then Some (Unavailable, m) else None
           | _ \<Rightarrow> None),
         code_string = (\<lambda>_. ''code''), api_now = ms_clock\<rparr>,
      ec_timeout = DefaultTimeout\<rparr>"

definition mem_batcher :: "DriverLocation list \<Rightarrow> goerr + MatchBatchResponse \<Rightarrow> mem_server Batcher" where
  "mem_batcher ds answer =
     \<lparr>b_cfg = DefaultConfig ms_clock, b_queue = redis_queue acme, b_drivers = fixed_drivers ds,
      b_engine = fixed_engine answer, map_order = (\<lambda>xs. xs), prom = (\<lambda>_ s. s), pause = (\<lambda>_ s. s)\<rparr>"

lemma mem_batcher_world:
  "batcher_world (mem_batcher ds answer) (rs_held mem_entries ms_deliv acme) (rs_claimed ms_deliv acme)
     (\<lambda>s. mem_used s (streamKey acme)) (rs_slack mem_entries acme) (rs_dead mem_entries acme)
     (rs_deadroom mem_entries acme) 1000 (storable_in mem_conv)"
proof -
  have q: "b_queue (mem_batcher ds answer) = redis_queue acme" by (simp add: mem_batcher_def)
  have "queue_contract (b_queue (mem_batcher ds answer)) (rs_held mem_entries ms_deliv acme) (rs_claimed ms_deliv acme)
     (\<lambda>s. mem_used s (streamKey acme)) (rs_slack mem_entries acme) (rs_dead mem_entries acme)
     (rs_deadroom mem_entries acme) 1000 (storable_in mem_conv)"
    using memq.keeps_contract [of "''acme''"] unfolding q by simp
  moreover have "batcher_world_axioms (mem_batcher ds answer) (rs_held mem_entries ms_deliv acme) (rs_claimed ms_deliv acme)
     (\<lambda>s. mem_used s (streamKey acme)) (rs_slack mem_entries acme) (rs_dead mem_entries acme)
     (rs_deadroom mem_entries acme)"
    by unfold_locales
      (auto simp: mem_batcher_def fixed_drivers_def fixed_engine_def same_view_def DefaultConfig_def)
  ultimately show ?thesis by (rule batcher_world.intro)
qed

interpretation memb: batcher_world "mem_batcher ds answer" "rs_held mem_entries ms_deliv acme"
  "rs_claimed ms_deliv acme" "\<lambda>s. mem_used s (streamKey acme)" "rs_slack mem_entries acme"
  "rs_dead mem_entries acme" "rs_deadroom mem_entries acme" 1000 "storable_in mem_conv"
  for ds answer
  by (rule mem_batcher_world)

definition driver1 :: DriverLocation where
  "driver1 = \<lparr>dl_TenantID = ''acme'', DriverID = ''d1'', dl_Lat = Fin 37, dl_Lng = Fin (-122),
     DistanceMeters = Fin 10, LastSeen = 5 * second\<rparr>"

lemma handed_custody:
  "custody (rs_held mem_entries ms_deliv acme) (rs_slack mem_entries acme) (rs_deadroom mem_entries acme)
     1000 (storable_in mem_conv) [handed_message1] handed"
proof -
  have "rs_deadroom mem_entries acme handed = 1000" by code_simp
  moreover have "storable_in mem_conv (Request handed_message1)" by code_simp
  ultimately show ?thesis by (simp add: custody_def handed_message handed_message1_def)
qed

section \<open>The properties\<close>


definition zero_stats :: Stats where
  "zero_stats = \<lparr>st_Batches = 0, st_Requests = 0, st_Matched = 0, st_Unmatched = 0, st_Requeued = 0,
     st_Exhausted = 0, st_DeadLettered = 0, st_SolveErrors = 0\<rparr>"



text \<open>The outages that say nothing about the requests: the driver store fails, no driver is near,
  or the engine fails in a retryable way.\<close>

definition batch_id :: "'s Batcher \<Rightarrow> 's \<Rightarrow> string" where
  "batch_id b s = ''batch-'' @ format_int (wrap64 (Now (b_cfg b) s))"

definition outage :: "'s Batcher \<Rightarrow> ctx \<Rightarrow> Message list \<Rightarrow> 's \<Rightarrow> bool" where
  "outage b ctx msgs s \<longleftrightarrow>
     (case repo_NearbyMany (b_drivers b) (batch_queries (b_cfg b) msgs) s of
        (s1, Inl _) \<Rightarrow> True
      | (s1, Inr near) \<Rightarrow>
          driver_set near = [] \<or>
          (case SolveBatch (b_engine b)
                  (with_timeout (api_now (ec_api (b_engine b)) s1) (SolveTimeout (b_cfg b)) ctx)
                  (Some (batch_request b (batch_id b s) msgs (driver_set near))) s1 of
             (s2, Inl e) \<Rightarrow> Retryable (Some e)
           | (s2, Inr _) \<Rightarrow> False))"

lemma processBatch_outage:
  assumes "processBatch b ctx msgs reason (s, st) = (s', st')" "msgs \<noteq> []" "outage b ctx msgs s"
    "batcher_world b held claimed_by known slack dead deadroom cap storable"
  shows "same_view held claimed_by known slack dead deadroom s s' \<and>
    st_Requeued st' = wrap64 (st_Requeued st + int (length msgs))"
proof -
  obtain s1 r where r: "repo_NearbyMany (b_drivers b) (batch_queries (b_cfg b) msgs) s = (s1, r)" by force
  have f: "same_view held claimed_by known slack dead deadroom s s1"
    using batcher_world.nearby_frame [OF assms(4) r] .
  note e = batcher_world.emit_frame [OF assms(4)] and tr = batcher_world.same_trans [OF assms(4)]
  show ?thesis
  proof (cases "\<exists>near. r = Inr near \<and> driver_set near \<noteq> []")
    case False
    with assms(1,2) r have "(\<exists>bm started. s' = emit b bm started s1) \<and>
        st_Requeued st' = wrap64 (st_Requeued st + int (length msgs))"
      by (cases r) (auto simp: processBatch_def Let_def)
    with tr [OF f] e show ?thesis by blast
  next
    case True
    then obtain near where n: "r = Inr near" "driver_set near \<noteq> []" by blast
    let ?c = "with_timeout (api_now (ec_api (b_engine b)) s1) (SolveTimeout (b_cfg b)) ctx"
    let ?rq = "batch_request b (batch_id b s) msgs (driver_set near)"
    from assms(3) r n obtain s2 err where sv: "SolveBatch (b_engine b) ?c (Some ?rq) s1 = (s2, Inl err)"
      and rt: "Retryable (Some err)"
      by (auto simp: outage_def split: prod.splits sum.splits simp del: Retryable.simps)
    have "(\<exists>bm started. s' = emit b bm started s2) \<and> st_Requeued st' = wrap64 (st_Requeued st + int (length msgs))"
      using assms(1,2) r n sv rt
      by (auto simp: processBatch_def solve_batch_def batch_id_def Let_def simp del: Retryable.simps)
    with tr [OF f tr [OF batcher_world.solve_frame [OF assms(4) sv]]] e show ?thesis by blast
  qed
qed



text \<open>The request after its fifth delivery.\<close>

definition aged :: mem_server where
  "aged = handed\<lparr>ms_deliv := (\<lambda>k g j. if k = ''requests:stream:acme'' \<and> g = ''batchers'' \<and> j = ''i''
                                     then Pending 5 else Undelivered)\<rparr>"

text \<open>The other side of the path without drivers: it leaves the messages pending, so the delivery
  count of the queue grows with every reclaim, while \<open>MatchAttempts\<close> stays 0. A valid rider that
  was reclaimed while no driver was near is dead-lettered as a poison message at the sixth
  delivery, which the comment on the republish path says must not happen.\<close>

theorem no_drivers_ages_into_poison:
  "(let (s', st') = reclaim_tick (mem_batcher [] (Inr \<lparr>Matches = []\<rparr>)) None (aged, zero_stats)
    in rs_held mem_entries ms_deliv acme aged ''i'' = Some (Request handed_message1) \<and>
       MatchAttempts (Request handed_message1) = 0 \<and>
       rs_held mem_entries ms_deliv acme s' ''i'' = None \<and>
       map (\<lambda>e. field e ''reason'') (mem_entries s' ''requests:dead:acme'') = [''exceeded MaxDeliveries (5)''])"
  by code_simp

text \<open>A batch whose solve was cancelled by the process' own shutdown takes the path of poison
  batches: \<open>ErrCancelled\<close> is documented as no fault of the engine, but it is not retryable, so the
  valid requests are dead-lettered when the dead-letter write still succeeds.\<close>

theorem cancelled_solve_dead_letters:
  "(let (s', st') = processBatch (mem_batcher [driver1] (Inl (ForeignError 1 ''context canceled''))) None
          [handed_message1] FlushTimer (handed, zero_stats)
    in rs_held mem_entries ms_deliv acme s' ''i'' = None \<and>
       map (\<lambda>e. (field e ''request_id'', field e ''reason'')) (mem_entries s' ''requests:dead:acme'') =
         [(''req-1'', ''call cancelled: context canceled'')] \<and>
       st_DeadLettered st' = 1)"
  by code_simp

section \<open>The batch handed to the engine\<close>

lemma driver_set_fold:
  "\<forall>(k, d)\<in>set acc. DriverID d = k \<and> d \<in> D \<Longrightarrow> distinct (map fst acc) \<Longrightarrow> set ds \<subseteq> D \<Longrightarrow>
     (\<forall>(k, d)\<in>set (fold (\<lambda>d m. assoc_put (DriverID d) d m) ds acc). DriverID d = k \<and> d \<in> D) \<and>
     distinct (map fst (fold (\<lambda>d m. assoc_put (DriverID d) d m) ds acc)) \<and>
     fst ` set (fold (\<lambda>d m. assoc_put (DriverID d) d m) ds acc) = fst ` set acc \<union> DriverID ` set ds"
proof (induction ds arbitrary: acc)
  case (Cons d ds)
  have "\<forall>(k, d')\<in>set (assoc_put (DriverID d) d acc). DriverID d' = k \<and> d' \<in> D"
    using Cons.prems(1,3) by (auto simp: assoc_put_def split: if_splits)
  from Cons.IH [OF this distinct_assoc_put [OF Cons.prems(2)]] Cons.prems(3) show ?case by simp
qed auto

lemma driver_set_spec:
  "\<forall>(k, d)\<in>set (driver_set rs). DriverID d = k \<and> d \<in> set (concat rs)"
  "distinct (map fst (driver_set rs))" "fst ` set (driver_set rs) = DriverID ` set (concat rs)"
  using driver_set_fold [of "[]" "set (concat rs)" "concat rs"] by (auto simp: driver_set_def)

text \<open>C14. The batch sent to the engine is faithful: its riders are the requests of the batch in order,
  and every driver found near any rider appears exactly once, however many riders found it and in
  whatever order the map is traversed; so the solver never sees two cars where there is one.\<close>

theorem candidates_deduplicated:
  assumes "\<And>xs. mset (map_order b xs) = mset xs"
  shows "distinct (map driver_Id (CandidateDrivers (batch_request b i msgs (driver_set rs)))) \<and>
    set (map driver_Id (CandidateDrivers (batch_request b i msgs (driver_set rs)))) = DriverID ` set (concat rs) \<and>
    map rider_Id (Riders (batch_request b i msgs (driver_set rs))) = map (RequestID \<circ> Request) msgs"
proof (intro conjI)
  let ?o = "map_order b (driver_set rs)"
  have m: "mset ?o = mset (driver_set rs)" by (rule assms)
  then have st: "set ?o = set (driver_set rs)" by (metis set_mset_mset)
  have ids: "map driver_Id (CandidateDrivers (batch_request b i msgs (driver_set rs))) = map fst ?o"
    using driver_set_spec(1) [of rs] st by (auto simp: batch_request_def)
  have "mset (map fst ?o) = mset (map fst (driver_set rs))" using m by (metis mset_map)
  then show "distinct (map driver_Id (CandidateDrivers (batch_request b i msgs (driver_set rs))))"
    unfolding ids using driver_set_spec(2) [of rs] by (metis distinct_count_atmost_1 mset_eq_setD)
  show "set (map driver_Id (CandidateDrivers (batch_request b i msgs (driver_set rs)))) = DriverID ` set (concat rs)"
    unfolding ids set_map st by (rule driver_set_spec(3))
  show "map rider_Id (Riders (batch_request b i msgs (driver_set rs))) = map (RequestID \<circ> Request) msgs"
    by (simp add: batch_request_def)
qed

theorem candidates_deduplicated_witness:
  "distinct (map driver_Id (CandidateDrivers (batch_request (mem_batcher [] (Inr \<lparr>Matches = []\<rparr>)) ''batch-1''
     [handed_message1] (driver_set [[driver1], [driver1]]))))"
  by (rule candidates_deduplicated [THEN conjunct1]) (simp add: mem_batcher_def)

text \<open>C19. \<open>medianWait\<close> is the upper median: its insertion sort sorts the waits of the messages that
  have a request time, and it returns the element in the middle, or 0 when there is none.\<close>

theorem median_wait_is_median:
  "medianWait msgs now =
     (let ws = map (\<lambda>m. time_sub now (RequestedAt (Request m))) (filter (\<lambda>m. RequestedAt (Request m) \<noteq> zero_time) msgs)
      in if ws = [] then 0 else sort ws ! (length ws div 2))"
  by (simp add: medianWait_def waits_of_def is_zero_def insertion_sort_sort Let_def)

lemma settle_loop_counts:
  "settle_loop Q a M msgs s = (s', acks, rq, ex) \<Longrightarrow>
     0 \<le> rq \<and> 0 \<le> ex \<and>
     rq = int (length (filter (\<lambda>m. RequestID (Request m) \<notin> M \<and> wrap64 (MatchAttempts (Request m) + 1) < a) msgs)) \<and>
     ex \<le> int (length (filter (\<lambda>m. RequestID (Request m) \<notin> M \<and> a \<le> wrap64 (MatchAttempts (Request m) + 1)) msgs)) \<and>
     acks = map ID (filter (\<lambda>m. RequestID (Request m) \<in> M) msgs)"
proof (induction msgs arbitrary: s acks rq ex)
  case (Cons m msgs)
  show ?case
  proof (cases "RequestID (Request m) \<in> M")
    case True
    with Cons show ?thesis by (fastforce split: prod.splits)
  next
    case False
    with Cons.prems obtain t rq' ex' where l: "settle_loop Q a M msgs t = (s', acks, rq', ex')"
      and c: "rq = (if wrap64 (MatchAttempts (Request m) + 1) < a then rq' + 1 else rq')"
        "ex' \<le> ex" "ex \<le> (if wrap64 (MatchAttempts (Request m) + 1) < a then ex' else ex' + 1)"
      by (auto simp: Let_def split: if_splits prod.splits option.splits)
    from Cons.IH [OF l] c False show ?thesis by (auto split: if_splits)
  qed
qed simp



section \<open>Configuration and the main loop\<close>

lemma applyDefaults_valid:
  "0 < Window (applyDefaults c)" "0 < MaxBatchSize (applyDefaults c)" "0 < SolveTimeout (applyDefaults c)"
  "0 \<le> cfg_MaxCandidatesPerRider (applyDefaults c)" "0 < MaxMatchAttempts (applyDefaults c)"
  "0 < ReclaimEvery (applyDefaults c)" "0 < ReclaimMinIdle (applyDefaults c)"
  "\<not> f_nonpos (SearchRadiusMeters (applyDefaults c))"
  by (simp_all add: applyDefaults_def DefaultConfig_def f_nonpos_def is_nan_def Let_def)

text \<open>\<open>New\<close> never builds a batcher whose windows can overlap: the configuration it accepts has a
  positive window, batch size, attempt limit and reclaim times, a solve timeout shorter than the
  window and a road graph whenever it prices by travel time; defaults are a fixed point, so a valid
  configuration is used as it was given.\<close>

theorem new_config_valid:
  assumes "New dur env q d e cfg = Inr b"
  shows "0 < SolveTimeout (b_cfg b) \<and> SolveTimeout (b_cfg b) < Window (b_cfg b) \<and>
    0 < MaxBatchSize (b_cfg b) \<and> 0 < MaxMatchAttempts (b_cfg b) \<and> 0 < ReclaimEvery (b_cfg b) \<and>
    (cfg_CostMetric (b_cfg b) = COST_METRIC_TRAVEL_TIME \<longrightarrow> RoadGraphID (b_cfg b) \<noteq> []) \<and>
    applyDefaults (b_cfg b) = b_cfg b \<and>
    q = Some (b_queue b) \<and> d = Some (b_drivers b) \<and> e = Some (b_engine b)"
proof (intro conjI impI)
  have b: "b_cfg b = applyDefaults cfg" "SolveTimeout (b_cfg b) < Window (b_cfg b)"
    "cfg_CostMetric (b_cfg b) = COST_METRIC_TRAVEL_TIME \<longrightarrow> RoadGraphID (b_cfg b) \<noteq> []"
    and w: "q = Some (b_queue b)" "d = Some (b_drivers b)" "e = Some (b_engine b)"
    using assms by (auto simp: New_def Let_def split: option.splits if_splits)
  show "0 < SolveTimeout (b_cfg b)" "SolveTimeout (b_cfg b) < Window (b_cfg b)" "0 < MaxBatchSize (b_cfg b)"
    "0 < MaxMatchAttempts (b_cfg b)" "0 < ReclaimEvery (b_cfg b)"
    "cfg_CostMetric (b_cfg b) = COST_METRIC_TRAVEL_TIME \<Longrightarrow> RoadGraphID (b_cfg b) \<noteq> []"
    "q = Some (b_queue b)" "d = Some (b_drivers b)" "e = Some (b_engine b)"
    using b(2,3) w by (simp_all add: b(1) applyDefaults_valid)
  show "applyDefaults (b_cfg b) = b_cfg b"
    unfolding b(1) using applyDefaults_valid [of cfg]
    by (subst applyDefaults_def) (simp add: Let_def not_le)
qed

theorem new_config_valid_witness:
  "\<exists>b. New (\<lambda>_. ''3s'') (mem_batcher [] (Inr \<lparr>Matches = []\<rparr>)) (Some (redis_queue acme)) (Some (fixed_drivers []))
         (Some (fixed_engine (Inr \<lparr>Matches = []\<rparr>))) ((DefaultConfig ms_clock)\<lparr>Window := 0\<rparr>) = Inr b \<and>
       SolveTimeout (b_cfg b) < Window (b_cfg b)"
proof -
  let ?n = "New (\<lambda>_. ''3s'') (mem_batcher [] (Inr \<lparr>Matches = []\<rparr>)) (Some (redis_queue acme)) (Some (fixed_drivers []))
         (Some (fixed_engine (Inr \<lparr>Matches = []\<rparr>))) ((DefaultConfig ms_clock)\<lparr>Window := 0\<rparr>)"
  obtain b where "?n = Inr b"
    by (simp add: New_def applyDefaults_def DefaultConfig_def Let_def f_nonpos_def)
  with new_config_valid [OF this] show ?thesis by blast
qed

text \<open>A queue that returns no more messages than it was asked for.\<close>

definition consume_bounded :: "'s Queue \<Rightarrow> bool" where
  "consume_bounded Q \<longleftrightarrow>
     (\<forall>n blk s s' ms. Consume Q n blk s = (s', Inr ms) \<longrightarrow> int (length ms) \<le> max 1 n)"

lemma loop_step_conserves:
  assumes "run_step b ctx d l x l'" "0 < MaxBatchSize (b_cfg b)" "consume_bounded (b_queue b)"
    "int (length (lp_pending l)) < MaxBatchSize (b_cfg b)"
  shows "lp_pending l @ fst x = snd x @ lp_pending l'"
    and "int (length (snd x)) \<le> MaxBatchSize (b_cfg b)"
    and "int (length (lp_pending l')) < MaxBatchSize (b_cfg b)"
    and "lp_returned l' \<Longrightarrow> lp_pending l' = []"
proof -
  have "lp_pending l @ fst x = snd x @ lp_pending l' \<and> int (length (snd x)) \<le> MaxBatchSize (b_cfg b) \<and>
    int (length (lp_pending l')) < MaxBatchSize (b_cfg b) \<and> (lp_returned l' \<longrightarrow> lp_pending l' = [])"
    using assms(1)
  proof (cases rule: run_step.cases)
    case (cancelled batch)
    with assms(2,4) show ?thesis by (auto simp: loop_shutdown_def split: if_splits)
  next
    case (ticked batch)
    with assms(2,4) show ?thesis by (auto simp: loop_timer_def new_window_def)
  next
    case (polled msgs batch)
    then have ld: "loop_default b ctx d l = (l', msgs, batch)" and x: "x = (msgs, batch)"
      and nr: "\<not> lp_returned l" by simp_all
    let ?room = "MaxBatchSize (b_cfg b) - int (length (lp_pending l))"
    obtain s st where w: "lp_world l = (s, st)" by force
    define left where "left = Window (b_cfg b) - time_sub (Now (b_cfg b) s) (lp_windowStart l)"
    define blk where "blk = (if left \<le> 0 then millisecond else left)"
    obtain s1 r where c: "Consume (b_queue b) ?room blk s = (s1, r)" by force
    have sel: "r = Inr msgs \<or> msgs = [] \<and> batch = [] \<and> lp_pending l' = lp_pending l \<and> lp_returned l' = lp_returned l"
      using ld w c
      by (cases r) (auto simp: loop_default_def Let_def blk_def left_def split: if_splits)
    have new: "(batch = lp_pending l @ msgs \<and> lp_pending l' = [] \<or>
          batch = [] \<and> lp_pending l' = lp_pending l @ msgs \<and>
          int (length (lp_pending l @ msgs)) < MaxBatchSize (b_cfg b)) \<and> lp_returned l' = lp_returned l"
      if "r = Inr msgs"
      using ld w c that
      by (auto simp: loop_default_def new_window_def Let_def blk_def left_def split: if_splits)
    have "int (length (lp_pending l @ msgs)) \<le> MaxBatchSize (b_cfg b)"
    proof (cases "r = Inr msgs")
      case True
      with c assms(3) have "int (length msgs) \<le> max 1 ?room" unfolding consume_bounded_def by blast
      with assms(4) show ?thesis by simp
    next
      case False
      with sel assms(4) show ?thesis by simp
    qed
    with sel new assms(2,4) x nr show ?thesis by auto
  qed
  then show "lp_pending l @ fst x = snd x @ lp_pending l'" "int (length (snd x)) \<le> MaxBatchSize (b_cfg b)"
    "int (length (lp_pending l')) < MaxBatchSize (b_cfg b)" "lp_returned l' \<Longrightarrow> lp_pending l' = []"
    by blast+
qed

lemma run_steps_conserve:
  assumes "run_steps b ctx d l0 tr l" "lp_pending l0 = []" "\<not> lp_returned l0"
    "0 < MaxBatchSize (b_cfg b)" "consume_bounded (b_queue b)"
  shows "concat (map fst tr) = concat (map snd tr) @ lp_pending l \<and>
    (\<forall>x\<in>set tr. int (length (snd x)) \<le> MaxBatchSize (b_cfg b)) \<and>
    int (length (lp_pending l)) < MaxBatchSize (b_cfg b) \<and> (lp_returned l \<longrightarrow> lp_pending l = [])"
  using assms(1-3)
proof (induction rule: run_steps.induct)
  case (run_nil l)
  with assms(4) show ?case by simp
next
  case (run_snoc l tr l1 x l2)
  then have IH: "concat (map fst tr) = concat (map snd tr) @ lp_pending l1"
    "\<forall>x\<in>set tr. int (length (snd x)) \<le> MaxBatchSize (b_cfg b)"
    "int (length (lp_pending l1)) < MaxBatchSize (b_cfg b)" by blast+
  note st = loop_step_conserves [OF run_snoc.hyps(2) assms(4,5) IH(3)]
  show ?case
  proof (intro conjI)
    show "concat (map fst (tr @ [x])) = concat (map snd (tr @ [x])) @ lp_pending l2" using IH(1) st(1) by simp
    show "\<forall>y\<in>set (tr @ [x]). int (length (snd y)) \<le> MaxBatchSize (b_cfg b)" using IH(2) st(2) by auto
    show "int (length (lp_pending l2)) < MaxBatchSize (b_cfg b)" "lp_returned l2 \<longrightarrow> lp_pending l2 = []"
      using st(3,4) by blast+
  qed
qed

text \<open>C6. The main loop neither drops nor duplicates a message it consumed, and no batch exceeds the
  size bound: along every execution of \<open>Run\<close>, whichever ready case the \<open>select\<close> picks, the messages
  consumed so far are, in order, the batches handed to \<open>processBatch\<close> followed by those still
  pending, of which there are fewer than \<open>MaxBatchSize\<close>; when it returns nothing is pending.\<close>

theorem run_conserves_messages:
  assumes "run_steps b ctx d (loop_start b s) tr l"
    and "0 < MaxBatchSize (b_cfg b)" "consume_bounded (b_queue b)"
  shows "concat (map fst tr) = concat (map snd tr) @ lp_pending l \<and>
    (\<forall>x\<in>set tr. int (length (snd x)) \<le> MaxBatchSize (b_cfg b)) \<and>
    int (length (lp_pending l)) < MaxBatchSize (b_cfg b) \<and> (lp_returned l \<longrightarrow> lp_pending l = [])"
  using run_steps_conserve [OF assms(1) _ _ assms(2,3)] by (auto simp: loop_start_def)

context batcher_world
begin

abbreviation all_held :: "'s \<Rightarrow> Message list \<Rightarrow> bool" where
  "all_held s msgs \<equiv> \<forall>m\<in>set msgs. held s (ID m) = Some (Request m)"

lemma consume_all_held: "Consume (b_queue b) n blk s = (s', Inr ms) \<Longrightarrow> all_held s msgs \<Longrightarrow> all_held s' (msgs @ ms)"
  using consume_keeps consume_claims by fastforce

text \<open>One iteration: what stays pending is held, and a batch is handed over while it is held.\<close>

lemma run_step_held:
  assumes "run_step b ctx d l (msgs, batch) l'" "\<And>t s. same s (pause b t s)" "all_held (fst (lp_world l)) (lp_pending l)"
  shows "all_held (fst (lp_world l')) (lp_pending l') \<and>
    (batch \<noteq> [] \<longrightarrow> (\<exists>c reason s1 st. all_held s1 batch \<and> lp_world l' = processBatch b c batch reason (s1, st)))"
  using assms(1)
proof (cases rule: run_step.cases)
  case cancelled
  then show ?thesis using assms(3)
    by (cases "lp_world l") (auto simp: loop_shutdown_def split: if_splits, blast)
next
  case ticked
  then show ?thesis using assms(3)
    by (cases "lp_world l") (auto simp: loop_timer_def new_window_def, blast)
next
  case polled
  obtain s st where w: "lp_world l = (s, st)" by force
  define left where "left = Window (b_cfg b) - time_sub (Now (b_cfg b) s) (lp_windowStart l)"
  define blk where "blk = (if left \<le> 0 then millisecond else left)"
  obtain s1 r where c: "Consume (b_queue b) (MaxBatchSize (b_cfg b) - int (length (lp_pending l))) blk s = (s1, r)" by force
  have keep: "all_held s1 (lp_pending l)" using consume_keeps [OF c] assms(3) w by simp
  show ?thesis
  proof (cases r)
    case (Inl e)
    with polled w c have "fst (lp_world l') = s1 \<or> (\<exists>t. fst (lp_world l') = pause b t s1)"
      "lp_pending l' = lp_pending l" "batch = []"
      by (auto simp: loop_default_def Let_def blk_def left_def split: if_splits)
    with keep assms(2) show ?thesis by (auto simp: same_view_def)
  next
    case (Inr ms)
    have "all_held s1 (lp_pending l @ ms)" by (rule consume_all_held [OF c [unfolded Inr]]) (use assms(3) w in simp)
    moreover have "(\<exists>reason. lp_world l' = processBatch b ctx (lp_pending l @ ms) reason (s1, st)) \<and> lp_pending l' = [] \<and>
        batch = lp_pending l @ ms \<or> fst (lp_world l') = s1 \<and> lp_pending l' = lp_pending l @ ms \<and> batch = []"
      using polled w c Inr by (auto simp: loop_default_def new_window_def Let_def blk_def left_def split: if_splits)
    ultimately show ?thesis by (metis empty_iff list.set(1))
  qed
qed

lemma run_steps_held:
  assumes "run_steps b ctx d l0 tr l" "\<And>t s. same s (pause b t s)" "lp_pending l0 = []"
  shows "all_held (fst (lp_world l)) (lp_pending l)"
  using assms(1,3)
proof (induction rule: run_steps.induct)
  case (run_snoc l tr l1 x l2)
  then show ?case using run_step_held [OF _ assms(2), of ctx d l1 "fst x" "snd x" l2] by simp
qed simp

end

text \<open>A batcher can die at any moment. At every point of every execution of \<open>Run\<close> each message it has
  consumed and not yet handed to \<open>processBatch\<close> is still held by the queue, and every batch it hands
  over is held by the queue at that moment; so a crash leaves the requests to be reclaimed, and
  \<open>processBatch\<close> starts from requests in custody.\<close>

theorem crash_leaves_requests_held:
  assumes "batcher_world b held claimed_by known slack dead deadroom cap storable"
    and "\<And>t s. same_view held claimed_by known slack dead deadroom s (pause b t s)"
    and "run_steps b ctx d (loop_start b s) tr l"
  shows "(\<forall>m\<in>set (lp_pending l). held (fst (lp_world l)) (ID m) = Some (Request m)) \<and>
    (\<forall>msgs batch l'. run_step b ctx d l (msgs, batch) l' \<and> batch \<noteq> [] \<longrightarrow>
       (\<exists>c reason s1 st. (\<forall>m\<in>set batch. held s1 (ID m) = Some (Request m)) \<and>
          lp_world l' = processBatch b c batch reason (s1, st)))"
proof (intro conjI allI impI)
  show held: "\<forall>m\<in>set (lp_pending l). held (fst (lp_world l)) (ID m) = Some (Request m)"
    by (rule batcher_world.run_steps_held [OF assms(1,3,2)]) (simp add: loop_start_def)
  show "\<exists>c reason s1 st. (\<forall>m\<in>set batch. held s1 (ID m) = Some (Request m)) \<and> lp_world l' = processBatch b c batch reason (s1, st)"
    if "run_step b ctx d l (msgs, batch) l' \<and> batch \<noteq> []" for msgs batch l'
    using batcher_world.run_step_held [OF assms(1) _ assms(2) held] that by blast
qed

lemma consume_entries_length: "consume_entries q es s = (s', ms) \<Longrightarrow> length ms \<le> length es"
proof (induction es arbitrary: s ms)
  case (Cons e es)
  show ?case
  proof (cases "decode (rq_conv q) e")
    case (Inl err)
    with Cons.prems have "\<exists>t. consume_entries q es t = (s', ms)" by (auto split: prod.splits)
    with Cons.IH show ?thesis by fastforce
  next
    case (Inr m)
    with Cons.prems obtain ms' where "consume_entries q es s = (s', ms')" "length ms = Suc (length ms')"
      by (auto split: prod.splits)
    with Cons.IH show ?thesis by fastforce
  qed
qed simp

lemma mem_consume_bounded: "consume_bounded (redis_queue acme)"
proof -
  have "int (length ms) \<le> max 1 n" if c: "rs_Consume acme n blk s = (s', Inr ms)" for n blk s s' ms
  proof -
    let ?n = "if n \<le> 0 then 1 else n"
    obtain s1 r where x: "mem_cmd (mem_read (streamKey acme) ''batchers'' ?n) s = (s1, r)" by force
    from x show ?thesis
    proof (cases rule: mem_cmd_cases)
      case (run t v)
      then have len: "length (concat (map snd v)) \<le> nat ?n" by (auto simp: mem_read_def Let_def)
      have "consume_entries acme (concat (map snd v)) s1 = (s', ms)"
        using c x run by (auto simp: rs_Consume_def mem_streams_def Let_def split: prod.splits if_splits)
      from le_trans [OF consume_entries_length [OF this] len] show ?thesis by (auto split: if_splits)
    next
      case (fault e)
      with c x show ?thesis
        by (auto simp: rs_Consume_def mem_streams_def Let_def split: if_splits)
    qed
  qed
  then show ?thesis by (auto simp: consume_bounded_def redis_queue_def)
qed

lemma mem_run:
  obtains x l where "run_steps (mem_batcher [] (Inr \<lparr>Matches = []\<rparr>)) None (\<lambda>_. False)
    (loop_start (mem_batcher [] (Inr \<lparr>Matches = []\<rparr>)) stored) [x] l"
proof -
  let ?b = "mem_batcher [] (Inr \<lparr>Matches = []\<rparr>)"
  obtain l msgs batch where d: "loop_default ?b None (\<lambda>_. False) (loop_start ?b stored) = (l, msgs, batch)"
    by (metis prod_cases3)
  have "run_step ?b None (\<lambda>_. False) (loop_start ?b stored) (msgs, batch) l"
    by (rule polled) (simp_all add: d, simp_all add: loop_start_def wall_def mem_batcher_def DefaultConfig_def)
  then have "run_steps ?b None (\<lambda>_. False) (loop_start ?b stored) ([] @ [(msgs, batch)]) l"
    by (rule run_snoc [OF run_nil])
  then show ?thesis using that by simp
qed

theorem run_conserves_messages_witness:
  "\<exists>x l. run_steps (mem_batcher [] (Inr \<lparr>Matches = []\<rparr>)) None (\<lambda>_. False)
           (loop_start (mem_batcher [] (Inr \<lparr>Matches = []\<rparr>)) stored) [x] l \<and>
         fst x = snd x @ lp_pending l \<and> int (length (lp_pending l)) < 500"
proof -
  let ?b = "mem_batcher [] (Inr \<lparr>Matches = []\<rparr>)"
  obtain x l where r: "run_steps ?b None (\<lambda>_. False) (loop_start ?b stored) [x] l" by (rule mem_run)
  have c: "consume_bounded (b_queue ?b)" "MaxBatchSize (b_cfg ?b) = 500"
    by (simp_all add: mem_batcher_def mem_consume_bounded DefaultConfig_def)
  from run_conserves_messages [OF r _ c(1)] c(2) r show ?thesis by (intro exI [of _ x] exI [of _ l]) simp
qed

theorem crash_leaves_requests_held_witness:
  "\<exists>x l. run_steps (mem_batcher [] (Inr \<lparr>Matches = []\<rparr>)) None (\<lambda>_. False)
           (loop_start (mem_batcher [] (Inr \<lparr>Matches = []\<rparr>)) stored) [x] l \<and>
         (\<forall>m\<in>set (lp_pending l). rs_held mem_entries ms_deliv acme (fst (lp_world l)) (ID m) = Some (Request m))"
proof -
  let ?b = "mem_batcher [] (Inr \<lparr>Matches = []\<rparr>)"
  obtain x l where r: "run_steps ?b None (\<lambda>_. False) (loop_start ?b stored) [x] l" by (rule mem_run)
  have "same_view h c k sl d dr s (pause ?b t s)" for h c k sl d dr s t
    by (simp add: mem_batcher_def same_view_def)
  from crash_leaves_requests_held [OF mem_batcher_world this r] r show ?thesis by blast
qed

text \<open>At-least-once delivery can put the same request twice into one batch (a republish whose
  acknowledgement failed, or a client that reuses its request id). The batcher does not
  deduplicate riders, so an engine that rejects duplicate rider ids as \<open>InvalidArgument\<close>, as the C++
  service does, makes the whole batch poison: none of its requests is matched or republished, the
  valid ones included; each is dead-lettered, or left pending where the dead-letter write failed.\<close>

theorem duplicate_request_poisons_batch:
  assumes "batcher_world b held claimed_by known slack dead deadroom cap storable"
    and "\<And>c rq t. \<not> distinct (map rider_Id (Riders rq)) \<Longrightarrow>
      \<exists>e m. api_SolveBatch (ec_api (b_engine b)) c rq t = (t, Inl e) \<and>
        status_from_error (ec_api (b_engine b)) e = Some (InvalidArgument, m)"
    and "\<not> distinct (map (RequestID \<circ> Request) msgs)" "distinct (map ID msgs)" "length msgs \<le> deadroom s"
    and "repo_NearbyMany (b_drivers b) (batch_queries (b_cfg b) msgs) s = (s1, Inr near)" "driver_set near \<noteq> []"
    and "processBatch b ctx msgs reason (s, st) = (s', st')" "m \<in> set msgs"
  shows "(dead s' (ID m) (RequestID (Request m)) \<or> held s' (ID m) = held s (ID m)) \<and>
    st_DeadLettered st' = wrap64 (st_DeadLettered st + int (length msgs))"
proof (intro conjI)
  note w = assms(1)
  have qc: "queue_contract (b_queue b) held claimed_by known slack dead deadroom cap storable"
    using w by (simp add: batcher_world_def)
  let ?c = "with_timeout (api_now (ec_api (b_engine b)) s1) (SolveTimeout (b_cfg b)) ctx"
  let ?rq = "batch_request b (batch_id b s) msgs (driver_set near)"
  have "\<not> distinct (map rider_Id (Riders ?rq))"
    using assms(3) batcher_world.batch_request_riders [OF w] by simp
  then obtain e x where "api_SolveBatch (ec_api (b_engine b))
      (with_timeout (api_now (ec_api (b_engine b)) s1) (ec_timeout (b_engine b)) ?c) ?rq s1 = (s1, Inl e)"
    "status_from_error (ec_api (b_engine b)) e = Some (InvalidArgument, x)"
    using assms(2) by blast
  then have sv: "SolveBatch (b_engine b) ?c (Some ?rq) s1 =
      (s1, Inl (Wrapf [] (Sent ErrInvalidBatch) ('': '' @ x)))"
    by (simp add: SolveBatch_def classified_def classify_def)
  let ?why = "error_text (Wrapf [] (Sent ErrInvalidBatch) ('': '' @ x))"
  have "msgs \<noteq> []" using assms(9) by auto
  with assms(6,7,8) sv have pb: "(\<exists>bm t. s' = emit b bm t (dead_letter_all (b_queue b) ?why msgs s1)) \<and>
      st_DeadLettered st' = wrap64 (st_DeadLettered st + int (length msgs))"
    by (auto simp: processBatch_def solve_batch_def batch_id_def Let_def)
  have dl: "dead (dead_letter_all (b_queue b) why ms t) (ID m) (RequestID (Request m)) \<or>
      held (dead_letter_all (b_queue b) why ms t) (ID m) = held s (ID m)"
    if "dead t (ID m) (RequestID (Request m)) \<or> held t (ID m) = held s (ID m)" "length ms \<le> deadroom t"
      "\<forall>a\<in>set ms. ID a = ID m \<longrightarrow> a = m" for why ms t
    using that
  proof (induction ms arbitrary: t)
    case (Cons a ms)
    obtain t1 y where t1: "DeadLetter (b_queue b) a why t = (t1, y)" by force
    note st = batcher_world.settles_dead [OF w batcher_world.settles_ops(1) [OF w t1]]
    have "dead t1 (ID m) (RequestID (Request m)) \<or> held t1 (ID m) = held s (ID m)"
    proof (cases "ID a = ID m")
      case True
      with Cons.prems(3) have "a = m" by simp
      with t1 queue_contract.dead_letter_done [OF qc, of m why t t1] st(2) Cons.prems(1,2)
        queue_contract.dead_letter_failed [OF qc, of m why t t1] show ?thesis by (cases y) auto
    next
      case False
      with queue_contract.dead_letter_keeps [OF qc t1, of "ID m"] st(2) Cons.prems(1,2) show ?thesis by auto
    qed
    moreover have "length ms \<le> deadroom t1" using st(1) Cons.prems(2) by simp
    ultimately show ?case using Cons.IH [of t1] Cons.prems(3) t1 by simp
  qed simp
  have f: "same_view held claimed_by known slack dead deadroom s s1"
    using batcher_world.nearby_frame [OF w assms(6)] .
  have "\<forall>a\<in>set msgs. ID a = ID m \<longrightarrow> a = m" using assms(4,9) by (auto simp: distinct_map inj_on_def)
  with dl [of s1 msgs ?why] f assms(5) have "dead (dead_letter_all (b_queue b) ?why msgs s1) (ID m) (RequestID (Request m)) \<or>
      held (dead_letter_all (b_queue b) ?why msgs s1) (ID m) = held s (ID m)" by (simp add: same_view_def)
  with pb batcher_world.emit_frame [OF w]
  show "dead s' (ID m) (RequestID (Request m)) \<or> held s' (ID m) = held s (ID m)"
    by (auto simp: same_view_def)
  show "st_DeadLettered st' = wrap64 (st_DeadLettered st + int (length msgs))" using pb by blast
qed

theorem duplicate_request_poisons_batch_witness:
  "st_DeadLettered (snd (processBatch (mem_batcher [driver1] (Inl (ForeignError 3 ''duplicate rider id''))) None
     [handed_message1, handed_message1\<lparr>ID := ''ii''\<rparr>] FlushTimer (handed, zero_stats))) = 2"
proof -
  let ?b = "mem_batcher [driver1] (Inl (ForeignError 3 ''duplicate rider id''))"
  let ?ms = "[handed_message1, handed_message1\<lparr>ID := ''ii''\<rparr>]"
  let ?p = "processBatch ?b None ?ms FlushTimer (handed, zero_stats)"
  have law: "\<exists>e m. api_SolveBatch (ec_api (b_engine ?b)) c rq t = (t, Inl e) \<and>
      status_from_error (ec_api (b_engine ?b)) e = Some (InvalidArgument, m)" for c rq t
    by (simp add: mem_batcher_def fixed_engine_def)
  have near: "repo_NearbyMany (b_drivers ?b) (batch_queries (b_cfg ?b) ?ms) handed = (handed, Inr [[driver1], [driver1]])"
    by (simp add: mem_batcher_def fixed_drivers_def batch_queries_def)
  have room: "length ?ms \<le> rs_deadroom mem_entries acme handed" by code_simp
  have ids: "distinct (map ID ?ms)" "\<not> distinct (map (RequestID \<circ> Request) ?ms)"
    by (simp_all add: handed_message1_def mem_id_def)
  have ds: "driver_set [[driver1], [driver1]] \<noteq> []" by (simp add: driver_set_def assoc_put_def)
  have p: "processBatch ?b None ?ms FlushTimer (handed, zero_stats) = (fst ?p, snd ?p)" by simp
  have "st_DeadLettered (snd ?p) = wrap64 (st_DeadLettered zero_stats + int (length ?ms))"
    using duplicate_request_poisons_batch
        [OF mem_batcher_world law ids(2,1) room near ds p, of handed_message1] by simp
  then show ?thesis by (simp add: zero_stats_def wrap64_id in_int64_def)
qed

end
