(* ===== verification/Auth_Properties.thy ===== *)
theory Auth_Properties
  imports Auth
begin

text \<open>
  What authentication guarantees. \<open>redis_keys\<close> states the laws of the commands over three
  observations: the fields of a hash, the value of a counter that has not expired, and the clock.
  \<open>key_step\<close> is everything that any process can do to the key records except rotating one given
  key. The rate limiter is followed along a trace of calls in one window.
\<close>

section \<open>Keys as text\<close>

lemma ParseKey_format:
  assumes "CHR ''_'' \<notin> set kid" "CHR ''_'' \<notin> set sec" "kid \<noteq> []" "sec \<noteq> []"
  shows "ParseKey (KeyPrefix @ ''_'' @ kid @ ''_'' @ sec) = Inr (kid, sec)"
proof -
  have "split_on (CHR ''_'') (KeyPrefix @ CHR ''_'' # (kid @ CHR ''_'' # sec)) = [KeyPrefix, kid, sec]"
    using assms by (subst split_on_append) (simp_all add: KeyPrefix_def split_on_append split_on_no_sep)
  then show ?thesis using assms by (simp add: ParseKey_def)
qed

text \<open>\<open>ConstantTimeCompare\<close> is equality.\<close>

lemma or_eq_0_word: "or a b = 0 \<longleftrightarrow> a = 0 \<and> b = (0 :: 'a::len word)"
  by (auto simp: bit_eq_iff bit_simps)

lemma xor_eq_0_word: "xor a b = 0 \<longleftrightarrow> a = (b :: 'a::len word)"
  by (auto simp: bit_eq_iff bit_simps)

lemma fold_or_zero:
  "length x = length y \<Longrightarrow> fold (\<lambda>(a, b) v. or v (xor a b)) (zip x y) v = 0 \<longleftrightarrow> v = 0 \<and> x = (y :: 8 word list)"
proof (induction x y arbitrary: v rule: list_induct2)
  case (Cons a x b y)
  then show ?case by (auto simp: or_eq_0_word xor_eq_0_word)
qed simp

lemma ConstantTimeCompare_eq: "ConstantTimeCompare x y = 1 \<longleftrightarrow> x = y"
  by (auto simp: ConstantTimeCompare_def fold_or_zero)

lemma bytes_of_inj: "bytes_of a = bytes_of b \<longleftrightarrow> a = b"
proof -
  have "inj (\<lambda>c :: char. word_of_nat (of_char c) :: 8 word)"
  proof (rule injI)
    fix c d :: char
    assume "(word_of_nat (of_char c) :: 8 word) = word_of_nat (of_char d)"
    then have "unat (word_of_nat (of_char c) :: 8 word) = unat (word_of_nat (of_char d) :: 8 word)" by simp
    moreover have "(of_char c :: nat) < 256" "(of_char d :: nat) < 256" by simp_all
    ultimately have "(of_char c :: nat) = of_char d" by (simp add: unat_of_nat take_bit_nat_eq_self)
    then show "c = d" by simp
  qed
  then show ?thesis by (simp add: bytes_of_def inj_map_eq_map)
qed

section \<open>The laws of the commands\<close>

definition put_fields :: "(string \<times> string) list \<Rightarrow> string \<Rightarrow>
    (string \<Rightarrow> string \<Rightarrow> string option) \<Rightarrow> string \<Rightarrow> string \<Rightarrow> string option" where
  "put_fields fs k h = h(k := h k ++ map_of (rev fs))"

lemma put_fields_idem [simp]: "put_fields fs k (put_fields fs k h) = put_fields fs k h"
  by (auto simp: put_fields_def map_add_def fun_eq_iff split: option.splits)

locale redis_keys =
  fixes C :: "'s key_client" and hash :: "'s \<Rightarrow> string \<Rightarrow> string \<Rightarrow> string option"
    and counter :: "'s \<Rightarrow> string \<Rightarrow> int" and clock :: "'s \<Rightarrow> gotime"
  assumes hset_effect: "hset C k fs s = (s', e) \<Longrightarrow> counter s' = counter s \<and> clock s \<le> clock s' \<and>
      (hash s' = put_fields fs k (hash s) \<or> e \<noteq> None \<and> hash s' = hash s)"
    and hgetall_reads: "hgetall C k s = (s', x) \<Longrightarrow> hash s' = hash s \<and> counter s' = counter s \<and>
      clock s \<le> clock s' \<and> (\<forall>fs. x = Inr fs \<longrightarrow> map_of fs = hash s k)"
    and sadd_quiet: "sadd C k v s = (s', e) \<Longrightarrow> hash s' = hash s \<and> counter s' = counter s \<and> clock s \<le> clock s'"
    and smembers_quiet: "smembers C k s = (s', y) \<Longrightarrow> hash s' = hash s \<and> counter s' = counter s \<and> clock s \<le> clock s'"
    and exists_quiet: "ak_exists C k s = (s', n) \<Longrightarrow> hash s' = hash s \<and> counter s' = counter s \<and> clock s \<le> clock s'"
    and pipe_steps: "ak_pipe C cmds s = (s', e) \<Longrightarrow> (step_of cmds)\<^sup>*\<^sup>* s s'"
    and pipe_ok: "ak_pipe C cmds s = (s', None) \<Longrightarrow> run_cmds cmds s = (s', None)"
    and eval_ok: "ak_eval C f s = (s', Inr m) \<Longrightarrow> f s = (s', Inr m)"
    and eval_err: "ak_eval C f s = (s', Inl e') \<Longrightarrow> s' = fst (f s) \<or>
      hash s' = hash s \<and> counter s' = counter s \<and> clock s \<le> clock s'"
    and incr_effect: "incr C k s = (s', n) \<Longrightarrow> hash s' = hash s \<and> clock s \<le> clock s' \<and>
      (case n of Inr c \<Rightarrow> c = counter s k + 1 \<and> counter s' = (counter s)(k := c) | Inl _ \<Rightarrow> counter s' = counter s)"
    and expire_quiet: "hash (expire C k t s) = hash s \<and> counter (expire C k t s) = counter s \<and> clock s \<le> clock (expire C k t s)"
    and rand_quiet: "ak_rand C j s = (s', b) \<Longrightarrow> hash s' = hash s \<and> counter s' = counter s \<and> clock s \<le> clock s' \<and>
      (\<forall>bs. b = Inr bs \<longrightarrow> length bs = j)"

locale key_store = redis_keys "ks_client st" hash counter "ks_now st"
  for st :: "'s RedisStore" and hash counter
begin

definition quiet :: "'s \<Rightarrow> 's \<Rightarrow> bool" where
  "quiet s s' \<longleftrightarrow> hash s' = hash s \<and> counter s' = counter s \<and> ks_now st s \<le> ks_now st s'"

lemma quiet_trans: "quiet s t \<Longrightarrow> quiet t u \<Longrightarrow> quiet s u"
  by (auto simp: quiet_def)

lemma save_effect:
  assumes "save st key s = (s', e)"
  shows "counter s' = counter s \<and> ks_now st s \<le> ks_now st s' \<and>
    (hash s' = put_fields (key_fields key) (keyPath (ak_KeyID key)) (hash s) \<or> e \<noteq> None \<and> hash s' = hash s)"
proof -
  let ?c = "ks_client st" and ?put = "put_fields (key_fields key) (keyPath (ak_KeyID key))"
  let ?cs = "[hset ?c (keyPath (ak_KeyID key)) (key_fields key), sadd ?c (tenantPath (ak_TenantID key)) (ak_KeyID key)]"
  obtain x where p: "ak_pipe ?c ?cs s = (s', x)" and x: "x = None \<longleftrightarrow> e = None"
    using assms by (cases "ak_pipe ?c ?cs s") (auto simp: save_def split: option.splits)
  define Q where "Q t \<longleftrightarrow> counter t = counter s \<and> ks_now st s \<le> ks_now st t \<and> (hash t = ?put (hash s) \<or> hash t = hash s)" for t
  have one: "Q (fst (c t))" if "c \<in> set ?cs" "Q t" for c t
  proof -
    obtain u y where c: "c t = (u, y)" by force
    from that(1) consider "c = ?cs ! 0" | "c = ?cs ! 1" by auto
    then show ?thesis
    proof cases
      case 1
      with hset_effect [of "keyPath (ak_KeyID key)" "key_fields key" t u y] c that(2) show ?thesis
        by (auto simp: Q_def)
    next
      case 2
      with sadd_quiet [of "tenantPath (ak_TenantID key)" "ak_KeyID key" t u y] c that(2) show ?thesis
        by (auto simp: Q_def)
    qed
  qed
  have "Q s'" using pipe_steps [OF p] one
    by (induction rule: rtranclp_induct) (auto simp: step_of_def Q_def)
  moreover have "hash s' = ?put (hash s)" if "e = None"
  proof -
    from that x p have "ak_pipe ?c ?cs s = (s', None)" by simp
    then have "run_cmds ?cs s = (s', None)" by (rule pipe_ok)
    then obtain t where "hset ?c (keyPath (ak_KeyID key)) (key_fields key) s = (t, None)"
      "sadd ?c (tenantPath (ak_TenantID key)) (ak_KeyID key) t = (s', None)" unfolding run_cmds_two by blast
    with hset_effect [of _ "key_fields key" s t None] sadd_quiet [of _ "ak_KeyID key" t s' None] show ?thesis by fastforce
  qed
  ultimately show ?thesis by (auto simp: Q_def)
qed

lemma Lookup_effect:
  assumes "Lookup st kid s = (s', r)"
  shows "quiet s s' \<and> (\<forall>key. r = Inr key \<longrightarrow> (\<exists>fs. map_of fs = hash s (keyPath kid) \<and> key = key_of_fields kid fs))"
  using assms by (auto simp: Lookup_def quiet_def split: prod.splits sum.splits if_splits dest!: hgetall_reads)

lemma script_effect:
  assumes "rateLimitScript (ks_client st) k t s = (s', r)"
  shows "hash s' = hash s \<and> ks_now st s \<le> ks_now st s' \<and>
    (\<forall>c. r = Inr c \<longrightarrow> c = counter s k + 1 \<and> counter s' = (counter s)(k := c))"
proof -
  obtain u n where i: "incr (ks_client st) k s = (u, n)" by force
  from incr_effect [OF i] expire_quiet [of k t u] assms i show ?thesis
    by (auto simp: rateLimitScript_def split: sum.splits if_splits)
qed

lemma Allow_effect:
  assumes "Allow st kid n s = (s', r)"
  shows "hash s' = hash s \<and> ks_now st s \<le> ks_now st s'"
proof (cases "n \<le> 0")
  case False
  let ?f = "rateLimitScript (ks_client st) (rate_key kid (rate_window (ks_now st s))) 70"
  obtain t x where e: "ak_eval (ks_client st) ?f s = (t, x)" by force
  obtain u y where f: "?f s = (u, y)" by force
  have "hash t = hash s \<and> ks_now st s \<le> ks_now st t"
  proof (cases x)
    case (Inl a)
    with e eval_err [of ?f s t a] f script_effect [OF f] show ?thesis by auto
  next
    case (Inr a)
    with e eval_ok [of ?f s t a] f script_effect [OF f] show ?thesis by auto
  qed
  with assms e False show ?thesis by (auto simp: Allow_def split: sum.splits)
qed (use assms in \<open>simp add: Allow_def\<close>)

lemma Verify_effect:
  assumes "Verify (redis_key_store st) raw now s = (s', k, e)"
  shows "hash s' = hash s \<and> ks_now st s \<le> ks_now st s'"
  using assms
  by (auto simp: Verify_def redis_key_store_def quiet_def split: prod.splits sum.splits if_splits
      dest!: Lookup_effect Allow_effect intro: order_trans)

lemma GenerateKey_effect:
  assumes "GenerateKey (ak_rand (ks_client st)) s = (s', r)"
  shows "quiet s s' \<and> (\<forall>raw kid h. r = Inr (raw, kid, h) \<longrightarrow>
    (\<exists>sec. ParseKey raw = Inr (kid, sec) \<and> h = HashSecret sec))"
proof -
  obtain t i where i: "ak_rand (ks_client st) keyIDBytes s = (t, i)" by force
  note q1 = rand_quiet [OF i]
  show ?thesis
  proof (cases i)
    case (Inl e)
    with assms i q1 show ?thesis by (auto simp: GenerateKey_def quiet_def)
  next
    case (Inr bs)
    obtain u x where x: "ak_rand (ks_client st) secretBytes t = (u, x)" by force
    note q2 = rand_quiet [OF x]
    show ?thesis
    proof (cases x)
      case (Inl e)
      with assms i Inr x q1 q2 show ?thesis by (auto simp: GenerateKey_def quiet_def)
    next
      case (Inr cs)
      with q1 q2 \<open>i = Inr bs\<close> have "length bs = 8" "length cs = 32" by (auto simp: keyIDBytes_def secretBytes_def)
      then have "hex_encode bs \<noteq> []" "hex_encode cs \<noteq> []" by (metis length_hex_encode list.size(3) mult_eq_0_iff zero_neq_numeral)+
      then have "ParseKey (KeyPrefix @ ''_'' @ hex_encode bs @ ''_'' @ hex_encode cs) = Inr (hex_encode bs, hex_encode cs)"
        by (intro ParseKey_format) (simp_all add: hex_encode_no_underscore)
      moreover have "r = Inr (KeyPrefix @ ''_'' @ hex_encode bs @ ''_'' @ hex_encode cs, hex_encode bs, HashSecret (hex_encode cs))"
        "s' = u" using assms i \<open>i = Inr bs\<close> x Inr by (simp_all add: GenerateKey_def Let_def)
      moreover have "quiet s u" using q1 q2 by (auto simp: quiet_def)
      ultimately show ?thesis by blast
    qed
  qed
qed

lemma Create_effect:
  assumes "Create st tenant name ttl rate s = (s', r)"
  shows "counter s' = counter s \<and> ks_now st s \<le> ks_now st s' \<and>
    (hash s' = hash s \<or> (\<exists>key. ak_RevokedAt key = zero_time \<and> hash s' = put_fields (key_fields key) (keyPath (ak_KeyID key)) (hash s)))"
    and "r = Inr (raw, key) \<Longrightarrow> (\<exists>sec now. ParseKey raw = Inr (ak_KeyID key, sec) \<and> tenant \<noteq> [] \<and>
        ks_now st s \<le> now \<and> now \<le> ks_now st s' \<and>
        key = new_key tenant name ttl (if rate \<le> 0 then 600 else rate) now (ak_KeyID key) (HashSecret sec)) \<and>
      hash s' = put_fields (key_fields key) (keyPath (ak_KeyID key)) (hash s)"
proof -
  obtain t g where g: "GenerateKey (ak_rand (ks_client st)) s = (t, g)" by force
  note q = GenerateKey_effect [OF g]
  define mk where "mk = new_key tenant name ttl (if rate \<le> 0 then 600 else rate) (ks_now st t)"
  have c: "(s', r) = (if tenant = [] then (s, Inl (Errorf ''auth: tenantID must be set''))
      else case g of Inl e \<Rightarrow> (t, Inl e) | Inr (raw, kid, h) \<Rightarrow>
        (let (s2, err) = save st (mk kid h) t in (s2, case err of Some e \<Rightarrow> Inl e | None \<Rightarrow> Inr (raw, mk kid h))))"
    using assms g unfolding mk_def by (auto simp: Create_def Let_def split: sum.splits prod.splits)
  show "counter s' = counter s \<and> ks_now st s \<le> ks_now st s' \<and>
    (hash s' = hash s \<or> (\<exists>key. ak_RevokedAt key = zero_time \<and> hash s' = put_fields (key_fields key) (keyPath (ak_KeyID key)) (hash s)))"
  proof (cases "tenant = [] \<or> (\<exists>e. g = Inl e)")
    case False
    then obtain raw kid h where gg: "g = Inr (raw, kid, h)" by (cases g) auto
    obtain err where sv: "save st (mk kid h) t = (s', err)" using c gg False by (auto split: prod.splits)
    have "ak_RevokedAt (mk kid h) = zero_time" by (simp add: mk_def new_key_def)
    with save_effect [OF sv] q show ?thesis by (fastforce simp: quiet_def)
  qed (use c q in \<open>auto simp: quiet_def split: if_splits\<close>)
  assume r: "r = Inr (raw, key)"
  with c obtain kid h where gg: "g = Inr (raw, kid, h)" "save st (mk kid h) t = (s', None)" "key = mk kid h" "tenant \<noteq> []"
    by (auto split: if_splits sum.splits prod.splits option.splits)
  moreover obtain sec where "ParseKey raw = Inr (kid, sec)" "h = HashSecret sec" using q gg(1) by blast
  moreover have "ak_KeyID key = kid" using gg(3) by (simp add: mk_def new_key_def)
  ultimately show "(\<exists>sec now. ParseKey raw = Inr (ak_KeyID key, sec) \<and> tenant \<noteq> [] \<and>
        ks_now st s \<le> now \<and> now \<le> ks_now st s' \<and>
        key = new_key tenant name ttl (if rate \<le> 0 then 600 else rate) now (ak_KeyID key) (HashSecret sec)) \<and>
      hash s' = put_fields (key_fields key) (keyPath (ak_KeyID key)) (hash s)"
    using save_effect [OF gg(2)] q
    by (intro conjI exI [of _ sec] exI [of _ "ks_now st t"]) (auto simp: mk_def new_key_def quiet_def)
qed

end

section \<open>Everything but a rotation\<close>

inductive key_step :: "'s RedisStore \<Rightarrow> string \<Rightarrow> 's \<Rightarrow> 's \<Rightarrow> bool" for st kid where
    creates: "Create st tenant name ttl rate s = (s', r) \<Longrightarrow> key_step st kid s s'"
  | verifies: "Verify (redis_key_store st) raw now s = (s', k, e) \<Longrightarrow> key_step st kid s s'"
  | revokes: "Revoke st kid' s = (s', e) \<Longrightarrow> key_step st kid s s'"
  | rotates_other: "Rotate st kid' overlap s = (s', r) \<Longrightarrow> kid' \<noteq> kid \<Longrightarrow> key_step st kid s s'"
  | lists: "ListForTenant st tenant s = (s', l) \<Longrightarrow> key_step st kid s s'"

definition revoked_by :: "('s \<Rightarrow> string \<Rightarrow> string \<Rightarrow> string option) \<Rightarrow> string \<Rightarrow> 's \<Rightarrow> gotime \<Rightarrow> bool" where
  "revoked_by hash kid s now \<longleftrightarrow> (\<exists>t. hash s (keyPath kid) ''revoked_at'' = Some (format_int t) \<and>
     0 \<le> t \<and> time_unix_milli t \<le> now)"

lemma revoked_by_mono: "revoked_by hash kid s now \<Longrightarrow> now \<le> now' \<Longrightarrow> revoked_by hash kid s now'"
  by (auto simp: revoked_by_def)

lemma key_fields_no_revoked: "ak_RevokedAt key = zero_time \<Longrightarrow> map_of (rev (key_fields key)) ''revoked_at'' = None"
  by (auto simp: key_fields_def is_zero_def map_of_eq_None_iff)

lemma put_fields_keeps_revoked:
  assumes "ak_RevokedAt key = zero_time \<or> k \<noteq> k'"
  shows "put_fields (key_fields key) k h k' ''revoked_at'' = h k' ''revoked_at''"
  using assms key_fields_no_revoked [of key] by (auto simp: put_fields_def map_add_def)

context key_store
begin

lemma revoked_save:
  assumes "save st key s = (s', e)" "revoked_by hash kid s (ks_now st s)"
    and "ak_RevokedAt key = zero_time \<or> ak_KeyID key \<noteq> kid"
  shows "revoked_by hash kid s' (ks_now st s')"
proof -
  from assms(3) have "ak_RevokedAt key = zero_time \<or> keyPath (ak_KeyID key) \<noteq> keyPath kid" by (auto simp: keyPath_def)
  note keep = put_fields_keeps_revoked [OF this, of "hash s"]
  have "hash s' (keyPath kid) ''revoked_at'' = hash s (keyPath kid) ''revoked_at''" "ks_now st s \<le> ks_now st s'"
    using save_effect [OF assms(1)] keep by auto
  with assms(2) show ?thesis by (auto simp: revoked_by_def intro: order_trans)
qed

lemma revoked_quiet: "quiet s s' \<Longrightarrow> revoked_by hash kid s (ks_now st s) \<Longrightarrow> revoked_by hash kid s' (ks_now st s')"
  by (auto simp: quiet_def revoked_by_def intro: order_trans)

lemma revoked_create:
  assumes "Create st tenant name ttl rate s = (s', r)" "revoked_by hash kid s (ks_now st s)"
  shows "revoked_by hash kid s' (ks_now st s')"
  using Create_effect(1) [OF assms(1)] assms(2)
  by (auto simp: revoked_by_def put_fields_keeps_revoked intro: order_trans)

lemma revoked_rotate:
  assumes "Rotate st kid' overlap s = (s', r)" "kid' \<noteq> kid" "revoked_by hash kid s (ks_now st s)"
  shows "revoked_by hash kid s' (ks_now st s')"
proof -
  obtain s1 l where l: "Lookup st kid' s = (s1, l)" by force
  note lk = Lookup_effect [OF l]
  with assms(3) have i1: "revoked_by hash kid s1 (ks_now st s1)" by (auto intro: revoked_quiet)
  show ?thesis
  proof (cases l)
    case (Inr old)
    then have old: "ak_KeyID old = kid'" using lk by (auto simp: key_of_fields_def)
    define ttl where "ttl = (if \<not> is_zero (ak_ExpiresAt old) then time_sub (ak_ExpiresAt old) (ks_now st s1) else 0)"
    obtain s2 c where c: "Create st (ak_TenantID old) (ak_Name old @ '' (rotated)'') ttl (ak_RateLimitPerMinute old) s1 = (s2, c)" by force
    note i2 = revoked_create [OF c i1]
    show ?thesis
    proof (cases c)
      case (Inr p)
      obtain raw key where p: "p = (raw, key)" by force
      have z: "ak_RevokedAt key = zero_time" using Create_effect(2) [OF c, of raw key] Inr p
        by (metis new_key_def APIKey.select_convs(7))
      obtain s3 e3 where s3: "save st (key\<lparr>ak_RotatedFrom := kid'\<rparr>) s2 = (s3, e3)" by force
      have i3: "revoked_by hash kid s3 (ks_now st s3)" using revoked_save [OF s3 i2] z by simp
      show ?thesis
      proof (cases e3)
        case None
        obtain s4 e4 where s4: "save st (old\<lparr>ak_RevokedAt := ks_now st s3 + overlap\<rparr>) s3 = (s4, e4)" by force
        have "revoked_by hash kid s4 (ks_now st s4)" using revoked_save [OF s4 i3] old assms(2) by simp
        with assms(1) l \<open>l = Inr old\<close> c \<open>c = Inr p\<close> p s3 None s4 show ?thesis by (auto simp: Rotate_def ttl_def)
      qed (use assms(1) l \<open>l = Inr old\<close> c \<open>c = Inr p\<close> p s3 i3 in \<open>auto simp: Rotate_def ttl_def\<close>)
    qed (use assms(1) l \<open>l = Inr old\<close> c i2 in \<open>auto simp: Rotate_def ttl_def\<close>)
  qed (use assms(1) l i1 in \<open>auto simp: Rotate_def\<close>)
qed

lemma Revoke_effect:
  assumes "Revoke st kid' s = (s', e)"
  shows "\<exists>t. ks_now st s \<le> t \<and> t \<le> ks_now st s' \<and>
    (hash s' = put_fields [(''revoked_at'', format_int (unix_milli t))] (keyPath kid') (hash s) \<or> e \<noteq> None \<and> hash s' = hash s)"
proof -
  obtain s1 x where x: "ak_exists (ks_client st) (keyPath kid') s = (s1, x)" by force
  note q = exists_quiet [OF x]
  show ?thesis
  proof (cases "\<exists>n. x = Inr n \<and> n \<noteq> 0")
    case True
    obtain s2 y where y: "hset (ks_client st) (keyPath kid') [(''revoked_at'', format_int (unix_milli (ks_now st s1)))] s1 = (s2, y)" by force
    from hset_effect [OF y] q assms x True y show ?thesis
      by (intro exI [of _ "ks_now st s1"]) (auto simp: Revoke_def split: option.splits)
  next
    case False
    with assms x q show ?thesis
      by (intro exI [of _ "ks_now st s"]) (auto simp: Revoke_def split: sum.splits if_splits)
  qed
qed

lemma put_revoked: "put_fields [(''revoked_at'', v)] k h k' ''revoked_at'' = (if k' = k then Some v else h k' ''revoked_at'')"
  by (simp add: put_fields_def)

lemma revoked_revoke:
  assumes "Revoke st kid' s = (s', e)" "revoked_by hash kid s (ks_now st s) \<or> kid' = kid \<and> e = None" "0 \<le> ks_now st s"
  shows "revoked_by hash kid s' (ks_now st s')"
proof -
  obtain t where t: "ks_now st s \<le> t" "t \<le> ks_now st s'"
    and h: "hash s' = put_fields [(''revoked_at'', format_int (unix_milli t))] (keyPath kid') (hash s) \<or> e \<noteq> None \<and> hash s' = hash s"
    using Revoke_effect [OF assms(1)] by blast
  have m: "0 \<le> unix_milli t" using t(1) assms(3) by (simp add: unix_milli_def pos_imp_zdiv_nonneg_iff)
  have n: "time_unix_milli (unix_milli t) \<le> ks_now st s'" using time_unix_milli_le [of t] t(2) by simp
  show ?thesis
  proof (cases "kid' = kid \<and> hash s' \<noteq> hash s")
    case True
    with h have "hash s' (keyPath kid) ''revoked_at'' = Some (format_int (unix_milli t))" by (auto simp: put_revoked)
    with m n show ?thesis by (auto simp: revoked_by_def)
  next
    case False
    show ?thesis
    proof (cases "hash s' = hash s \<and> e = None \<and> kid' = kid")
      case True
      with h have "hash s' = put_fields [(''revoked_at'', format_int (unix_milli t))] (keyPath kid) (hash s)" by simp
      then have "hash s' (keyPath kid) ''revoked_at'' = Some (format_int (unix_milli t))"
        by (metis put_revoked)
      with m n show ?thesis by (auto simp: revoked_by_def)
    next
      case 2: False
      with False assms(2) have "revoked_by hash kid s (ks_now st s)" by auto
      moreover have "hash s' (keyPath kid) ''revoked_at'' = hash s (keyPath kid) ''revoked_at''"
        using h False by (auto simp: put_revoked keyPath_def)
      ultimately show ?thesis using t by (auto simp: revoked_by_def intro: order_trans)
    qed
  qed
qed

lemma key_step_revoked:
  assumes "key_step st kid s s'" "revoked_by hash kid s (ks_now st s)"
  shows "revoked_by hash kid s' (ks_now st s')"
  using assms(1)
proof cases
  case (creates tenant name ttl rate r)
  then show ?thesis using assms(2) by (rule revoked_create)
next
  case (verifies raw now k e)
  from Verify_effect [OF this] assms(2) show ?thesis by (auto simp: revoked_by_def intro: order_trans)
next
  case (revokes kid' e)
  have "0 \<le> ks_now st s" using assms(2) by (auto simp: revoked_by_def time_unix_milli_def intro: order_trans [rotated])
  with revokes assms(2) show ?thesis using revoked_revoke by blast
next
  case (rotates_other kid' overlap r)
  then show ?thesis using assms(2) by (rule revoked_rotate)
next
  case (lists tenant l)
  then have "quiet s s'" by (auto simp: ListForTenant_def quiet_def split: prod.splits dest: smembers_quiet)
  then show ?thesis using assms(2) by (rule revoked_quiet)
qed

end

section \<open>Records read back\<close>

definition round_ms :: "gotime \<Rightarrow> gotime" where
  "round_ms t = time_unix_milli (unix_milli t)"

definition rounded :: "APIKey \<Rightarrow> APIKey" where
  "rounded key = key\<lparr>ak_CreatedAt := round_ms (ak_CreatedAt key), ak_ExpiresAt := round_ms (ak_ExpiresAt key),
     ak_RevokedAt := round_ms (ak_RevokedAt key)\<rparr>"

lemma round_ms_zero [simp]: "round_ms zero_time = zero_time"
  by (simp add: round_ms_def zero_time_def unix_milli_def time_unix_milli_def)

lemma distinct_key_fields: "distinct (map fst (key_fields key))"
  by (simp add: key_fields_def)

lemma map_of_rev_key_fields [simp]: "map_of (rev (key_fields key)) = map_of (key_fields key)"
  using distinct_key_fields [of key] by (subst map_of_inject_set) (simp_all flip: rev_map)

lemma key_fields_tenant: "map_of (key_fields key) ''tenant_id'' = Some (ak_TenantID key)"
  by (simp add: key_fields_def)

lemma field_ms_formatted:
  "map_of fs k = Some (format_int (unix_milli t)) \<Longrightarrow> in_int64 (unix_milli t) \<Longrightarrow> field_ms fs k = round_ms t"
  by (simp add: field_ms_def parse_format_int round_ms_def)

lemma key_of_saved:
  assumes "map_of fs = map_of (key_fields key)"
    and "in_int64 (unix_milli (ak_CreatedAt key))" "in_int64 (unix_milli (ak_ExpiresAt key))"
    and "in_int64 (unix_milli (ak_RevokedAt key))" "in_int64 (ak_RateLimitPerMinute key)"
  shows "key_of_fields (ak_KeyID key) fs = rounded key"
proof -
  have ms: "field_ms fs k = (case map_of (key_fields key) k of None \<Rightarrow> zero_time
      | Some v \<Rightarrow> (case parsed_ok (parse_int v) of None \<Rightarrow> zero_time | Some n \<Rightarrow> time_unix_milli n))" for k
    by (simp add: field_ms_def assms(1))
  have str: "field_str fs k = (case map_of (key_fields key) k of None \<Rightarrow> [] | Some v \<Rightarrow> v)" for k
    by (simp add: field_str_def assms(1))
  show ?thesis
    using assms(2-5) unfolding key_of_fields_def ms str rounded_def
    by (cases key) (simp add: key_fields_def parse_format_int round_ms_def is_zero_def
        round_ms_zero [unfolded round_ms_def])
qed

lemma revoked_not_active:
  assumes "revoked_by hash kid s now" "map_of fs = hash s (keyPath kid)" "now < 2 ^ 63"
  shows "\<not> Active (key_of_fields kid fs) now"
proof -
  obtain t where t: "hash s (keyPath kid) ''revoked_at'' = Some (format_int t)" "0 \<le> t" "time_unix_milli t \<le> now"
    using assms(1) by (auto simp: revoked_by_def)
  have "t \<le> time_unix_milli t" using t(2) by (simp add: time_unix_milli_def)
  with t(2,3) assms(3) have "in_int64 t" by (simp add: in_int64_def)
  then have "ak_RevokedAt (key_of_fields kid fs) = time_unix_milli t"
    by (simp add: key_of_fields_def field_ms_def assms(2) t(1) parse_format_int)
  moreover have "\<not> is_zero (time_unix_milli t)" using t(2) by (simp add: is_zero_def zero_time_def time_unix_milli_def)
  ultimately show ?thesis using t(3) by (simp add: Active_def)
qed

lemma Verify_redis:
  assumes "ParseKey raw = Inr (kid, sec)"
  shows "Verify (redis_key_store st) raw now s =
    (let (s1, l) = Lookup st kid s in
     case l of
       Inl e \<Rightarrow> (s1, None, Some (if errors_is e ErrKeyNotFound then Sent ErrInvalidKey else e))
     | Inr key \<Rightarrow>
         if ak_SecretHash key \<noteq> HashSecret sec \<or> \<not> Active key now then (s1, None, Some (Sent ErrInvalidKey))
         else let (s2, a) = Allow st kid (ak_RateLimitPerMinute key) s1
              in (s2, case a of Inl e \<Rightarrow> None | Inr _ \<Rightarrow> Some key,
                  case a of Inl e \<Rightarrow> Some e | Inr (ok, _) \<Rightarrow> if ok then None else Some (Sent ErrRateLimited)))"
  using assms
  by (auto simp: Verify_def redis_key_store_def ConstantTimeCompare_eq bytes_of_inj split: prod.splits sum.splits)

lemma Allow_answers: "Allow st kid n s = (s', a) \<Longrightarrow> \<exists>ok r. a = Inr (ok, r)"
  by (auto simp: Allow_def Let_def split: if_splits prod.splits sum.splits)

section \<open>An in-memory instance\<close>

record mem_keys =
  my_hash :: "string \<Rightarrow> (string \<times> string) list"
  my_counter :: "string \<Rightarrow> int"
  my_clock :: gotime
  my_next :: nat

definition my_view :: "mem_keys \<Rightarrow> string \<Rightarrow> string \<Rightarrow> string option" where
  "my_view s k = map_of (my_hash s k)"

definition mem_key_client :: "mem_keys key_client" where
  "mem_key_client =
     \<lparr>hset = (\<lambda>k fs s. (s\<lparr>my_hash := (my_hash s)(k := rev fs @ my_hash s k)\<rparr>, None)),
      hgetall = (\<lambda>k s. (s, Inr (my_hash s k))),
      sadd = (\<lambda>k v s. (s, None)), smembers = (\<lambda>k s. (s, Inr [])),
      ak_pipe = run_cmds,
      ak_exists = (\<lambda>k s. (s, Inr (if my_hash s k = [] then 0 else 1))),
      ak_eval = (\<lambda>f s. f s),
      incr = (\<lambda>k s. (s\<lparr>my_counter := (my_counter s)(k := my_counter s k + 1)\<rparr>, Inr (my_counter s k + 1))),
      expire = (\<lambda>k t s. s), ak_ping = (\<lambda>s. (s, None)),
      ak_rand = (\<lambda>n s. (s\<lparr>my_next := Suc (my_next s)\<rparr>, Inr (replicate n (word_of_nat (my_next s)))))\<rparr>"

definition mem_key_store :: "mem_keys RedisStore" where
  "mem_key_store = \<lparr>ks_client = mem_key_client, ks_now = my_clock\<rparr>"

lemma run_cmds_steps: "run_cmds cs s = (s', e) \<Longrightarrow> set cs \<subseteq> set ds \<Longrightarrow> (step_of ds)\<^sup>*\<^sup>* s s'"
proof (induction cs arbitrary: s e)
  case (Cons c cs)
  obtain t x where c: "c s = (t, x)" by force
  then have "step_of ds s t" using Cons.prems(2) by (auto simp: step_of_def intro: bexI [of _ c])
  moreover obtain y where "run_cmds cs t = (s', y)" using Cons.prems(1) c by (auto split: prod.splits)
  then have "(step_of ds)\<^sup>*\<^sup>* t s'" using Cons.IH Cons.prems(2) by auto
  ultimately show ?case by (rule converse_rtranclp_into_rtranclp)
qed simp

interpretation memy: redis_keys mem_key_client my_view my_counter my_clock
  by unfold_locales
    (auto simp: mem_key_client_def my_view_def put_fields_def fun_eq_iff map_add_def
      split: option.splits intro: run_cmds_steps)

interpretation memks: key_store mem_key_store my_view my_counter
  using memy.redis_keys_axioms by (simp add: key_store_def mem_key_store_def)

definition no_keys :: mem_keys where
  "no_keys = \<lparr>my_hash = (\<lambda>_. []), my_counter = (\<lambda>_. 0), my_clock = 5 * second, my_next = 1\<rparr>"

section \<open>The properties\<close>

text \<open>The trace of the limiter: calls in the window \<open>w\<close> that reached the script, each with its
  decision, between which anything may happen that leaves the window's counter alone. The counter
  lives 70 seconds, longer than the window.\<close>

inductive allow_trace ::
  "'s RedisStore \<Rightarrow> ('s \<Rightarrow> string \<Rightarrow> int) \<Rightarrow> string \<Rightarrow> int \<Rightarrow> int \<Rightarrow> 's \<Rightarrow> bool list \<Rightarrow> 's \<Rightarrow> bool"
  for st counter kid n w s where
    start: "allow_trace st counter kid n w s [] s"
  | call: "allow_trace st counter kid n w s bs t \<Longrightarrow> rate_window (ks_now st t) = w \<Longrightarrow>
      ak_eval (ks_client st) (rateLimitScript (ks_client st) (rate_key kid w) 70) t = (u, Inr c) \<Longrightarrow>
      Allow st kid n t = (u', Inr (b, r)) \<Longrightarrow> allow_trace st counter kid n w s (bs @ [b]) u'"
  | other: "allow_trace st counter kid n w s bs t \<Longrightarrow>
      counter u (rate_key kid w) = counter t (rate_key kid w) \<Longrightarrow> allow_trace st counter kid n w s bs u"

context key_store
begin

lemma allow_trace_count:
  assumes "allow_trace st counter kid n w s bs s'" "0 < n" "counter s (rate_key kid w) = 0"
  shows "counter s' (rate_key kid w) = int (length bs) \<and> int (length (filter id bs)) = min (int (length bs)) n"
  using assms(1)
proof induction
  case start
  with assms(2,3) show ?case by simp
next
  case (call bs t u c u' b r)
  let ?k = "rate_key kid w"
  from eval_ok [OF call.hyps(3)] have "rateLimitScript (ks_client st) ?k 70 t = (u, Inr c)" .
  from script_effect [OF this] have c: "c = counter t ?k + 1" "counter u ?k = c" by auto
  have "u' = u" "b \<longleftrightarrow> c \<le> n" using call.hyps assms(2) by (auto simp: Allow_def)
  with c call.IH show ?case by auto
qed simp

end

text \<open>C28. The rate limiter admits exactly the budget: in one window, however the calls for a key are
  interleaved with other work, of the calls that reach the counter the first \<open>n\<close> are admitted and
  all later ones refused. A limiter failure admits the call, as documented.\<close>

theorem rate_budget_exact:
  assumes "key_store st hash counter" "0 < n" "counter s (rate_key kid w) = 0"
    and "allow_trace st counter kid n w s bs s'"
  shows "int (length (filter id bs)) = min (int (length bs)) n \<and>
    (\<forall>t u e. ak_eval (ks_client st) (rateLimitScript (ks_client st) (rate_key kid (rate_window (ks_now st t))) 70) t = (u, Inl e)
       \<longrightarrow> Allow st kid n t = (u, Inr (True, 0)))"
  using key_store.allow_trace_count [OF assms(1,4,2,3)] assms(2) by (auto simp: Allow_def)

theorem rate_budget_exact_witness:
  "\<exists>b1 b2 s1 s2. Allow mem_key_store ''k'' 1 no_keys = (s1, Inr (b1, 0)) \<and>
     Allow mem_key_store ''k'' 1 s1 = (s2, Inr (b2, 0)) \<and> length (filter id [b1, b2]) = 1"
proof -
  let ?k = "rate_key ''k'' 0"
  let ?s1 = "no_keys\<lparr>my_counter := (my_counter no_keys)(?k := 1)\<rparr>"
  let ?s2 = "no_keys\<lparr>my_counter := (my_counter no_keys)(?k := 2)\<rparr>"
  have w: "rate_window (ks_now mem_key_store no_keys) = 0" "rate_window (ks_now mem_key_store ?s1) = 0"
    by (simp_all add: rate_window_def mem_key_store_def no_keys_def unix_sec_def go_div_def)
  have e1: "ak_eval (ks_client mem_key_store) (rateLimitScript (ks_client mem_key_store) ?k 70) no_keys = (?s1, Inr 1)"
    and e2: "ak_eval (ks_client mem_key_store) (rateLimitScript (ks_client mem_key_store) ?k 70) ?s1 = (?s2, Inr 2)"
    by (simp_all add: rateLimitScript_def mem_key_store_def mem_key_client_def no_keys_def)
  have a1: "Allow mem_key_store ''k'' 1 no_keys = (?s1, Inr (True, 0))"
    and a2: "Allow mem_key_store ''k'' 1 ?s1 = (?s2, Inr (False, 0))"
    using w e1 e2 by (simp_all add: Allow_def)
  have "allow_trace mem_key_store my_counter ''k'' 1 0 no_keys (([] @ [True]) @ [False]) ?s2"
    by (rule allow_trace.call [OF allow_trace.call [OF allow_trace.start w(1) e1 a1] w(2) e2 a2])
  from rate_budget_exact [OF memks.key_store_axioms _ _ this] a1 a2 show ?thesis
    by (fastforce simp: no_keys_def)
qed

text \<open>C26. A revoked key stays revoked. After a successful \<open>Revoke\<close>, whatever any process does (create
  keys, even with the same random id, verify, revoke, rotate other keys), a request with that key
  never authenticates and consumes no budget; unless the store fails, the answer is the one
  uninformative \<open>ErrInvalidKey\<close>.\<close>

theorem revoked_stays_revoked:
  assumes "key_store st hash counter" "Revoke st kid s = (s1, None)" "0 \<le> ks_now st s"
    and "(key_step st kid)\<^sup>*\<^sup>* s1 s2" "ks_now st s2 < 2 ^ 63" "ParseKey raw = Inr (kid, sec)"
    and "Verify (redis_key_store st) raw (ks_now st s2) s2 = (s3, k, e)"
  shows "k = None \<and> e \<noteq> None \<and> hash s3 = hash s2 \<and> counter s3 = counter s2 \<and>
    (\<forall>s4 key. Lookup st kid s2 = (s4, Inr key) \<longrightarrow> e = Some (Sent ErrInvalidKey))"
proof -
  have "revoked_by hash kid s1 (ks_now st s1)"
    using key_store.revoked_revoke [OF assms(1,2) _ assms(3)] by blast
  with assms(4) have r: "revoked_by hash kid s2 (ks_now st s2)"
    by (induction rule: rtranclp_induct) (auto intro: key_store.key_step_revoked [OF assms(1)])
  obtain s4 l where l: "Lookup st kid s2 = (s4, l)" by force
  note lk = key_store.Lookup_effect [OF assms(1) l]
  have "\<not> Active key (ks_now st s2)" if "l = Inr key" for key
    using lk that revoked_not_active [OF r _ assms(5)] by blast
  then show ?thesis using assms(7) l lk
    by (auto simp: Verify_redis [OF assms(6)] key_store.quiet_def [OF assms(1)] split: sum.splits if_splits)
qed

theorem revoked_stays_revoked_witness:
  "\<exists>s1 s3. Revoke mem_key_store ''a1'' (no_keys\<lparr>my_hash := (\<lambda>_. [(''secret_hash'', HashSecret ''b2'')])\<rparr>) = (s1, None) \<and>
     Verify (redis_key_store mem_key_store) ''rmk_a1_b2'' (my_clock s1) s1 = (s3, None, Some (Sent ErrInvalidKey))"
proof -
  let ?s = "no_keys\<lparr>my_hash := (\<lambda>_. [(''secret_hash'', HashSecret ''b2'')])\<rparr>"
  define s1 where "s1 = fst (Revoke mem_key_store ''a1'' ?s)"
  have rv: "Revoke mem_key_store ''a1'' ?s = (s1, None)"
    by (simp add: s1_def Revoke_def mem_key_store_def mem_key_client_def split: prod.splits)
  have c: "ks_now mem_key_store s1 = 5 * second"
    by (simp add: s1_def Revoke_def mem_key_store_def mem_key_client_def no_keys_def)
  have p: "ParseKey ''rmk_a1_b2'' = Inr (''a1'', ''b2'')" by (simp add: ParseKey_def KeyPrefix_def)
  obtain key where l: "Lookup mem_key_store ''a1'' s1 = (s1, Inr key)"
    by (simp add: s1_def Lookup_def Revoke_def mem_key_store_def mem_key_client_def)
  obtain s3 k e where v: "Verify (redis_key_store mem_key_store) ''rmk_a1_b2'' (ks_now mem_key_store s1) s1 = (s3, k, e)"
    by (metis prod.exhaust)
  have "k = None" "e = Some (Sent ErrInvalidKey)"
    using revoked_stays_revoked [OF memks.key_store_axioms rv _ rtranclp.rtrancl_refl _ p v] l c
    by (simp_all add: mem_key_store_def no_keys_def)
  with rv v show ?thesis by (auto simp: mem_key_store_def)
qed

lemma unix_milli_in_int64: "- (2 ^ 64) \<le> t \<Longrightarrow> t < 2 ^ 64 \<Longrightarrow> in_int64 (unix_milli t)"
  by (simp add: in_int64_def unix_milli_def) linarith

lemma unix_milli_zero_in_int64: "in_int64 (unix_milli zero_time)"
  by (simp add: in_int64_def unix_milli_def zero_time_def)

text \<open>C27. A new key works, for its tenant and nothing else, until it expires. As long as its record is
  kept, the raw key that \<open>Create\<close> returned authenticates as the created record (times rounded down
  to the millisecond) unless the budget is used up; after the expiry, and with any other secret,
  the answer is \<open>ErrInvalidKey\<close>.\<close>

theorem created_key_verifies:
  assumes "key_store st hash counter" "Create st tenant name ttl rate s = (s1, Inr (raw, key))"
    and "0 \<le> ks_now st s" "ks_now st s1 < 2 ^ 63" "in_int64 ttl" "in_int64 rate"
    and "hash s (keyPath (ak_KeyID key)) = Map.empty"
    and "hash s2 (keyPath (ak_KeyID key)) = hash s1 (keyPath (ak_KeyID key))"
    and "Lookup st (ak_KeyID key) s2 = (s3, Inr k0)"
    and "Verify (redis_key_store st) raw now s2 = (s4, k, e)"
  shows "(if 0 < ttl \<and> round_ms (ak_ExpiresAt key) \<le> now then k = None \<and> e = Some (Sent ErrInvalidKey)
      else k = Some (rounded key) \<and> ak_TenantID key = tenant \<and> (e = None \<or> e = Some (Sent ErrRateLimited))) \<and>
    (\<forall>raw' sec. ParseKey raw' = Inr (ak_KeyID key, sec) \<longrightarrow> HashSecret sec \<noteq> ak_SecretHash key \<longrightarrow>
       snd (Verify (redis_key_store st) raw' now s2) = (None, Some (Sent ErrInvalidKey)))"
proof -
  from key_store.Create_effect(2) [OF assms(1,2) refl] obtain sec t where
    p: "ParseKey raw = Inr (ak_KeyID key, sec)" and t: "ks_now st s \<le> t" "t \<le> ks_now st s1"
    and key: "key = new_key tenant name ttl (if rate \<le> 0 then 600 else rate) t (ak_KeyID key) (HashSecret sec)"
    and h: "hash s1 = put_fields (key_fields key) (keyPath (ak_KeyID key)) (hash s)" by blast
  have sel: "ak_TenantID key = tenant" "ak_SecretHash key = HashSecret sec" "ak_CreatedAt key = t"
    "ak_ExpiresAt key = (if 0 < ttl then t + ttl else zero_time)" "ak_RevokedAt key = zero_time"
    "ak_RateLimitPerMinute key = (if rate \<le> 0 then 600 else rate)"
    by (subst key, simp add: new_key_def)+
  have exp: "in_int64 (unix_milli (ak_ExpiresAt key))"
    using t assms(3-5) unix_milli_in_int64 [of "t + ttl"] unix_milli_zero_in_int64
    by (auto simp: sel in_int64_def)
  from key_store.Lookup_effect [OF assms(1,9)] obtain fs where fs: "map_of fs = hash s2 (keyPath (ak_KeyID key))"
    and k0: "k0 = key_of_fields (ak_KeyID key) fs" by blast
  have "map_of fs = map_of (key_fields key)" using fs assms(7,8) h by (simp add: put_fields_def)
  moreover have "in_int64 (unix_milli (ak_CreatedAt key))" using t assms(3,4) unix_milli_in_int64 [of t] by (simp add: sel)
  moreover have "in_int64 (ak_RateLimitPerMinute key)" using assms(6) by (simp add: sel in_int64_def)
  ultimately have k0: "k0 = rounded key" unfolding k0
    using exp unix_milli_zero_in_int64 by (intro key_of_saved) (simp_all add: sel)
  have nz: "\<not> is_zero (round_ms (t + ttl))" if "0 < ttl"
  proof -
    have "0 \<le> round_ms (t + ttl)" using that t(1) assms(3)
      by (simp add: round_ms_def time_unix_milli_def unix_milli_def pos_imp_zdiv_nonneg_iff)
    then show ?thesis by (simp add: is_zero_def zero_time_def)
  qed
  have act: "Active (rounded key) now \<longleftrightarrow> \<not> (0 < ttl \<and> round_ms (ak_ExpiresAt key) \<le> now)"
    using nz by (auto simp: Active_def rounded_def sel is_zero_def)
  obtain s5 a where al: "Allow st (ak_KeyID key) (ak_RateLimitPerMinute (rounded key)) s3 = (s5, a)" by force
  obtain ok rm where a: "a = Inr (ok, rm)" using Allow_answers [OF al] by blast
  have hash: "ak_SecretHash (rounded key) = HashSecret sec" by (simp add: rounded_def sel)
  have one: "if 0 < ttl \<and> round_ms (ak_ExpiresAt key) \<le> now then k = None \<and> e = Some (Sent ErrInvalidKey)
      else k = Some (rounded key) \<and> ak_TenantID key = tenant \<and> (e = None \<or> e = Some (Sent ErrRateLimited))"
    using assms(9,10) act al a hash by (auto simp: Verify_redis [OF p] k0 sel split: if_splits)
  have "snd (Verify (redis_key_store st) raw' now s2) = (None, Some (Sent ErrInvalidKey))"
    if "ParseKey raw' = Inr (ak_KeyID key, sec')" "HashSecret sec' \<noteq> ak_SecretHash key" for raw' sec'
    using that(2) assms(9) hash by (auto simp: Verify_redis [OF that(1)] k0 sel)
  with one show ?thesis by blast
qed

theorem created_key_verifies_witness:
  "\<exists>s1 raw key s4 e. Create mem_key_store ''acme'' ''prod'' 0 0 no_keys = (s1, Inr (raw, key)) \<and>
     Verify (redis_key_store mem_key_store) raw (5 * second) s1 = (s4, Some (rounded key), e)"
proof -
  define c where "c = Create mem_key_store ''acme'' ''prod'' 0 0 no_keys"
  obtain raw key where r: "snd c = Inr (raw, key)"
    by (simp add: c_def Create_def GenerateKey_def save_def mem_key_store_def mem_key_client_def Let_def)
  then have c: "Create mem_key_store ''acme'' ''prod'' 0 0 no_keys = (fst c, Inr (raw, key))"
    by (simp add: c_def prod_eq_iff)
  have clock: "ks_now mem_key_store (fst c) = 5 * second"
    by (simp add: c_def Create_def GenerateKey_def save_def mem_key_store_def mem_key_client_def no_keys_def Let_def)
  have "my_view (fst c) = put_fields (key_fields key) (keyPath (ak_KeyID key)) (my_view no_keys)"
    using memks.Create_effect(2) [OF c refl] by blast
  then have "my_view (fst c) (keyPath (ak_KeyID key)) ''tenant_id'' = Some (ak_TenantID key)"
    by (simp add: put_fields_def map_add_def key_fields_tenant)
  then have "my_hash (fst c) (keyPath (ak_KeyID key)) \<noteq> []" by (auto simp: my_view_def)
  then have l: "\<exists>k0. Lookup mem_key_store (ak_KeyID key) (fst c) = (fst c, Inr k0)"
    by (simp add: Lookup_def mem_key_store_def mem_key_client_def)
  obtain s4 k e where v: "Verify (redis_key_store mem_key_store) raw (5 * second) (fst c) = (s4, k, e)"
    by (metis prod.exhaust)
  have "k = Some (rounded key)"
    using l created_key_verifies [OF memks.key_store_axioms c _ _ _ _ _ refl _ v] clock
    by (auto simp: in_int64_def mem_key_store_def no_keys_def my_view_def)
  with c v show ?thesis by blast
qed

lemma key_fields_lookup:
  "map_of (key_fields key) ''secret_hash'' = Some (ak_SecretHash key)"
  "map_of (key_fields key) ''expires_at'' =
     (if is_zero (ak_ExpiresAt key) then None else Some (format_int (unix_milli (ak_ExpiresAt key))))"
  "map_of (key_fields key) ''revoked_at'' =
     (if is_zero (ak_RevokedAt key) then None else Some (format_int (unix_milli (ak_RevokedAt key))))"
  by (simp_all add: key_fields_def)

lemma round_ms_mono: "t \<le> u \<Longrightarrow> round_ms t \<le> round_ms u"
  by (simp add: round_ms_def time_unix_milli_def unix_milli_mono)

context key_store
begin

lemma Rotate_ok:
  assumes "Rotate st kid overlap s = (s', Inr (raw, fresh))" "ak_KeyID fresh \<noteq> kid"
  shows "\<exists>t fs. ks_now st s \<le> t \<and> t \<le> ks_now st s' \<and> map_of fs = hash s (keyPath kid) \<and>
    hash s' (keyPath kid) = hash s (keyPath kid) ++ map_of (key_fields ((key_of_fields kid fs)\<lparr>ak_RevokedAt := t + overlap\<rparr>))"
proof -
  obtain s1 old where l: "Lookup st kid s = (s1, Inr old)"
    using assms(1) by (auto simp: Rotate_def split: prod.splits sum.splits)
  from Lookup_effect [OF l] obtain fs where fs: "map_of fs = hash s (keyPath kid)" "old = key_of_fields kid fs"
    and q: "quiet s s1" by blast
  have id: "ak_KeyID old = kid" by (simp add: fs key_of_fields_def)
  define ttl where "ttl = (if \<not> is_zero (ak_ExpiresAt old) then time_sub (ak_ExpiresAt old) (ks_now st s1) else 0)"
  obtain s2 key where c: "Create st (ak_TenantID old) (ak_Name old @ '' (rotated)'') ttl (ak_RateLimitPerMinute old) s1
      = (s2, Inr (raw, key))" and f: "fresh = key\<lparr>ak_RotatedFrom := kid\<rparr>"
    using assms(1) l by (auto simp: Rotate_def ttl_def Let_def split: prod.splits sum.splits option.splits)
  obtain s3 where s3: "save st fresh s2 = (s3, None)"
    and s4: "save st (old\<lparr>ak_RevokedAt := ks_now st s3 + overlap\<rparr>) s3 = (s', None)"
    using assms(1) l c f by (auto simp: Rotate_def ttl_def Let_def split: prod.splits sum.splits option.splits)
  have ne: "keyPath kid \<noteq> keyPath (ak_KeyID key)" using assms(2) f by (simp add: keyPath_def)
  from save_effect [OF s4] id have "hash s' (keyPath kid) = hash s3 (keyPath kid) ++
      map_of (key_fields (old\<lparr>ak_RevokedAt := ks_now st s3 + overlap\<rparr>))" by (simp add: put_fields_def)
  moreover have "hash s3 (keyPath kid) = hash s2 (keyPath kid)" using save_effect [OF s3] f ne by (simp add: put_fields_def)
  moreover have "hash s2 (keyPath kid) = hash s1 (keyPath kid)"
    using Create_effect(2) [OF c refl] ne by (simp add: put_fields_def)
  moreover have "ks_now st s \<le> ks_now st s3" "ks_now st s3 \<le> ks_now st s'"
    using q Create_effect(1) [OF c] save_effect [OF s3] save_effect [OF s4] by (auto simp: quiet_def)
  ultimately show ?thesis using fs q by (intro exI [of _ "ks_now st s3"] exI [of _ fs]) (auto simp: quiet_def)
qed

end

text \<open>C34. Rotating a key that was revoked revives it. \<open>Rotate\<close> does not look at the status of the old
  key and overwrites its revocation time with the end of the overlap, so a key revoked because it
  leaked authenticates again until then.\<close>

theorem rotate_revives_revoked:
  assumes "key_store st hash counter" "revoked_by hash kid s (ks_now st s)"
    and "hash s (keyPath kid) ''expires_at'' = None" "hash s (keyPath kid) ''secret_hash'' = Some (HashSecret sec)"
    and "Rotate st kid overlap s = (s1, Inr (raw, fresh))" "ak_KeyID fresh \<noteq> kid"
    and "0 \<le> overlap" "ks_now st s1 + overlap < 2 ^ 63"
    and "hash s2 (keyPath kid) = hash s1 (keyPath kid)" "Lookup st kid s2 = (s3, Inr k0)"
    and "ParseKey old = Inr (kid, sec)" "now < round_ms (ks_now st s + overlap)"
    and "Verify (redis_key_store st) old now s2 = (s4, k, e)"
  shows "k \<noteq> None \<and> (e = None \<or> e = Some (Sent ErrRateLimited))"
proof -
  from key_store.Rotate_ok [OF assms(1,5,6)] obtain t fs where t: "ks_now st s \<le> t" "t \<le> ks_now st s1"
    and fs: "map_of fs = hash s (keyPath kid)"
    and h: "hash s1 (keyPath kid) = hash s (keyPath kid) ++ map_of (key_fields ((key_of_fields kid fs)\<lparr>ak_RevokedAt := t + overlap\<rparr>))"
    by blast
  have pos: "0 \<le> t" using assms(2) t(1) by (auto simp: revoked_by_def time_unix_milli_def intro: order_trans [rotated])
  then have nz: "\<not> is_zero (t + overlap)" using assms(7) by (simp add: is_zero_def zero_time_def)
  have ex: "is_zero (ak_ExpiresAt (key_of_fields kid fs))"
    by (simp add: key_of_fields_def field_ms_def fs assms(3) is_zero_def)
  have sc: "ak_SecretHash (key_of_fields kid fs) = HashSecret sec"
    by (simp add: key_of_fields_def field_str_def fs assms(4))
  from key_store.Lookup_effect [OF assms(1,10)] obtain gs where gs: "map_of gs = hash s1 (keyPath kid)"
    and k0: "k0 = key_of_fields kid gs" using assms(9) by auto
  have m: "map_of gs ''revoked_at'' = Some (format_int (unix_milli (t + overlap)))"
    "map_of gs ''expires_at'' = None" "map_of gs ''secret_hash'' = Some (HashSecret sec)"
    unfolding gs h using nz ex sc assms(3) by (simp_all add: map_add_def key_fields_lookup)
  have "in_int64 (unix_milli (t + overlap))"
    using pos t assms(7,8) by (intro unix_milli_in_int64) auto
  with m have r: "ak_RevokedAt k0 = round_ms (t + overlap)" by (simp add: k0 key_of_fields_def field_ms_formatted)
  have "now < round_ms (t + overlap)" using assms(12) round_ms_mono [of "ks_now st s + overlap" "t + overlap"] t(1) by simp
  with r m have a: "Active k0 now" "ak_SecretHash k0 = HashSecret sec"
    by (simp_all add: Active_def k0 key_of_fields_def field_ms_def field_str_def is_zero_def)
  obtain s5 x where al: "Allow st kid (ak_RateLimitPerMinute k0) s3 = (s5, x)" by force
  with Allow_answers [OF al] a assms(10,13) show ?thesis
    by (auto simp: Verify_redis [OF assms(11)] split: if_splits)
qed

definition leaked_keys :: mem_keys where
  "leaked_keys = no_keys\<lparr>my_hash := (\<lambda>_. [])(keyPath ''a1'' :=
     [(''tenant_id'', ''acme''), (''secret_hash'', HashSecret ''b2''), (''revoked_at'', ''4000'')])\<rparr>"

lemma mem_save: "snd (save mem_key_store key s) = None" "my_clock (fst (save mem_key_store key s)) = my_clock s"
  by (simp_all add: save_def mem_key_store_def mem_key_client_def Let_def)

lemma mem_create:
  assumes "tenant \<noteq> []"
  shows "\<exists>raw key. snd (Create mem_key_store tenant name ttl rate s) = Inr (raw, key) \<and>
    ak_KeyID key = hex_encode (replicate 8 (word_of_nat (my_next s)))"
    and "my_clock (fst (Create mem_key_store tenant name ttl rate s)) = my_clock s"
proof -
  have g: "GenerateKey (ak_rand mem_key_client) s = (s\<lparr>my_next := Suc (Suc (my_next s))\<rparr>,
      snd (GenerateKey (ak_rand mem_key_client) s))"
    "\<exists>raw h. snd (GenerateKey (ak_rand mem_key_client) s) = Inr (raw, hex_encode (replicate 8 (word_of_nat (my_next s))), h)"
    by (simp_all add: GenerateKey_def mem_key_client_def Let_def keyIDBytes_def del: hex_encode.simps)
  obtain raw hs where g2: "snd (GenerateKey (ak_rand mem_key_client) s) = Inr (raw, hex_encode (replicate 8 (word_of_nat (my_next s))), hs)"
    using g(2) by blast
  have c: "ks_client mem_key_store = mem_key_client" by (simp add: mem_key_store_def)
  show "\<exists>raw key. snd (Create mem_key_store tenant name ttl rate s) = Inr (raw, key) \<and>
      ak_KeyID key = hex_encode (replicate 8 (word_of_nat (my_next s)))"
    "my_clock (fst (Create mem_key_store tenant name ttl rate s)) = my_clock s"
    using assms mem_save by (simp_all add: Create_def Let_def c g(1) [unfolded g2] new_key_def split_beta del: hex_encode.simps)
qed

lemma my_next_leaked: "my_next leaked_keys = 1"
  by (simp add: leaked_keys_def no_keys_def)

theorem rotate_revives_revoked_witness:
  "\<exists>s1 raw fresh s4 k e. Rotate mem_key_store ''a1'' (60 * second) leaked_keys = (s1, Inr (raw, fresh)) \<and>
     Verify (redis_key_store mem_key_store) ''rmk_a1_b2'' (5 * second) s1 = (s4, Some k, e)"
proof -
  define r where "r = Rotate mem_key_store ''a1'' (60 * second) leaked_keys"
  note mem = mem_key_store_def mem_key_client_def
  have f4: "format_int 4000 = ''4000''" by code_simp
  have "revoked_by my_view ''a1'' leaked_keys (ks_now mem_key_store leaked_keys)"
    unfolding revoked_by_def
    by (rule exI [of _ 4000]) (simp add: my_view_def leaked_keys_def no_keys_def f4 time_unix_milli_def mem_key_store_def)
  moreover obtain old where l: "Lookup mem_key_store ''a1'' leaked_keys = (leaked_keys, Inr old)" "ak_TenantID old \<noteq> []"
    by (simp add: Lookup_def mem leaked_keys_def key_of_fields_def field_str_def)
  define ttl where "ttl = (if \<not> is_zero (ak_ExpiresAt old) then time_sub (ak_ExpiresAt old) (ks_now mem_key_store leaked_keys) else 0)"
  define c where "c = Create mem_key_store (ak_TenantID old) (ak_Name old @ '' (rotated)'') ttl (ak_RateLimitPerMinute old) leaked_keys"
  obtain raw0 key where c: "snd c = Inr (raw0, key)" "ak_KeyID key = hex_encode (replicate 8 1)"
    using mem_create(1) [OF l(2)] unfolding c_def by (metis my_next_leaked of_nat_1)
  have clk: "my_clock (fst c) = my_clock leaked_keys" unfolding c_def by (rule mem_create(2) [OF l(2)])
  have rr: "r = (let (s2, c') = c in case c' of Inl e \<Rightarrow> (s2, Inl e) | Inr (raw, fresh0) \<Rightarrow>
      (let fresh = fresh0\<lparr>ak_RotatedFrom := ''a1''\<rparr>; (s3, e3) = save mem_key_store fresh s2 in
       case e3 of Some e \<Rightarrow> (s3, Inl e) | None \<Rightarrow>
         (let (s4, e4) = save mem_key_store (old\<lparr>ak_RevokedAt := ks_now mem_key_store s3 + 60 * second\<rparr>) s3
          in (s4, case e4 of Some e \<Rightarrow> Inl e | None \<Rightarrow> Inr (raw, fresh)))))"
    unfolding r_def c_def ttl_def Rotate_def l(1) by simp
  have "\<exists>raw fresh. snd r = Inr (raw, fresh) \<and> ak_KeyID fresh = hex_encode (replicate 8 1)"
    "my_clock (fst r) = my_clock leaked_keys"
    unfolding rr using c clk by (simp_all add: split_beta mem_save Let_def del: hex_encode.simps)
  then obtain raw fresh where x: "snd r = Inr (raw, fresh)" "ak_KeyID fresh = hex_encode (replicate 8 1)"
    and clk: "my_clock (fst r) = my_clock leaked_keys" by blast
  then have rot: "Rotate mem_key_store ''a1'' (60 * second) leaked_keys = (fst r, Inr (raw, fresh))"
    by (simp add: r_def prod_eq_iff)
  moreover have "length (ak_KeyID fresh) \<noteq> length ''a1''" unfolding x(2) by simp
  then have ne: "ak_KeyID fresh \<noteq> ''a1''" by metis
  moreover have "ks_now mem_key_store (fst r) = 5 * second" using clk by (simp add: mem leaked_keys_def no_keys_def)
  moreover have "my_view (fst r) (keyPath ''a1'') ''secret_hash'' \<noteq> None"
    using memks.Rotate_ok [OF rot ne] by (auto simp: map_add_def key_fields_lookup)
  then obtain k0 where "Lookup mem_key_store ''a1'' (fst r) = (fst r, Inr k0)"
    by (cases "my_hash (fst r) (keyPath ''a1'')") (auto simp: Lookup_def mem my_view_def)
  moreover obtain s4 k e where "Verify (redis_key_store mem_key_store) ''rmk_a1_b2'' (5 * second) (fst r) = (s4, k, e)"
    by (metis prod.exhaust)
  moreover have "ParseKey ''rmk_a1_b2'' = Inr (''a1'', ''b2'')" by (simp add: ParseKey_def KeyPrefix_def)
  ultimately have "k \<noteq> None"
    using rotate_revives_revoked [OF memks.key_store_axioms, of "''a1''" leaked_keys "''b2''" "60 * second" "fst r" raw fresh
        "fst r" "fst r" k0 "''rmk_a1_b2''" "5 * second" s4 k e]
    by (simp add: my_view_def leaked_keys_def no_keys_def mem_key_store_def round_ms_def time_unix_milli_def unix_milli_def)
  with rot \<open>Verify _ _ _ _ = _\<close> show ?thesis by blast
qed

text \<open>A presented key may name the set of a tenant's keys, which is under the same prefix. For a tenant that has keys
  Redis refuses the hash command and the caller gets the store's failure (503); for one that has none the key is
  invalid (401): the answers tell which tenants exist.\<close>

theorem tenant_probe:
  assumes "hgetall (ks_client st) (tenantPath ''acme'') s = (s', r)"
  shows "r = Inl e \<Longrightarrow> \<not> errors_is (Wrapf ''auth: lookup: '' e []) ErrKeyNotFound \<Longrightarrow>
      Verify (redis_key_store st) ''rmk_tenant:acme_x'' now s = (s', None, Some (Wrapf ''auth: lookup: '' e []))"
    and "r = Inr [] \<Longrightarrow> Verify (redis_key_store st) ''rmk_tenant:acme_x'' now s = (s', None, Some (Sent ErrInvalidKey))"
proof -
  have p: "ParseKey ''rmk_tenant:acme_x'' = Inr (''tenant:acme'', ''x'')" by (simp add: ParseKey_def KeyPrefix_def)
  have k: "keyPath ''tenant:acme'' = tenantPath ''acme''" by (simp add: keyPath_def tenantPath_def)
  show "r = Inl e \<Longrightarrow> \<not> errors_is (Wrapf ''auth: lookup: '' e []) ErrKeyNotFound \<Longrightarrow>
      Verify (redis_key_store st) ''rmk_tenant:acme_x'' now s = (s', None, Some (Wrapf ''auth: lookup: '' e []))"
    and "r = Inr [] \<Longrightarrow> Verify (redis_key_store st) ''rmk_tenant:acme_x'' now s = (s', None, Some (Sent ErrInvalidKey))"
    using assms k by (simp_all add: Verify_def p redis_key_store_def Lookup_def)
qed

end
