(* ===== verification/Api_Properties.thy ===== *)
theory Api_Properties
  imports Api Auth_Properties
begin

text \<open>
  The rider-facing service. \<open>ready\<close> is a response on which nothing has been sent and that carries a
  request id; \<open>good_response\<close> is the one shape of every answer. The handlers take the first to the
  second, and the middlewares compose. The theorems are about \<open>Routes\<close>, the whole stack.
\<close>

section \<open>The shape of answers\<close>

definition ready :: "string \<Rightarrow> response \<Rightarrow> bool" where
  "ready rid w \<longleftrightarrow> rw_Sent w = None \<and> rw_Body w = [] \<and> header_get (rw_Header w) ''X-Request-ID'' = rid"

definition envelope :: "string \<Rightarrow> string \<Rightarrow> string \<Rightarrow> string \<Rightarrow> json_doc" where
  "envelope code message fld rid =
     JObj [(''error'', JObj ([(''code'', JStr code), (''message'', JStr message)] @
       (if fld = [] then [] else [(''field'', JStr fld)]) @ [(''request_id'', JStr rid)]))]"

definition good_response :: "string \<Rightarrow> response \<Rightarrow> bool" where
  "good_response rid w \<longleftrightarrow>
     (\<exists>status h. rw_Sent w = Some (status, h) \<and> header_get h ''X-Request-ID'' = rid \<and>
        (if 400 \<le> status then \<exists>code message fld. rw_Body w = [JsonDoc (envelope code message fld rid)]
         else status = 301 \<and> rw_Body w = [] \<or> (\<exists>d. rw_Body w = [JsonDoc d])))"

lemma other_names [simp]:
  "\<not> same_name ''Retry-After'' ''X-Request-ID''" "\<not> same_name ''X-RateLimit-Limit'' ''X-Request-ID''"
  "\<not> same_name ''X-RateLimit-Remaining'' ''X-Request-ID''" "\<not> same_name ''Location'' ''X-Request-ID''"
  "\<not> same_name ''Content-Type'' ''X-Request-ID''"
  by code_simp+

lemma ready_set_header [simp]: "\<not> same_name k ''X-Request-ID'' \<Longrightarrow> ready rid (set_header k v w) = ready rid w"
  by (simp add: ready_def header_get_set_other)

lemma writeError_sel:
  assumes "rw_Sent w = None"
  shows "sent_status (writeError w status code message fld rid) = Some status"
    "sent_header (writeError w status code message fld rid) ''X-Request-ID'' = rid"
    "rw_Body (writeError w status code message fld rid) = rw_Body w @ [JsonDoc (envelope code message fld rid)]"
  using assms
  by (simp_all add: writeError_def sent_status_def sent_header_def header_get_set_same envelope_def)

lemma writeJSON_sel:
  assumes "rw_Sent w = None"
  shows "sent_status (writeJSON w status rid d) = Some status"
    "sent_header (writeJSON w status rid d) ''X-Request-ID'' = rid"
    "rw_Body (writeJSON w status rid d) = rw_Body w @ [JsonDoc d]"
  using assms by (simp_all add: writeJSON_def sent_status_def sent_header_def header_get_set_same)

lemma good_responseI:
  assumes "sent_status w = Some status" "sent_header w ''X-Request-ID'' = rid"
    and "if 400 \<le> status then \<exists>code message fld. rw_Body w = [JsonDoc (envelope code message fld rid)]
         else status = 301 \<and> rw_Body w = [] \<or> (\<exists>d. rw_Body w = [JsonDoc d])"
  shows "good_response rid w"
proof -
  from assms(1) obtain h where h: "rw_Sent w = Some (status, h)" by (auto simp: sent_status_def)
  with assms(2) have "header_get h ''X-Request-ID'' = rid" by (simp add: sent_header_def)
  with h assms(3) show ?thesis unfolding good_response_def by blast
qed

lemma writeError_good: "ready rid w \<Longrightarrow> 400 \<le> status \<Longrightarrow> good_response rid (writeError w status code message fld rid)"
  using writeError_sel [of w status code message fld rid] by (intro good_responseI) (auto simp: ready_def)

lemma writeJSON_good: "ready rid w \<Longrightarrow> status < 400 \<Longrightarrow> good_response rid (writeJSON w status rid d)"
  using writeJSON_sel [of w status rid d] by (intro good_responseI) (auto simp: ready_def)

lemma redirect_good: "ready rid w \<Longrightarrow> good_response rid (redirect w loc)"
  by (intro good_responseI [of _ 301]) (auto simp: ready_def redirect_def sent_status_def sent_header_def header_get_set_other)

section \<open>Creating a request\<close>

lemma api_validate_ok:
  assumes "api_validate inp = (fld, message)" "fld = []"
  shows "\<exists>la lo. pickup_coords inp = Some (Fin la, Fin lo) \<and> - 90 \<le> la \<and> la \<le> 90 \<and> - 180 \<le> lo \<and> lo \<le> 180 \<and>
    ri_RiderID inp \<noteq> [] \<and> length (ri_RiderID inp) \<le> 128"
proof -
  from assms obtain p lat lng where p: "ri_Pickup inp = Some p" "ll_Lat p = Some lat" "ll_Lng p = Some lng"
    and f: "\<not> is_nan lat" "\<not> is_inf lat" "\<not> is_nan lng" "\<not> is_inf lng"
    and r: "\<not> out_of_range (- 90) 90 lat" "\<not> out_of_range (- 180) 180 lng"
    and i: "ri_RiderID inp \<noteq> []" "length (ri_RiderID inp) \<le> 128"
    by (auto simp: api_validate_def split: if_splits option.splits)
  from f obtain la lo where "lat = Fin la" "lng = Fin lo"
    by (cases lat; cases lng) (auto simp: is_nan_def is_inf_def)
  with p r i show ?thesis by (auto simp: pickup_coords_def)
qed

text \<open>The three ways the handler ends.\<close>

definition published :: "'s ApiServer \<Rightarrow> request \<Rightarrow> 's \<Rightarrow> 's \<Rightarrow> goerr + string \<Rightarrow> bool" where
  "published v r s s' res \<longleftrightarrow>
     (\<exists>inp la lo. av_decode v (ac_MaxBodyBytes (av_cfg v)) (hr_Body r) = (Inr inp, Some DecodeEOF) \<and>
        pickup_coords inp = Some (Fin la, Fin lo) \<and> - 90 \<le> la \<and> la \<le> 90 \<and> - 180 \<le> lo \<and> lo \<le> 180 \<and> ri_RiderID inp \<noteq> [] \<and> length (ri_RiderID inp) \<le> 128 \<and>
        Publish (av_queue v) (ride_request v r inp (Fin la) (Fin lo) s) s = (s', res))"

lemma create_cases:
  assumes "handleCreateRideRequest v r w (a, s) = ((a', s'), w', out)"
  obtains (rejected) status code message fld where "out = Returned" "s' = s" "a' = a\<lparr>as_rejected := as_rejected a + 1\<rparr>"
      "status \<in> {400, 413}" "w' = writeError w status code message fld (RequestIDFrom r)"
  | (failed) e where "out = Returned" "published v r s s' (Inl e)" "a' = a\<lparr>as_failed := as_failed a + 1\<rparr>"
      "w' = writeError (set_header ''Retry-After'' ''1'' w) 503 ''unavailable''
              ''could not accept the request right now; please retry'' [] (RequestIDFrom r)"
  | (accepted) i where "out = Returned" "published v r s s' (Inr i)" "as_accepted a' = as_accepted a + 1"
      "w' = writeJSON w 202 (RequestIDFrom r) (JObj [(''request_id'', JStr (RequestIDFrom r)), (''status'', JStr ''PENDING'')])"
proof -
  obtain first sec where d: "av_decode v (ac_MaxBodyBytes (av_cfg v)) (hr_Body r) = (first, sec)" by force
  show ?thesis
  proof (cases first)
    case (Inl err)
    obtain code message fld where x: "describeDecodeError (av_quote v) err (ac_MaxBodyBytes (av_cfg v)) = (code, message, fld)"
      by (metis prod.exhaust)
    show ?thesis
      by (rule rejected [of "if code = ''payload_too_large'' then 413 else 400" code message fld])
        (use assms d Inl x in \<open>auto simp: handleCreateRideRequest_def Let_def split: if_splits\<close>)
  next
    case (Inr inp)
    show ?thesis
    proof (cases "sec = Some DecodeEOF")
      case False
      with assms d Inr have "((a', s'), w', out) = ((a\<lparr>as_rejected := as_rejected a + 1\<rparr>, s),
          writeError w 400 ''malformed_json'' ''body must contain exactly one JSON object'' [] (RequestIDFrom r), Returned)"
        by (simp add: handleCreateRideRequest_def Let_def)
      then show ?thesis by (intro rejected [of 400]) auto
    next
      case True
      obtain fld message where x: "api_validate inp = (fld, message)" by force
      show ?thesis
      proof (cases "fld = []")
        case False
        with assms d Inr True x have "((a', s'), w', out) = ((a\<lparr>as_rejected := as_rejected a + 1\<rparr>, s),
            writeError w 400 ''invalid_argument'' message fld (RequestIDFrom r), Returned)"
          by (simp add: handleCreateRideRequest_def Let_def)
        then show ?thesis by (intro rejected [of 400]) auto
      next
        case nil: True
        from api_validate_ok [OF x nil] obtain la lo where c: "pickup_coords inp = Some (Fin la, Fin lo)"
          and rng: "- 90 \<le> la" "la \<le> 90" "- 180 \<le> lo" "lo \<le> 180" "ri_RiderID inp \<noteq> []" "length (ri_RiderID inp) \<le> 128"
          by blast
        obtain s1 res where p: "Publish (av_queue v) (ride_request v r inp (Fin la) (Fin lo) s) s = (s1, res)" by force
        then have pub: "published v r s s1 res" unfolding published_def using d Inr True rng c by blast
        show ?thesis
          using assms d Inr True x nil c p pub
          by (cases res) (auto simp: handleCreateRideRequest_def Let_def intro: failed accepted)
      qed
    qed
  qed
qed

section \<open>The stack\<close>

lemma mux_cases:
  assumes "mux v r w st = (st', w', out)"
  obtains (redirected) "w' = redirect w (cleanPath (hr_Path r))" "out = Returned"
    | (create) "handleCreateRideRequest v r w st = (st', w', out)" "hr_Path r = ''/v1/ride-requests''"
    | (health) "handleHealth r w st = (st', w', out)" | (rdy) "handleReady v r w st = (st', w', out)"
    | (stats) "handleStats v r w st = (st', w', out)" | (missing) "handleNotFound r w st = (st', w', out)"
  using assms unfolding mux_def Let_def by (auto split: if_splits)

lemma mux_good:
  assumes "mux v r w st = (st', w', out)" "ready rid w" "RequestIDFrom r = rid"
  shows "out = Returned \<and> good_response rid w'"
proof -
  obtain a s where st: "st = (a, s)" by force
  obtain a' s' where st': "st' = (a', s')" by force
  from assms(1) show ?thesis
  proof (cases rule: mux_cases)
    case redirected
    then show ?thesis using redirect_good [OF assms(2)] by simp
  next
    case create
    then have c: "handleCreateRideRequest v r w (a, s) = ((a', s'), w', out)" by (simp add: st st')
    have rd: "ready rid (set_header ''Retry-After'' ''1'' w)" using assms(2) by simp
    from c show ?thesis
    proof (cases rule: create_cases)
      case (rejected status code message fld)
      then show ?thesis using writeError_good [OF assms(2), of status] assms(3) by auto
    next
      case (failed e)
      then show ?thesis using writeError_good [OF rd, of 503] assms(3) by simp
    next
      case (accepted i)
      then show ?thesis using writeJSON_good [OF assms(2), of 202] assms(3) by simp
    qed
  next
    case health
    then show ?thesis using writeJSON_good [OF assms(2), of 200] assms(3) by (auto simp: handleHealth_def)
  next
    case rdy
    then show ?thesis using writeJSON_good [OF assms(2), of 200] writeError_good [OF assms(2), of 503] assms(3)
      by (auto simp: handleReady_def st split: prod.splits sum.splits)
  next
    case stats
    then show ?thesis using writeJSON_good [OF assms(2), of 200] assms(3)
      by (auto simp: handleStats_def st Let_def split: prod.splits)
  next
    case missing
    then show ?thesis using writeError_good [OF assms(2), of 404] assms(3) by (auto simp: handleNotFound_def)
  qed
qed

text \<open>Only the creation of a request answers 202.\<close>

lemma mux_202:
  assumes "mux v r w st = (st', w', out)" "ready rid w" "sent_status w' = Some 202"
  shows "handleCreateRideRequest v r w st = (st', w', out) \<and> hr_Path r = ''/v1/ride-requests''"
proof -
  have n: "rw_Sent w = None" using assms(2) by (simp add: ready_def)
  obtain a s where st: "st = (a, s)" by force
  from assms(1) show ?thesis
  proof (cases rule: mux_cases)
    case redirected
    with n assms(3) show ?thesis by (simp add: redirect_def sent_status_def)
  next
    case rdy
    with assms(3) writeError_sel(1) [OF n] writeJSON_sel(1) [OF n] show ?thesis
      by (auto simp: handleReady_def st split: prod.splits sum.splits)
  qed (use assms(3) writeError_sel(1) [OF n] writeJSON_sel(1) [OF n] st in
      \<open>auto simp: handleHealth_def handleStats_def handleNotFound_def Let_def split: prod.splits\<close>)
qed

text \<open>The authentication middleware either answers with an error or runs the router with a verified
  key.\<close>

lemma lift_Verify:
  "Verify (lift_store ks) raw now (a, s) = (let (s1, k, e) = Verify ks raw now s in ((a, s1), k, e))"
  by (auto simp: Verify_def lift_store_def Let_def split: sum.splits prod.splits)

lemma Verify_accepts: "Verify ks raw now s = (s', k, None) \<Longrightarrow> \<exists>key. k = Some key"
  by (auto simp: Verify_def Let_def split: sum.splits prod.splits if_splits)

definition limited :: "APIKey option \<Rightarrow> response \<Rightarrow> response" where
  "limited k w = (let w1 = set_header ''Retry-After'' ''60'' w in
     case k of None \<Rightarrow> w1 | Some kk \<Rightarrow> set_header ''X-RateLimit-Remaining'' ''0''
       (set_header ''X-RateLimit-Limit'' (format_int (ak_RateLimitPerMinute kk)) w1))"

lemma middleware_eq:
  assumes "hr_Path r \<notin> {''/healthz'', ''/readyz''}" "presentedKey r \<noteq> []"
    and "Verify ks (presentedKey r) (ac_Now (av_cfg v) s) s = (s1, k, e)"
  shows "Middleware (auth_options v ks) nxt r w (a, s) =
    (case e of
       None \<Rightarrow> nxt (r\<lparr>ctx_apikey := k\<rparr>) w (a, s1)
     | Some x \<Rightarrow>
         ((a, s1),
          if errors_is x ErrRateLimited
          then writeError (limited k w) 429 ''rate_limited'' ''rate limit exceeded for this API key'' [] (RequestIDFrom r)
          else if errors_is x ErrInvalidKey then writeError w 401 ''unauthorized'' ''invalid API key'' [] (RequestIDFrom r)
          else writeError (set_header ''Retry-After'' ''1'' w) 503 ''unavailable''
                 ''could not verify credentials right now; please retry'' [] (RequestIDFrom r), Returned))"
  using assms by (simp add: Middleware_def auth_options_def lift_Verify limited_def Let_def split: option.split)

lemma middleware_cases:
  assumes "Middleware (auth_options v ks) nxt r w (a, s) = ((a', s'), w', out)" "ready rid w" "RequestIDFrom r = rid"
  obtains (skipped) "hr_Path r \<in> {''/healthz'', ''/readyz''}" "nxt r w (a, s) = ((a', s'), w', out)"
  | (refused) status code message w0 where "out = Returned" "a' = a" "status \<in> {401, 429, 503}" "ready rid w0"
      "w' = writeError w0 status code message [] rid"
  | (admitted) key s1 where "Verify ks (presentedKey r) (ac_Now (av_cfg v) s) s = (s1, Some key, None)"
      "nxt (r\<lparr>ctx_apikey := Some key\<rparr>) w (a, s1) = ((a', s'), w', out)"
proof (cases "hr_Path r \<in> {''/healthz'', ''/readyz''}")
  case True
  with assms(1) show ?thesis by (intro skipped) (auto simp: Middleware_def auth_options_def)
next
  case path: False
  obtain s1 k e where v: "Verify ks (presentedKey r) (ac_Now (av_cfg v) s) s = (s1, k, e)" by (metis prod.exhaust)
  show ?thesis
  proof (cases "presentedKey r = []")
    case True
    show ?thesis
      by (rule refused [of 401 w "''unauthorized''" "''an API key is required (X-API-Key header or Authorization: Bearer)''"])
        (use assms path True in \<open>simp_all add: Middleware_def auth_options_def\<close>)
  next
    case raw: False
    note u = assms(1) [unfolded middleware_eq [OF path raw v]]
    show ?thesis
    proof (cases e)
      case None
      with v obtain key where "k = Some key" using Verify_accepts [of ks "presentedKey r" "ac_Now (av_cfg v) s" s s1 k] by blast
      with v None u show ?thesis by (intro admitted [of s1 key]) simp_all
    next
      case (Some x)
      have r2: "ready rid (limited k w)" using assms(2) by (simp add: limited_def Let_def split: option.splits)
      consider "errors_is x ErrRateLimited" | "\<not> errors_is x ErrRateLimited" "errors_is x ErrInvalidKey"
        | "\<not> errors_is x ErrRateLimited" "\<not> errors_is x ErrInvalidKey" by blast
      then show ?thesis
      proof cases
        case 1
        show ?thesis
          by (rule refused [of 429 "limited k w" "''rate_limited''" "''rate limit exceeded for this API key''"])
            (use Some u 1 assms(3) r2 in simp_all)
      next
        case 2
        show ?thesis
          by (rule refused [of 401 w "''unauthorized''" "''invalid API key''"]) (use Some u 2 assms(2,3) in simp_all)
      next
        case 3
        show ?thesis
          by (rule refused [of 503 "set_header ''Retry-After'' ''1'' w" "''unavailable''"
                "''could not verify credentials right now; please retry''"]) (use Some u 3 assms(2,3) in simp_all)
      qed
    qed
  qed
qed

text \<open>The stack up to the recovery of panics.\<close>

definition handler_of :: "'s ApiServer \<Rightarrow> 's api_handler" where
  "handler_of v = (case ac_Keys (av_cfg v) of None \<Rightarrow> mux v | Some keys \<Rightarrow> Middleware (auth_options v keys) (mux v))"

lemma handler_good:
  assumes "handler_of v r w (a, s) = ((a', s'), w', out)" "ready rid w" "RequestIDFrom r = rid"
  shows "out = Returned \<and> good_response rid w'"
proof (cases "ac_Keys (av_cfg v)")
  case None
  with assms show ?thesis using mux_good by (simp add: handler_of_def)
next
  case (Some ks)
  with assms(1) have "Middleware (auth_options v ks) (mux v) r w (a, s) = ((a', s'), w', out)" by (simp add: handler_of_def)
  from this assms(2,3) show ?thesis
  proof (cases rule: middleware_cases)
    case skipped
    then show ?thesis using mux_good assms(2,3) by blast
  next
    case (refused status code message w0)
    then show ?thesis using writeError_good [OF refused(4), of status] by auto
  next
    case (admitted key s1)
    have "RequestIDFrom (r\<lparr>ctx_apikey := Some key\<rparr>) = rid" using assms(3) by (simp add: RequestIDFrom_def)
    with admitted(2) assms(2) show ?thesis using mux_good by blast
  qed
qed

lemma presentedKey_ctx [simp]: "presentedKey (r\<lparr>ctx_request_id := x\<rparr>) = presentedKey r"
  by (simp add: presentedKey_def Let_def cong: if_cong)

lemma newRequestID_nonempty: "newRequestID v s = (s', rid) \<Longrightarrow> rid \<noteq> []"
  by (auto simp: newRequestID_def split: prod.splits sum.splits)

lemma withRequestID_eq:
  obtains rid s0 where "rid \<noteq> []" "\<And>nxt w a. withRequestID v nxt r w (a, s) =
    nxt (r\<lparr>ctx_request_id := Some rid\<rparr>) (set_header ''X-Request-ID'' rid w) (a, s0)"
proof -
  define i where "i = sanitiseRequestID (header_get (hr_Header r) ''X-Request-ID'')"
  obtain s0 rid where ir: "(if i = [] then newRequestID v s else (s, i)) = (s0, rid)" by force
  then have "rid \<noteq> []" using newRequestID_nonempty [of v s s0 rid] by (auto split: if_splits)
  moreover have "withRequestID v nxt r w (a, s) = nxt (r\<lparr>ctx_request_id := Some rid\<rparr>) (set_header ''X-Request-ID'' rid w) (a, s0)"
    for nxt w a
    unfolding withRequestID_def i_def [symmetric] by (simp add: Let_def ir del: if_split)
  ultimately show ?thesis by (rule that)
qed

lemma Routes_inner:
  assumes "Routes v r w (a, s) = ((a', s'), w', out)" "rw_Sent w = None" "rw_Body w = []"
  obtains rid s0 a1 where "rid \<noteq> []" "ready rid (set_header ''X-Request-ID'' rid w)"
    "handler_of v (r\<lparr>ctx_request_id := Some rid\<rparr>) (set_header ''X-Request-ID'' rid w) (a, s0) = ((a1, s'), w', Returned)"
    "a' = a1\<lparr>as_http := as_http a'\<rparr>" "out = Returned"
proof -
  obtain rid s0 where ne: "rid \<noteq> []" and wr: "\<And>nxt w a. withRequestID v nxt r w (a, s) =
      nxt (r\<lparr>ctx_request_id := Some rid\<rparr>) (set_header ''X-Request-ID'' rid w) (a, s0)"
    by (rule withRequestID_eq [of v r s]) blast
  let ?r = "r\<lparr>ctx_request_id := Some rid\<rparr>" and ?w = "set_header ''X-Request-ID'' rid w"
  have rd: "ready rid ?w" using assms(2,3) by (simp add: ready_def header_get_set_same)
  obtain a1 s1 w1 o1 where h: "handler_of v ?r ?w (a, s0) = ((a1, s1), w1, o1)" by (metis prod.exhaust)
  have "RequestIDFrom ?r = rid" by (simp add: RequestIDFrom_def)
  with handler_good [OF h rd] have o1: "o1 = Returned" by blast
  have "Routes v r w (a, s) = recoverPanics (withRequestID v (logRequests (handler_of v))) r w (a, s)"
    by (simp add: Routes_def handler_of_def)
  also have "\<dots> = ((a1\<lparr>as_http := as_http a1 @ [(routeLabel ?r, StatusClass (recorded_status ?w w1))]\<rparr>, s1), w1, Returned)"
    using h o1 by (simp add: recoverPanics_def wr logRequests_def)
  finally show ?thesis using that [OF ne rd] h o1 assms(1) by auto
qed

text \<open>The run behind a 202: the key was verified, the body decoded and validated, and the request published.\<close>

lemma Routes_202:
  assumes "Routes v r fresh_response (a, s) = ((a', s'), w', out)" "ac_Keys (av_cfg v) = Some ks"
    and "sent_status w' = Some 202"
  shows "\<exists>key s0 s1 rid inp la lo i.
    Verify ks (presentedKey r) (ac_Now (av_cfg v) s0) s0 = (s1, Some key, None) \<and>
    av_decode v (ac_MaxBodyBytes (av_cfg v)) (hr_Body r) = (Inr inp, Some DecodeEOF) \<and> pickup_coords inp = Some (Fin la, Fin lo) \<and>
    - 90 \<le> la \<and> la \<le> 90 \<and> - 180 \<le> lo \<and> lo \<le> 180 \<and> ri_RiderID inp \<noteq> [] \<and> length (ri_RiderID inp) \<le> 128 \<and>
    Publish (av_queue v) \<lparr>RequestID = rid, TenantID = ak_TenantID key, RiderID = ri_RiderID inp, Lat = Fin la, Lng = Fin lo,
      RequestedAt = ac_Now (av_cfg v) s1, MatchAttempts = 0\<rparr> s1 = (s', Inr i) \<and>
    rid \<noteq> [] \<and> sent_header w' ''X-Request-ID'' = rid \<and> as_accepted a' = as_accepted a + 1"
proof -
  have "rw_Sent fresh_response = None" "rw_Body fresh_response = []" by (simp_all add: fresh_response_def)
  from Routes_inner [OF assms(1) this] obtain rid s0 a1 where ne: "rid \<noteq> []"
    and rd: "ready rid (set_header ''X-Request-ID'' rid fresh_response)"
    and h: "handler_of v (r\<lparr>ctx_request_id := Some rid\<rparr>) (set_header ''X-Request-ID'' rid fresh_response) (a, s0) = ((a1, s'), w', Returned)"
    and a': "a' = a1\<lparr>as_http := as_http a'\<rparr>" by metis
  define r1 where "r1 = r\<lparr>ctx_request_id := Some rid\<rparr>"
  define w where "w = set_header ''X-Request-ID'' rid fresh_response"
  have id: "RequestIDFrom r1 = rid" by (simp add: RequestIDFrom_def r1_def)
  have sent: "rw_Sent w = None" by (simp add: w_def fresh_response_def)
  have "Middleware (auth_options v ks) (mux v) r1 w (a, s0) = ((a1, s'), w', Returned)"
    using h assms(2) by (simp add: handler_of_def r1_def w_def)
  from this rd [folded w_def] id show ?thesis
  proof (cases rule: middleware_cases)
    case skipped
    then show ?thesis using mux_202 [OF skipped(2) rd [folded w_def] assms(3)] by auto
  next
    case (refused status code message w0)
    then have "sent_status w' = Some status" using writeError_sel(1) [of w0 status] by (simp add: ready_def)
    with refused(3) assms(3) show ?thesis by auto
  next
    case (admitted key s1)
    define r2 where "r2 = r1\<lparr>ctx_apikey := Some key\<rparr>"
    have id2: "RequestIDFrom r2 = rid" using id by (simp add: RequestIDFrom_def r2_def)
    have "handleCreateRideRequest v r2 w (a, s1) = ((a1, s'), w', Returned)"
      using mux_202 [OF admitted(2) rd [folded w_def] assms(3)] by (simp add: r2_def)
    then show ?thesis
    proof (cases rule: create_cases)
      case (rejected status code message fld)
      then show ?thesis using writeError_sel(1) [OF sent, of status] assms(3) by auto
    next
      case (failed e)
      then show ?thesis using writeError_sel(1) [of "set_header ''Retry-After'' ''1'' w" 503] sent assms(3) by simp
    next
      case (accepted i)
      have "sent_header w' ''X-Request-ID'' = rid" using accepted(4) writeJSON_sel(2) [OF sent] id2 by simp
      moreover have "as_accepted a' = as_accepted a + 1" using accepted(3) a' by (metis api_state.select_convs(1) api_state.surjective api_state.update_convs(5))
      moreover have "ride_request v r2 inp x y s1 = \<lparr>RequestID = rid, TenantID = ak_TenantID key, RiderID = ri_RiderID inp,
          Lat = x, Lng = y, RequestedAt = ac_Now (av_cfg v) s1, MatchAttempts = 0\<rparr>" for inp x y
        using id2 by (simp add: ride_request_def TenantFromContext_def FromContext_def r2_def)
      moreover have "Verify ks (presentedKey r) (ac_Now (av_cfg v) s0) s0 = (s1, Some key, None)"
        using admitted(1) by (simp add: r1_def)
      moreover obtain inp la lo where "av_decode v (ac_MaxBodyBytes (av_cfg v)) (hr_Body r) = (Inr inp, Some DecodeEOF)"
        "pickup_coords inp = Some (Fin la, Fin lo)" "- 90 \<le> la" "la \<le> 90" "- 180 \<le> lo" "lo \<le> 180" "ri_RiderID inp \<noteq> []" "length (ri_RiderID inp) \<le> 128"
        "Publish (av_queue v) (ride_request v r2 inp (Fin la) (Fin lo) s1) s1 = (s', Inr i)"
        using accepted(2) unfolding published_def by (auto simp: r2_def r1_def)
      ultimately show ?thesis using ne
        by (intro exI [of _ key] exI [of _ s0] exI [of _ s1] exI [of _ rid] exI [of _ inp] exI [of _ la] exI [of _ lo]
            exI [of _ i]) simp
    qed
  qed
qed

section \<open>The properties\<close>


text \<open>C24. A 202 means an authenticated, validated, durably published request. When keys are
  configured and the whole service answers 202, the key the client presented was verified, and
  exactly the validated request was published, for the tenant of that key and under the request id
  that the client gets back; the counter of accepted requests went up by one.\<close>

theorem accepted_means_published:
  assumes "Routes v r fresh_response (a, s) = ((a', s'), w', out)" "ac_Keys (av_cfg v) = Some ks"
    and "sent_status w' = Some 202"
  shows "\<exists>key s0 s1 rid inp la lo i.
    Verify ks (presentedKey r) (ac_Now (av_cfg v) s0) s0 = (s1, Some key, None) \<and>
    av_decode v (ac_MaxBodyBytes (av_cfg v)) (hr_Body r) = (Inr inp, Some DecodeEOF) \<and> pickup_coords inp = Some (Fin la, Fin lo) \<and>
    - 90 \<le> la \<and> la \<le> 90 \<and> - 180 \<le> lo \<and> lo \<le> 180 \<and> ri_RiderID inp \<noteq> [] \<and> length (ri_RiderID inp) \<le> 128 \<and>
    Publish (av_queue v) \<lparr>RequestID = rid, TenantID = ak_TenantID key, RiderID = ri_RiderID inp, Lat = Fin la, Lng = Fin lo,
      RequestedAt = ac_Now (av_cfg v) s1, MatchAttempts = 0\<rparr> s1 = (s', Inr i) \<and>
    rid \<noteq> [] \<and> sent_header w' ''X-Request-ID'' = rid \<and> as_accepted a' = as_accepted a + 1"
  by (rule Routes_202 [OF assms])

section \<open>A service\<close>

definition demo_key :: APIKey where
  "demo_key = \<lparr>ak_KeyID = ''a1'', ak_TenantID = ''acme'', ak_Name = [], ak_SecretHash = HashSecret ''b2'', ak_CreatedAt = 0,
     ak_ExpiresAt = zero_time, ak_RevokedAt = zero_time, ak_RateLimitPerMinute = 600, ak_RotatedFrom = []\<rparr>"

definition demo_keys :: "'s KeyStore" where
  "demo_keys = \<lparr>ks_Create = (\<lambda>_ _ _ _ s. (s, Inl (Errorf []))), ks_Lookup = (\<lambda>_ s. (s, Inr demo_key)), ks_Revoke = (\<lambda>_ s. (s, None)),
     ks_Rotate = (\<lambda>_ _ s. (s, Inl (Errorf []))), ks_Allow = (\<lambda>_ _ s. (s, Inr (True, 1)))\<rparr>"

definition demo_queue :: "unit Queue" where
  "demo_queue = \<lparr>Publish = (\<lambda>_ s. (s, Inr ''1-0'')), Consume = (\<lambda>_ _ s. (s, Inr [])), Ack = (\<lambda>_ s. (s, None)),
     Reclaim = (\<lambda>_ _ s. (s, [], None)), Republish = (\<lambda>_ s. (s, None)), DeadLetter = (\<lambda>_ _ s. (s, None)),
     Depth = (\<lambda>s. (s, Inr 0)), PendingCount = (\<lambda>s. (s, Inr 0)), DeadLetterDepth = (\<lambda>s. (s, Inr 0))\<rparr>"

definition demo_server :: "'s Queue \<Rightarrow> 's ApiServer" where
  "demo_server q = \<lparr>av_cfg = (ApiDefaultConfig (\<lambda>_. 0))\<lparr>ac_Keys := Some demo_keys\<rparr>, av_queue = q,
     av_decode = (\<lambda>_ _. (Inr \<lparr>ri_RiderID = ''rider'', ri_Pickup = Some \<lparr>ll_Lat = Some (Fin 1), ll_Lng = Some (Fin 2)\<rparr>\<rparr>, Some DecodeEOF)),
     av_quote = (\<lambda>x. x), av_rand = (\<lambda>n s. (s, Inr (replicate n 0))), av_wall = (\<lambda>_. 0)\<rparr>"

definition demo_request :: request where
  "demo_request = \<lparr>hr_Method = ''POST'', hr_Path = ''/v1/ride-requests'',
     hr_Header = [(''X-Api-Key'', ''rmk_a1_b2''), (''X-Request-Id'', ''t1'')], hr_Body = ''{}'', hr_RemoteAddr = [],
     ctx_apikey = None, ctx_request_id = None\<rparr>"

definition no_counts :: api_state where
  "no_counts = \<lparr>as_accepted = 0, as_rejected = 0, as_failed = 0, as_panics = 0, as_http = [], as_rides = [], as_seconds = []\<rparr>"

lemma demo_facts:
  "presentedKey demo_request = ''rmk_a1_b2''" "sanitiseRequestID (header_get (hr_Header demo_request) ''X-Request-ID'') = ''t1''"
  "cleanPath ''/v1/ride-requests'' = ''/v1/ride-requests''" "ParseKey ''rmk_a1_b2'' = Inr (''a1'', ''b2'')"
  by code_simp+

lemma demo_verify: "Verify demo_keys ''rmk_a1_b2'' 0 s = (s, Some demo_key, None)"
  by (simp add: Verify_def demo_facts(4) demo_keys_def ConstantTimeCompare_eq demo_key_def Active_def is_zero_def)

definition demo_ride :: RideRequest where
  "demo_ride = \<lparr>RequestID = ''t1'', TenantID = ''acme'', RiderID = ''rider'', Lat = Fin 1, Lng = Fin 2, RequestedAt = 0, MatchAttempts = 0\<rparr>"

definition demo_input :: rideRequestInput where
  "demo_input = \<lparr>ri_RiderID = ''rider'', ri_Pickup = Some \<lparr>ll_Lat = Some (Fin 1), ll_Lng = Some (Fin 2)\<rparr>\<rparr>"

text \<open>Every server that verifies the demo key, decodes the demo body and can publish accepts the demo request.\<close>

lemma accepts_demo_request:
  assumes ks: "ac_Keys (av_cfg v) = Some ks"
    and ver: "Verify ks ''rmk_a1_b2'' (ac_Now (av_cfg v) s) s = (s1, Some key, None)"
    and dec: "av_decode v (ac_MaxBodyBytes (av_cfg v)) ''{}'' = (Inr demo_input, Some DecodeEOF)"
    and p: "Publish (av_queue v) (demo_ride\<lparr>TenantID := ak_TenantID key, RequestedAt := ac_Now (av_cfg v) s1\<rparr>) s1 = (s', Inr i)"
  shows "sent_status (fst (snd (Routes v demo_request fresh_response (no_counts, s)))) = Some 202"
proof -
  let ?r = "demo_request\<lparr>ctx_request_id := Some ''t1''\<rparr>" and ?w = "set_header ''X-Request-ID'' ''t1'' fresh_response"
  let ?r2 = "demo_request\<lparr>ctx_request_id := Some ''t1'', ctx_apikey := Some key\<rparr>"
  have path: "hr_Path ?r \<notin> {''/healthz'', ''/readyz''}" "presentedKey ?r \<noteq> []"
    by (simp add: demo_request_def, simp add: demo_facts(1))
  have v: "Verify ks (presentedKey ?r) (ac_Now (av_cfg v) s) s = (s1, Some key, None)" using ver by (simp add: demo_facts)
  have ride: "ride_request v ?r2 demo_input (Fin 1) (Fin 2) s1 =
      demo_ride\<lparr>TenantID := ak_TenantID key, RequestedAt := ac_Now (av_cfg v) s1\<rparr>"
    by (simp add: ride_request_def demo_ride_def demo_input_def RequestIDFrom_def TenantFromContext_def FromContext_def)
  have ok: "api_validate demo_input = ([], [])" "pickup_coords demo_input = Some (Fin 1, Fin 2)"
    by (simp_all add: demo_input_def api_validate_def pickup_coords_def is_nan_def is_inf_def)
  have body: "hr_Body ?r2 = ''{}''" by (simp add: demo_request_def)
  have "Middleware (auth_options v ks) (mux v) ?r ?w (no_counts, s) = handleCreateRideRequest v ?r2 ?w (no_counts, s1)"
    unfolding middleware_eq [OF path v] by (simp add: mux_def demo_request_def demo_facts)
  also have "\<dots> = (fst (handleCreateRideRequest v ?r2 ?w (no_counts, s1)),
      writeJSON ?w 202 ''t1'' (JObj [(''request_id'', JStr ''t1''), (''status'', JStr ''PENDING'')]), Returned)"
    using p by (simp add: handleCreateRideRequest_def body dec ok ride Let_def RequestIDFrom_def)
  finally have m: "Middleware (auth_options v ks) (mux v) ?r ?w (no_counts, s) = \<dots>" .
  have "fst (snd (Routes v demo_request fresh_response (no_counts, s))) =
      writeJSON ?w 202 ''t1'' (JObj [(''request_id'', JStr ''t1''), (''status'', JStr ''PENDING'')])"
    by (simp add: Routes_def ks recoverPanics_def withRequestID_def logRequests_def demo_facts m split_beta Let_def)
  then show ?thesis using writeJSON_sel(1) [of ?w] by (simp add: fresh_response_def)
qed

lemma demo_accepts:
  assumes "Publish q demo_ride s = (s', Inr i)"
  shows "sent_status (fst (snd (Routes (demo_server q) demo_request fresh_response (no_counts, s)))) = Some 202"
proof -
  have "demo_ride\<lparr>TenantID := ak_TenantID demo_key, RequestedAt := 0\<rparr> = demo_ride" by (simp add: demo_ride_def demo_key_def)
  then show ?thesis
    using assms by (intro accepts_demo_request [where ks = demo_keys and ?s1.0 = s and key = demo_key])
      (simp_all add: demo_server_def ApiDefaultConfig_def demo_verify demo_input_def)
qed


theorem accepted_means_published_witness:
  "\<exists>key s1. Verify demo_keys (presentedKey demo_request) 0 () = (s1, Some key, None)"
proof -
  let ?x = "Routes (demo_server demo_queue) demo_request fresh_response (no_counts, ())"
  have x: "?x = ((fst (fst ?x), snd (fst ?x)), fst (snd ?x), snd (snd ?x))" unfolding prod.collapse ..
  have k: "ac_Keys (av_cfg (demo_server demo_queue)) = Some demo_keys" by (simp add: demo_server_def)
  have p: "Publish demo_queue demo_ride () = ((), Inr ''1-0'')" by (simp add: demo_queue_def)
  from accepted_means_published [OF x k demo_accepts [OF p]] show ?thesis
    by (auto simp: demo_server_def ApiDefaultConfig_def)
qed

text \<open>A panic loses the request id. \<open>recoverPanics\<close> is outermost and reads the id from the request
  it was given, to which \<open>withRequestID\<close>, further in, has not attached one: the 500 goes out with an
  empty id in the envelope, and the empty id overwrites the header that had been set.\<close>

theorem panic_loses_request_id:
  assumes "\<And>r w st. nxt r w st = (st, w, Panicked m)" "ctx_request_id r = None"
    and "recoverPanics (withRequestID v nxt) r fresh_response (a, s) = ((a', s'), w', out)"
  shows "sent_status w' = Some 500 \<and> sent_header w' ''X-Request-ID'' = [] \<and>
    rw_Body w' = [JsonDoc (envelope ''internal'' ''internal error'' [] [])] \<and> as_panics a' = as_panics a + 1"
proof -
  obtain s0 rid where w: "withRequestID v nxt r fresh_response (a, s) = ((a, s0), set_header ''X-Request-ID'' rid fresh_response, Panicked m)"
    using withRequestID_eq [of v r s] assms(1) by metis
  have n: "rw_Sent (set_header ''X-Request-ID'' rid fresh_response) = None" by (simp add: fresh_response_def)
  have "RequestIDFrom r = []" using assms(2) by (simp add: RequestIDFrom_def)
  with assms(3) w have "w' = writeError (set_header ''X-Request-ID'' rid fresh_response) 500 ''internal'' ''internal error'' [] []"
    "a' = a\<lparr>as_panics := as_panics a + 1\<rparr>" by (auto simp: recoverPanics_def)
  with writeError_sel [OF n, of 500 "''internal''" "''internal error''" "[]" "[]"] show ?thesis by (simp add: fresh_response_def)
qed

theorem panic_loses_request_id_witness:
  "sent_header (fst (snd (recoverPanics (withRequestID (demo_server demo_queue) (\<lambda>r w st. (st, w, Panicked ''boom''))) demo_request
     fresh_response (no_counts, ())))) ''X-Request-ID'' = []"
proof -
  let ?x = "recoverPanics (withRequestID (demo_server demo_queue) (\<lambda>r w st. (st, w, Panicked ''boom''))) demo_request fresh_response (no_counts, ())"
  have x: "?x = ((fst (fst ?x), snd (fst ?x)), fst (snd ?x), snd (snd ?x))" unfolding prod.collapse ..
  have "ctx_request_id demo_request = None" by (simp add: demo_request_def)
  from panic_loses_request_id [OF refl this x] show ?thesis by blast
qed

text \<open>A wrong method is a 404, not a 405. The catch-all pattern matches every method, so a \<open>GET\<close> of
  the \<open>POST\<close>-only route reaches \<open>handleNotFound\<close>; the comment in \<open>Routes\<close> says the router answers 405.\<close>

theorem wrong_method_is_404:
  assumes "hr_Path r = ''/v1/ride-requests''" "hr_Method r \<noteq> ''POST''" "rw_Sent w = None"
  shows "sent_status (fst (snd (mux v r w st))) = Some 404"
  using assms writeError_sel(1) [OF assms(3)] by (simp add: mux_def demo_facts handleNotFound_def)

theorem wrong_method_is_404_witness:
  "sent_status (fst (snd (mux (demo_server demo_queue) (demo_request\<lparr>hr_Method := ''GET''\<rparr>) fresh_response (no_counts, ())))) = Some 404"
proof -
  have "hr_Path (demo_request\<lparr>hr_Method := ''GET''\<rparr>) = ''/v1/ride-requests''" "hr_Method (demo_request\<lparr>hr_Method := ''GET''\<rparr>) \<noteq> ''POST''"
    "rw_Sent fresh_response = None" by (simp_all add: demo_request_def fresh_response_def)
  from wrong_method_is_404 [OF this] show ?thesis .
qed

end
