(* ===== verification/Daemons_Properties.thy ===== *)
theory Daemons_Properties
  imports Tools Pipeline_Properties Ingest_Properties Batcher_Properties Api_Properties
begin

text \<open>
  What the wiring of the binaries guarantees: authentication fails closed, the services act on the
  streams and keys of the tenant they were started for, start-up ends, and the hand-written decimal
  printer is right. Then what it does not: the order of \<open>ingestd\<close>'s shutdown.
\<close>

section \<open>Fail closed\<close>

lemma Open_required:
  "Open os addr False s = (s', Inr keys) \<Longrightarrow>
     keys = Some (redis_key_store (NewRedisStore (dial_keys os) addr (time_Now os)))"
  by (auto simp: Open_def Let_def split: prod.splits option.splits)

lemma requestd_running:
  assumes "requestd os f s = (s', Inr srv)"
  obtains q keys s2 s3 where "av_queue srv = redis_queue q" "streamKey q = ''requests:stream:'' @ rf_tenant f"
    "ac_Keys (av_cfg srv) = keys" "Open os (rf_redis f) (rf_allowAnonymous f) s2 = (s3, Inr keys)"
    "ac_Now (av_cfg srv) = time_Now os"
proof -
  from assms obtain q s1 s2 s3 keys where
      q: "NewRedisStream (dial_streams os (rf_redis f)) (float_text os) ((DefaultStreamOptions (time_Now os))
        \<lparr>so_TenantID := rf_tenant f, so_MaxLen := rf_maxLen f, so_Consumer := ''requestd-producer''\<rparr>) s = (s1, Inr q)"
    and o': "Open os (rf_redis f) (rf_allowAnonymous f) s2 = (s3, Inr keys)"
    and srv: "srv = \<lparr>av_cfg = api_applyDefaults ((ApiDefaultConfig (time_Now os))\<lparr>ac_TenantID := rf_tenant f, ac_Keys := keys\<rparr>),
      av_queue = redis_queue q, av_decode = json_decoder os, av_quote = quoted os, av_rand = crypto_rand os,
      av_wall = time_Now os\<rparr>"
    by (auto simp: requestd_def NewServer_def Let_def split: prod.splits sum.splits option.splits)
  from q have "streamKey q = ''requests:stream:'' @ rf_tenant f"
    by (auto simp: NewRedisStream_def streamKey_def Let_def split: if_splits prod.splits option.splits)
  then show ?thesis using that o' srv by (simp add: api_applyDefaults_def ApiDefaultConfig_def Let_def)
qed


section \<open>Decimal printing\<close>

lemma itoa_loop_dec: "0 < n \<Longrightarrow> itoa_loop n buf = dec_nat (nat n) @ buf"
proof (induction n buf rule: itoa_loop.induct)
  case (1 n buf)
  have d: "nat (n mod 10) = nat n mod 10" "nat (n div 10) = nat n div 10" using "1.prems"
    by (simp_all add: nat_mod_distrib nat_div_distrib)
  show ?case
  proof (cases "n < 10")
    case True
    then have "itoa_loop n buf = itoa_loop (n div 10) (digit_char (nat (n mod 10)) # buf)" "n div 10 = 0"
      using "1.prems" by (simp_all add: itoa_loop.simps [of n])
    with True "1.prems" show ?thesis by (simp add: itoa_loop.simps [of 0] dec_nat.simps [of "nat n"])
  next
    case False
    then have "0 < n div 10" by simp
    from "1.IH" [OF "1.prems" this] False "1.prems" d show ?thesis
      by (simp add: itoa_loop.simps [of n] dec_nat.simps [of "nat n"])
  qed
qed

lemma length_dec_nat: "n < 10 ^ Suc k \<Longrightarrow> length (dec_nat n) \<le> Suc k"
proof (induction k arbitrary: n)
  case 0
  then show ?case by (simp add: dec_nat.simps)
next
  case (Suc k)
  then have "n div 10 < 10 ^ Suc k" by (simp add: less_mult_imp_div_less mult.commute)
  from Suc.IH [OF this] show ?case by (simp add: dec_nat.simps [of n])
qed

lemma itoa_positive: "0 < n \<Longrightarrow> itoa n = dec_nat (nat n)"
  by (simp add: itoa_def itoa_loop_dec)

lemma itoa_negative: "n < 0 \<Longrightarrow> - (2 ^ 63) < n \<Longrightarrow> itoa n = CHR ''-'' # dec_nat (nat (- n))"
  by (simp add: itoa_def itoa_loop_dec wrap64_id in_int64_def)

text \<open>The hand-written \<open>itoa\<close> of \<open>ingestd\<close> prints what \<open>strconv\<close> prints for every \<open>int64\<close> but
  the smallest, whose negation overflows and which it prints as a lone minus sign; and it never
  needs more than the twenty bytes of its buffer.\<close>

theorem itoa_decimal:
  assumes "in_int64 n"
  shows "itoa n = (if n = - (2 ^ 63) then ''-'' else format_int n) \<and> length (itoa n) \<le> 20"
proof -
  have b: "length (dec_nat m) \<le> 19" if "m < 2 ^ 63" for m
    using length_dec_nat [of m 18] that by simp
  consider "n = - (2 ^ 63)" | "- (2 ^ 63) < n" "n < 0" | "n = 0" | "0 < n"
    using assms by (force simp: in_int64_def)
  then show ?thesis
  proof cases
    case 1
    moreover have "wrap64 (2 ^ 63) = - (2 ^ 63)" by (simp add: wrap64_def)
    ultimately show ?thesis by (simp add: itoa_def itoa_loop.simps)
  next
    case 2
    then show ?thesis using itoa_negative [OF 2(2,1)] b [of "nat (- n)"] by (simp add: format_int_def)
  next
    case 3
    moreover have "itoa 0 = format_int 0" "length (itoa 0) \<le> 20" by code_simp+
    ultimately show ?thesis by simp
  next
    case 4
    then have "length (dec_nat (nat n)) \<le> 19" using b [of "nat n"] assms by (simp add: in_int64_def nat_less_iff)
    with 4 show ?thesis using itoa_positive [OF 4] by (simp add: format_int_def)
  qed
qed

theorem itoa_decimal_witness: "itoa (- 120) = format_int (- 120) \<and> itoa (- (2 ^ 63)) = ''-''"
  using itoa_decimal [of "- 120"] itoa_decimal [of "- (2 ^ 63)"] by (simp add: in_int64_def)

section \<open>Start-up of the batcher\<close>

text \<open>What the warm-up needs of the clock: sleeping lets at least that time pass, and a call of the
  engine does not move the clock back.\<close>

definition clock_moves :: "'s platform \<Rightarrow> 's Client \<Rightarrow> bool" where
  "clock_moves os eng \<longleftrightarrow>
     (\<forall>d s. time_Now os s + d \<le> time_Now os (time_Sleep os d s)) \<and>
     (\<forall>c s s' x. Health eng c s = (s', x) \<longrightarrow> time_Now os s \<le> time_Now os s')"

lemma warm_loop_returns:
  assumes c: "clock_moves os eng"
  shows "deadline - time_Now os s \<le> int k * (2 * second) \<Longrightarrow>
    \<exists>s' r n. warm_loop os eng deadline prev attempt s = Some (s', r, n) \<and> n \<le> attempt + int k"
proof (induction k arbitrary: s prev attempt)
  case 0
  then show ?case by (subst warm_loop.simps) simp
next
  case (Suc k)
  obtain s1 x where h: "Health eng (with_timeout (time_Now os s) (10 * second) None) s = (s1, x)" by force
  show ?case
  proof (cases "time_Now os s < deadline \<and> (\<exists>e. x = Inl e)")
    case False
    then show ?thesis using h by (subst warm_loop.simps) (cases x; auto)
  next
    case True
    then obtain e where x: "x = Inl e" and lt: "time_Now os s < deadline" by blast
    have "time_Now os s \<le> time_Now os s1" using c h unfolding clock_moves_def by blast
    moreover have "time_Now os s1 + 2 * second \<le> time_Now os (time_Sleep os (2 * second) s1)"
      using c by (simp add: clock_moves_def)
    ultimately have "deadline - time_Now os (time_Sleep os (2 * second) s1) \<le> int k * (2 * second)"
      using Suc.prems by (simp add: algebra_simps)
    from Suc.IH [OF this, of "Inl e" "attempt + 1"] show ?thesis
      using lt h x by (subst warm_loop.simps) auto
  qed
qed

lemma Dial_client: "Dial target conn [WithTimeout d] = Inr eng \<Longrightarrow> \<exists>api. conn = Inr api \<and> eng = \<lparr>ec_api = api, ec_timeout = d\<rparr>"
  by (auto simp: Dial_def WithTimeout_def split: sum.splits)

text \<open>C37. The start-up of \<open>batcherd\<close> ends. Whatever the engine does, when the clock moves, the warm-up
  gives up after at most 23 attempts and the process either runs or exits with code 1.\<close>

theorem batcherd_startup_ends:
  assumes "\<And>api d. dial_engine os (bf_engine f) = Inr api \<Longrightarrow> clock_moves os \<lparr>ec_api = api, ec_timeout = d\<rparr>"
  shows "\<exists>s' r. batcherd os f s = Some (s', r) \<and> (r = Inl 1 \<or> (\<exists>b. r = Inr b))"
proof -
  have w: False
    if n: "warm_loop os eng (time_Now os t + 45000000000) (Inr None) 1 t = None"
      and d: "Dial (bf_engine f) (dial_engine os (bf_engine f)) [WithTimeout 10000000000] = Inr eng" for eng t
  proof -
    obtain api where "dial_engine os (bf_engine f) = Inr api" "eng = \<lparr>ec_api = api, ec_timeout = 10000000000\<rparr>"
      using Dial_client [OF d] by blast
    with assms have "clock_moves os eng" by blast
    from warm_loop_returns [OF this, of "time_Now os t + 45000000000" t 23 "Inr None" 1] n show ?thesis by auto
  qed
  show ?thesis
    unfolding batcherd_def Let_def by (auto split: prod.splits sum.splits option.splits dest: w)
qed

lemma batcherd_running:
  assumes "batcherd os f s = Some (s', Inr b)"
  obtains q drivers eng s1 s2 warm n where
    "NewRedisStream (dial_streams os (bf_redis f)) (float_text os) ((DefaultStreamOptions (time_Now os))
       \<lparr>so_TenantID := bf_tenant f, so_Consumer := consumer_name os (bf_consumer f)\<rparr>) s = (s1, Inr q)"
    "NewRedis (dial_geo os) (bf_redis f) ((DefaultOptions (time_Now os))\<lparr>lo_TenantID := bf_tenant f\<rparr>) = Inr drivers"
    "warm_loop os eng (time_Now os s2 + 45 * second) (Inr None) 1 s2 = Some (s', warm, n)"
    "\<not> (bf_useRoads f \<and> graph_missing (bf_graph f) warm)"
    "New (duration_string os) (batcher_env os) (Some (redis_queue q)) (Some (redis_repository (percent_f os) drivers))
       (Some eng) (batcherd_config os f) = Inr b"
  using assms unfolding batcherd_def Let_def
  by (auto split: prod.splits sum.splits option.splits if_splits)

lemma New_Inr:
  assumes "New dur env (Some q) (Some dr) (Some en) cfg = Inr b"
  shows "b_queue b = q" "b_drivers b = dr" "b_engine b = en" "b_cfg b = applyDefaults cfg"
    "SolveTimeout (b_cfg b) < Window (b_cfg b)"
    "cfg_CostMetric (b_cfg b) = COST_METRIC_TRAVEL_TIME \<Longrightarrow> RoadGraphID (b_cfg b) \<noteq> []"
  using assms by (auto simp: New_def Let_def split: if_splits)

lemma applyDefaults_positive: "0 < SolveTimeout (applyDefaults c)" "RoadGraphID (applyDefaults c) = RoadGraphID c"
  "cfg_CostMetric (applyDefaults c) = cfg_CostMetric c"
  by (simp_all add: applyDefaults_def DefaultConfig_def Let_def)

text \<open>C38. What a started \<open>batcherd\<close> is: it reads the stream and the driver index of the tenant it was
  started for, under a non-empty consumer name, with a positive solve timeout inside its window;
  and when it prices by road, either the engine has said that it has the graph loaded or it never
  answered during the warm-up.\<close>

theorem batcherd_wiring:
  assumes "batcherd os f s = Some (s', Inr b)"
  shows "\<exists>q drivers eng t warm n.
    b_queue b = redis_queue q \<and> streamKey q = ''requests:stream:'' @ bf_tenant f \<and> so_Consumer (rq_opts q) \<noteq> [] \<and>
    b_drivers b = redis_repository (percent_f os) drivers \<and> geoKey drivers = ''drivers:geo:'' @ bf_tenant f \<and>
    0 < SolveTimeout (b_cfg b) \<and> SolveTimeout (b_cfg b) < Window (b_cfg b) \<and>
    b_engine b = eng \<and> warm_loop os eng (time_Now os t + 45 * second) (Inr None) 1 t = Some (s', warm, n) \<and>
    (bf_useRoads f \<longrightarrow> RoadGraphID (b_cfg b) = bf_graph f \<and> bf_graph f \<noteq> [] \<and>
       ((\<exists>e. warm = Inl e) \<or> (\<exists>h. warm = Inr (Some h) \<and> bf_graph f \<in> lg_RoadGraphId ` set (LoadedGraphs h))))"
proof -
  from assms obtain q drivers eng s1 t warm n where
    q: "NewRedisStream (dial_streams os (bf_redis f)) (float_text os) ((DefaultStreamOptions (time_Now os))
       \<lparr>so_TenantID := bf_tenant f, so_Consumer := consumer_name os (bf_consumer f)\<rparr>) s = (s1, Inr q)"
    and dr: "NewRedis (dial_geo os) (bf_redis f) ((DefaultOptions (time_Now os))\<lparr>lo_TenantID := bf_tenant f\<rparr>) = Inr drivers"
    and w: "warm_loop os eng (time_Now os t + 45 * second) (Inr None) 1 t = Some (s', warm, n)"
    and g: "\<not> (bf_useRoads f \<and> graph_missing (bf_graph f) warm)"
    and b: "New (duration_string os) (batcher_env os) (Some (redis_queue q)) (Some (redis_repository (percent_f os) drivers))
       (Some eng) (batcherd_config os f) = Inr b"
    by (rule batcherd_running)
  have "streamKey q = ''requests:stream:'' @ bf_tenant f" "so_Consumer (rq_opts q) \<noteq> []"
    using q by (auto simp: NewRedisStream_def streamKey_def Let_def split: if_splits prod.splits option.splits)
  moreover have "geoKey drivers = ''drivers:geo:'' @ bf_tenant f"
    using dr by (auto simp: NewRedis_def geoKey_def Let_def split: if_splits)
  moreover have "RoadGraphID (b_cfg b) = bf_graph f"
    using New_Inr(4) [OF b] by (simp add: applyDefaults_positive batcherd_config_def)
  moreover have "bf_useRoads f \<Longrightarrow> cfg_CostMetric (b_cfg b) = COST_METRIC_TRAVEL_TIME"
    using New_Inr(4) [OF b] by (simp add: applyDefaults_positive batcherd_config_def)
  moreover have "bf_useRoads f \<Longrightarrow> (\<exists>e. warm = Inl e) \<or> (\<exists>h. warm = Inr (Some h) \<and> bf_graph f \<in> lg_RoadGraphId ` set (LoadedGraphs h))"
    using g by (auto simp: graph_missing_def serves_graph_iff split: sum.splits option.splits)
  moreover have "0 < SolveTimeout (b_cfg b)" using New_Inr(4) [OF b] by (simp add: applyDefaults_positive)
  ultimately show ?thesis using New_Inr [OF b] w by metis
qed

section \<open>The shutdown of ingestd\<close>

text \<open>C40. The shutdown of \<open>ingestd\<close> can drop accepted positions. The comment in \<open>main\<close> says that the
  connections are drained before the final flush; but the signal cancels the context of \<open>pipe.Run\<close>
  at once, so the final flush may come first. From every state with an open connection there is an
  execution in which a valid ping is accepted after the final flush, everything shuts down cleanly
  within its time, and the position is still in the buffer that nobody will flush.\<close>

theorem shutdown_drops_late_pings:
  assumes "0 < pc_MaxBufferedDrivers (pp_cfg (id_pipe d))" "unmarshal data = Some p" "ingest_validate ftoa p = None"
    and "sv_wg sv = 1"
  shows "\<exists>st. (ingestd_step d unmarshal ftoa)\<^sup>*\<^sup>*
      (False, True, \<lparr>is_server = sv, is_world = (ps, s), is_threads = {#Conn t False False True True#}\<rparr>) (True, False, st) \<and>
    stopped_cleanly (True, False, st) \<and> is_threads st = {#} \<and>
    map fst (pb_buffer (fst (is_world st))) = [bufKey t (pg_DriverID p)]"
proof -
  let ?R = "ingestd_step d unmarshal ftoa" and ?T = "\<lambda>c w r. {#Conn t False c w r#}"
  let ?st = "\<lambda>sv x T. \<lparr>is_server = sv, is_world = x, is_threads = T\<rparr>"
  obtain ps1 s1 ws where f: "flush (id_pipe d) (ps, s) = ((ps1, s1), ws)" by (metis prod.exhaust)
  have e: "pb_buffer ps1 = []" using flush_empties [OF f] by simp
  define x where "x = fst (Accept (id_pipe d) (p\<lparr>pg_TenantID := t\<rparr>) (ps1, s1))"
  define sv1 where "sv1 = sv\<lparr>sv_pings := sv_pings sv + 1\<rparr>"
  have fr: "read_frame unmarshal ftoa (Some (Accept (id_pipe d))) t data sv (ps1, s1) = (sv1, x, True)"
    using assms(2,3) by (simp add: read_frame_def x_def sv1_def Let_def)
  have b: "map fst (pb_buffer (fst x)) = [bufKey t (pg_DriverID p)]"
    using assms(1) e by (simp add: x_def Accept_def Let_def assoc_put_def)
  note go = ingestd_step.serves [where signalled = True and running = False]
  let ?cfg = "id_cfg d" and ?sink = "Some (Accept (id_pipe d))"
  have t1: "?R (False, True, ?st sv (ps, s) (?T False True True)) (True, True, ?st sv (ps, s) (?T False True True))"
    by (rule ingestd_step.signal)
  have t2: "?R (True, True, ?st sv (ps, s) (?T False True True)) (True, False, ?st sv (ps1, s1) (?T False True True))"
    using ingestd_step.final_flush [of d "?st sv (ps, s) (?T False True True)"] f by simp
  have t3: "?R (True, False, ?st sv (ps1, s1) (?T False True True)) (True, False, ?st sv1 x (?T False True True))"
    using go [OF ingest_step.frame [OF fr, of ?cfg False False True "{#}"]] by simp
  have t4: "?R (True, False, ?st sv1 x (?T False True True)) (True, False, ?st (Shutdown_begin sv1) x (?T False True True))"
    by (rule go [OF ingest_step.shuts_down]) simp
  have t5: "?R (True, False, ?st (Shutdown_begin sv1) x (?T False True True)) (True, False, ?st (Shutdown_begin sv1) x (?T True False True))"
    by (rule go [OF ingest_step.writer_ends]) (simp_all add: Shutdown_begin_def)
  have t6: "?R (True, False, ?st (Shutdown_begin sv1) x (?T True False True)) (True, False, ?st (Shutdown_begin sv1) x (?T True False False))"
    by (rule go [OF ingest_step.reader_unblocked]) simp
  have t7: "?R (True, False, ?st (Shutdown_begin sv1) x (?T True False False)) (True, False, ?st (serve_end (Shutdown_begin sv1)) x {#})"
    using go [OF ingest_step.serve_ends [of ?cfg unmarshal ftoa ?sink "Shutdown_begin sv1" x t False True "{#}"]] by simp
  note step = converse_rtranclp_into_rtranclp [of ?R]
  have "?R\<^sup>*\<^sup>* (False, True, ?st sv (ps, s) (?T False True True)) (True, False, ?st (serve_end (Shutdown_begin sv1)) x {#})"
    by (rule step [OF t1 step [OF t2 step [OF t3 step [OF t4 step [OF t5 step [OF t6 step [OF t7 rtranclp.rtrancl_refl]]]]]]])
  moreover have "stopped_cleanly (True, False, ?st (serve_end (Shutdown_begin sv1)) x {#})"
    using assms(4) by (simp add: stopped_cleanly_def Shutdown_result_def serve_end_def Shutdown_begin_def wg_done_def free_slot_def sv1_def)
  ultimately show ?thesis using b by fastforce
qed

section \<open>The operator's tools\<close>

text \<open>\<open>keyadmin list\<close> calls a key revoked as soon as a revocation time is recorded, also during the
  overlap of a rotation, in which the key still authenticates.\<close>

lemma status_revoked_but_active:
  assumes "now < ak_RevokedAt k" "\<not> is_zero (ak_RevokedAt k)" "is_zero (ak_ExpiresAt k)"
  shows "status now k = ''revoked'' \<and> Active k now"
  using assms by (simp add: status_def Active_def)

text \<open>A healthy answer is a 2xx answer.\<close>

lemma healthcheck_http:
  assumes "has_prefix url ''http://''" "http_Get os url (2 * second) s = (s', r)"
  shows "snd (healthcheck os (url # rest) s) = 0 \<longleftrightarrow> (\<exists>code. r = Inr code \<and> 200 \<le> code \<and> code < 300)"
  unfolding healthcheck_def probeHTTP_def list.case assms(2) if_P [OF disjI1 [OF assms(1)]] by (cases r) auto

section \<open>A platform\<close>

text \<open>One machine: the in-memory streams, a key store with one record under every id, a driver index
  that is always empty, and an engine that never answers.\<close>

definition one_key :: "mem_server key_client" where
  "one_key =
     \<lparr>hset = (\<lambda>_ _ s. (s, None)),
      hgetall = (\<lambda>_ s. (s, Inr [(''tenant_id'', ''acme''), (''secret_hash'', HashSecret ''b2'')])),
      sadd = (\<lambda>_ _ s. (s, None)), smembers = (\<lambda>_ s. (s, Inr [''a1''])), ak_pipe = (\<lambda>_ s. (s, None)),
      ak_exists = (\<lambda>_ s. (s, Inr 1)), ak_eval = (\<lambda>f. f), incr = (\<lambda>_ s. (s, Inr 1)), expire = (\<lambda>_ _ s. s),
      ak_ping = (\<lambda>s. (s, None)), ak_rand = (\<lambda>n s. (s, Inr (replicate n 0)))\<rparr>"

definition no_drivers :: "'s geo_client" where
  "no_drivers =
     \<lparr>geoadd = (\<lambda>_ _ s. (s, None)), zadd = (\<lambda>_ _ s. (s, None)), zrem = (\<lambda>_ _ s. (s, None)), write_pipe = (\<lambda>_ s. (s, None)),
      geosearch = (\<lambda>_ _ _ s. (s, Inr [])), geosearch_pipe = (\<lambda>_ qs s. (s, None, map (\<lambda>_. Inr []) qs)),
      zmscore = (\<lambda>_ _ s. (s, Inr [])), zrange_below = (\<lambda>_ _ _ s. (s, Inr [])), zcard = (\<lambda>_ s. (s, Inr 0)),
      geo_ping = (\<lambda>s. (s, None)), geo_rand = (\<lambda>_ s. (s, 0)), geo_sleep = (\<lambda>_ s. (s, None))\<rparr>"

definition silent_engine :: "mem_server engine_api" where
  "silent_engine = (ec_api (fixed_engine (Inl (ForeignError 14 [])))) \<lparr>api_Health := (\<lambda>c s. (s, Inl (ForeignError 14 [])))\<rparr>"

definition demo_platform :: "mem_server platform" where
  "demo_platform =
     \<lparr>os_Hostname = ''host'', os_Getpid = 7, time_Now = ms_clock,
      time_Sleep = (\<lambda>d s. s\<lparr>ms_clock := ms_clock s + max 0 d\<rparr>), duration_string = (\<lambda>_. ''d''), time_Format = (\<lambda>_ _. ''t''),
      quoted = (\<lambda>x. x), float_text = mem_conv, percent_f = (\<lambda>_. ''0''), dial_streams = (\<lambda>_. mem_streams),
      dial_geo = (\<lambda>_ _ _. no_drivers), dial_keys = (\<lambda>_ _. one_key), dial_engine = (\<lambda>_. Inr silent_engine),
      json_decoder = (\<lambda>_ _. (Inr demo_input, Some DecodeEOF)), crypto_rand = (\<lambda>n s. (s, Inr (replicate n 0))),
      range_buffer = (\<lambda>x. x), range_tenants = (\<lambda>x. x), batcher_env = mem_batcher [] (Inr \<lparr>Matches = []\<rparr>),
      http_Get = (\<lambda>_ _ s. (s, Inr 200)), dial_tcp = (\<lambda>_ _ s. (s, None))\<rparr>"

definition demo_requestd :: requestd_flags where
  "demo_requestd = requestd_defaults\<lparr>rf_tenant := ''acme'', rf_maxLen := 1000\<rparr>"

definition demo_batcherd :: batcherd_flags where
  "demo_batcherd = batcherd_defaults\<lparr>bf_tenant := ''acme''\<rparr>"

lemma demo_clock: "clock_moves demo_platform \<lparr>ec_api = silent_engine, ec_timeout = d\<rparr>"
  by (auto simp: clock_moves_def demo_platform_def Health_def silent_engine_def)

lemma silent_health: "Health \<lparr>ec_api = silent_engine, ec_timeout = d\<rparr> c s = (s, Inl (Wrapf [] (Sent ErrEngineUnavailable) '': ''))"
  by (simp add: Health_def silent_engine_def fixed_engine_def classified_def classify_def)

theorem batcherd_startup_ends_witness: "\<exists>s' r. batcherd demo_platform demo_batcherd mem_empty = Some (s', r)"
proof -
  have "clock_moves demo_platform \<lparr>ec_api = api, ec_timeout = d\<rparr>"
    if "dial_engine demo_platform (bf_engine demo_batcherd) = Inr api" for api d
    using that demo_clock by (simp add: demo_platform_def)
  from batcherd_startup_ends [of demo_platform demo_batcherd mem_empty] this show ?thesis by blast
qed

text \<open>The same machine with an engine that is up.\<close>

definition live_platform :: "mem_server platform" where
  "live_platform = demo_platform\<lparr>dial_engine := (\<lambda>_. Inr (ec_api (fixed_engine (Inr \<lparr>Matches = []\<rparr>))))\<rparr>"

lemma live_batcherd: "\<exists>s' b. batcherd live_platform demo_batcherd mem_empty = Some (s', Inr b)"
proof -
  let ?q = "\<lparr>rq_client = mem_streams, rq_opts = (DefaultStreamOptions ms_clock)\<lparr>so_TenantID := ''acme'',
    so_Consumer := consumer_name live_platform []\<rparr>, rq_conv = mem_conv\<rparr>"
  have q: "NewRedisStream mem_streams mem_conv ((DefaultStreamOptions ms_clock)\<lparr>so_TenantID := ''acme'',
      so_Consumer := consumer_name live_platform []\<rparr>) mem_empty = (mem_empty, Inr ?q)"
    by (simp add: NewRedisStream_def ensureGroup_def mem_streams_def DefaultStreamOptions_def consumer_name_def
        live_platform_def demo_platform_def)
  have sel: "dial_streams live_platform a = mem_streams" "float_text live_platform = mem_conv" "time_Now live_platform = ms_clock"
    "dial_geo live_platform n a k = no_drivers" for a n k by (simp_all add: live_platform_def demo_platform_def)
  have w: "warm_loop live_platform \<lparr>ec_api = ec_api (fixed_engine r), ec_timeout = d\<rparr> t prev 1 s =
      Some (s, Inr (Some \<lparr>Healthy = True, LoadedGraphs = []\<rparr>), 1)" if "ms_clock s < t" for r d t prev s
    using that by (subst warm_loop.simps) (simp add: sel Health_def fixed_engine_def classified_def)
  show ?thesis
    unfolding batcherd_def Let_def
    by (simp add: demo_batcherd_def batcherd_defaults_def sel q NewRedis_def DefaultOptions_def Locations.Ping_def no_drivers_def Dial_def WithTimeout_def
        live_platform_def [THEN arg_cong, of dial_engine] New_def batcherd_config_def applyDefaults_def DefaultConfig_def go_div_def w
        demo_platform_def)
qed

theorem batcherd_wiring_witness:
  "\<exists>s' b. batcherd live_platform demo_batcherd mem_empty = Some (s', Inr b) \<and> SolveTimeout (b_cfg b) < Window (b_cfg b)"
  using live_batcherd batcherd_wiring [of live_platform demo_batcherd mem_empty] by blast

lemma demo_requestd_runs: "\<exists>srv. requestd demo_platform demo_requestd mem_empty = (mem_empty, Inr srv) \<and>
    av_queue srv = redis_queue (acme\<lparr>rq_opts := (rq_opts acme)\<lparr>so_Consumer := ''requestd-producer''\<rparr>\<rparr>) \<and>
    av_decode srv = (\<lambda>_ _. (Inr demo_input, Some DecodeEOF)) \<and>
    ac_Keys (av_cfg srv) = Some (redis_key_store \<lparr>ks_client = one_key, ks_now = ms_clock\<rparr>) \<and> ac_Now (av_cfg srv) = ms_clock"
  by (simp add: requestd_def demo_requestd_def requestd_defaults_def demo_platform_def NewRedisStream_def ensureGroup_def mem_streams_def
      DefaultStreamOptions_def rs_Ping_def Open_def NewRedisStore_def key_Ping_def one_key_def NewServer_def api_applyDefaults_def
      ApiDefaultConfig_def mem_queue_def Let_def)

lemma one_key_verifies:
  "\<exists>key. Verify (redis_key_store \<lparr>ks_client = one_key, ks_now = now\<rparr>) ''rmk_a1_b2'' t s = (s, Some key, None)"
proof -
  have "parsed_value (parse_int []) = 0" by code_simp
  then show ?thesis
    by (simp add: Verify_def demo_facts redis_key_store_def Lookup_def one_key_def key_of_fields_def field_str_def field_ms_def
        ConstantTimeCompare_eq Active_def is_zero_def Allow_def)
qed


definition demo_service :: "unit ingestd_service" where
  "demo_service = \<lparr>id_store = \<lparr>lr_client = no_drivers, lr_opts = DefaultOptions (\<lambda>_. 0)\<rparr>, id_pipe = small_pipeline,
     id_cfg = IngestDefaultConfig (\<lambda>_. 0)\<rparr>"

theorem shutdown_drops_late_pings_witness:
  "\<exists>st. (ingestd_step demo_service (\<lambda>_. Some (fst (hd two_pings))) (\<lambda>_. []))\<^sup>*\<^sup>*
      (False, True, \<lparr>is_server = new_server\<lparr>sv_wg := 1, sv_active := 1\<rparr>, is_world = (empty_pipe, ()),
         is_threads = {#Conn ''acme'' False False True True#}\<rparr>) (True, False, st) \<and>
    stopped_cleanly (True, False, st) \<and> map fst (pb_buffer (fst (is_world st))) = [bufKey ''acme'' ''d1'']"
proof -
  have "0 < pc_MaxBufferedDrivers (pp_cfg (id_pipe demo_service))" by (simp add: demo_service_def small_pipeline_def)
  moreover have "ingest_validate (\<lambda>_. []) (fst (hd two_pings)) = None" by code_simp
  moreover have "sv_wg (new_server\<lparr>sv_wg := 1, sv_active := 1\<rparr>) = 1" by simp
  moreover have "pg_DriverID (fst (hd two_pings)) = ''d1''" by (simp add: two_pings_def)
  ultimately show ?thesis
    using shutdown_drops_late_pings [of demo_service "\<lambda>_. Some (fst (hd two_pings))" "[]" "fst (hd two_pings)" "\<lambda>_. []"
        "new_server\<lparr>sv_wg := 1, sv_active := 1\<rparr>" empty_pipe "()" "''acme''"] by auto
qed

end
