(* ===== verification/Queue_Ledger.thy ===== *)
theory Queue_Ledger
  imports Batcher_Properties
begin

text \<open>
  The protocol between everything that works on one ride stream: any number of batchers with their
  reclaimers, and the services that publish. \<open>queue_op\<close> is one operation of any of them, so a path of
  operations is an arbitrary interleaving, finer than the steps of a batcher: a crash is an actor that
  takes no further step, and an operation may fail after it took effect. The theory shows that no such
  interleaving loses a request, and that the main loop and the reclaimer of \<open>internal/batcher\<close> are
  paths of the protocol.
\<close>

section \<open>Ids name one request for ever\<close>

text \<open>Of the ids that were known before, an operation can only forget the request.\<close>

definition older ::
  "('s \<Rightarrow> string \<Rightarrow> RideRequest option) \<Rightarrow> ('s \<Rightarrow> string set) \<Rightarrow> 's \<Rightarrow> 's \<Rightarrow> bool" where
  "older held known s s' \<longleftrightarrow>
     known s \<subseteq> known s' \<and> (\<forall>j\<in>known s. \<forall>r. held s' j = Some r \<longrightarrow> held s j = Some r)"

lemma older_refl [simp]: "older held known s s"
  by (simp add: older_def)

lemma older_trans: "older held known s t \<Longrightarrow> older held known t u \<Longrightarrow> older held known s u"
  by (auto simp: older_def)

lemma older_eq: "known s' = known s \<Longrightarrow> (\<And>j r. held s' j = Some r \<Longrightarrow> held s j = Some r) \<Longrightarrow> older held known s s'"
  by (auto simp: older_def)

locale queue_ledger = queue_contract +
  assumes publish_older: "Publish Q r s = (s', x) \<Longrightarrow> older held known s s'"
    and dead_letter_older: "DeadLetter Q m why s = (s', e) \<Longrightarrow> older held known s s'"
    and republish_older: "Republish Q m s = (s', e) \<Longrightarrow> older held known s s'"
    and consume_older: "Consume Q n blk s = (s', y) \<Longrightarrow> older held known s s'"
    and reclaim_older: "Reclaim Q d n s = (s', ms, e) \<Longrightarrow> older held known s s'"
begin

lemma ack_older: "Ack Q ids s = (s', e) \<Longrightarrow> older held known s s'"
proof (rule older_eq)
  assume a: "Ack Q ids s = (s', e)"
  show "known s' = known s" using ack_keeps [OF a] by blast
  show "held s j = Some r" if "held s' j = Some r" for j r using ack_keeps [OF a, of j] that by auto
qed

end

subsection \<open>Redis Streams keep it\<close>

context redis_ride_queue
begin

abbreviation old :: "'s \<Rightarrow> 's \<Rightarrow> bool" where
  "old \<equiv> older hld (\<lambda>s. used s K)"

lemma unchanged_older: "unchanged entries used deliv s s' \<Longrightarrow> old s s'"
  using unchanged_views [of s s'] by (intro older_eq) simp_all

lemma acked_older: "acked entries used deliv K G ids s s' \<Longrightarrow> old s s'"
  using acked_views(1,6) [of ids s s'] by (intro older_eq) (simp, metis option.distinct(1))

lemma delivered_older: "delivered entries used deliv K G es s s' \<Longrightarrow> old s s'"
  using delivered_views(1,2) [of es s s'] by (intro older_eq) simp_all

lemma appended_older:
  assumes a: "appended entries used deliv K (so_MaxLen (rq_opts q)) f i s s'"
  shows "old s s'"
proof -
  have i: "i \<notin> used s K" and d: "deliv s' K G j = (if j = i then Undelivered else deliv s K G j)" for j
    using a by (simp_all add: appended_def)
  obtain n where n: "entries s' K = drop n (entries s K @ [\<lparr>xm_id = i, xm_values = f\<rparr>])"
    by (rule appended_limit [OF a])
  have "hld s j = Some r" if h: "hld s' j = Some r" and j: "j \<in> used s K" for j r
  proof -
    from h obtain e rest m where e: "e \<in> set (entries s' K)" "xm_id e = j" "deliv s' K G j \<noteq> Settled"
      "decode (rq_conv q) e = Inr m" "Request m = r" by (rule held_SomeD)
    from e(1) n have "e \<in> set (entries s K) \<or> xm_id e = i" by (auto dest!: in_set_dropD)
    with i j e(2) have "e \<in> set (entries s K)" "j \<noteq> i" by auto
    moreover from this e(2,3) d [of j] have "deliv s K G (xm_id e) \<noteq> Settled" by simp
    ultimately have "e \<in> set (entries s K)" "deliv s K G (xm_id e) \<noteq> Settled" by blast+
    from held_entry [OF this e(4)] e(2,5) show ?thesis by simp
  qed
  then show ?thesis using appended_request(1) [OF a] by (simp add: older_def)
qed

lemma claimed_older:
  assumes c: "claimed entries used deliv K G ids es s s'"
  shows "old s s'"
proof (rule older_eq)
  show "used s' K = used s K" using claimed_views(1) [OF c] by simp
  fix j r assume "hld s' j = Some r"
  then obtain e rest m where e: "e \<in> set (entries s' K)" "xm_id e = j" "deliv s' K G j \<noteq> Settled"
    "decode (rq_conv q) e = Inr m" "Request m = r" by (rule held_SomeD)
  have "entries s' = entries s" using c by (simp add: claimed_def)
  then have e': "e \<in> set (entries s K)" using e(1) by simp
  have "j \<in> xm_id ` set es \<or> deliv s' K G j = deliv s K G j"
    using c e' e(2) unfolding claimed_def by blast
  moreover have "deliv s K G j \<noteq> Settled" if "j \<in> xm_id ` set es"
    using c that unfolding claimed_def by fastforce
  ultimately have "deliv s K G (xm_id e) \<noteq> Settled" using e(2,3) by auto
  from held_entry [OF e' this e(4)] e(2,5) show "hld s j = Some r" by simp
qed

lemma publish_old: "rs_Publish q r s = (s', x) \<Longrightarrow> old s s'"
  by (erule publish_cases) (auto intro: unchanged_older appended_older)

lemma ack_old: "rs_Ack q ids s = (s', x) \<Longrightarrow> old s s'"
  by (erule ack_cases) (auto intro: unchanged_older acked_older)

lemma dead_letter_old:
  assumes "rs_DeadLetter q m why s = (s', x)"
  shows "old s s'"
  using assms
proof (cases rule: dead_letter_cases)
  case none
  then show ?thesis by (simp add: unchanged_older)
next
  case (written i s1)
  have "old s s1" using appended_dead(1,3) [OF written(1)] by (intro older_eq) simp_all
  moreover have "old s1 s'" using written(2) unchanged_older acked_older by auto
  ultimately show ?thesis by (rule older_trans)
qed

lemma republish_old:
  assumes "rs_Republish q m s = (s', x)"
  shows "old s s'"
  using assms
  by (cases rule: republish_cases) (auto intro: publish_old older_trans ack_old)

lemma consume_entries_old: "consume_entries q es s = (s', out) \<Longrightarrow> old s s'"
proof (induction es arbitrary: s out)
  case (Cons e es)
  then show ?case
    by (auto split: sum.splits prod.splits dest!: dead_letter_old Cons.IH intro: older_trans)
qed simp

lemma reclaim_entries_old: "reclaim_entries q dl es out s = (s', ms, x) \<Longrightarrow> old s s'"
proof (induction es arbitrary: s out)
  case (Cons e es)
  then show ?case
    by (auto simp: Let_def split: sum.splits prod.splits if_splits option.splits
        dest!: dead_letter_old Cons.IH intro: older_trans)
qed simp

lemma consume_old: "rs_Consume q n b s = (s', y) \<Longrightarrow> old s s'"
  by (erule consume_cases) (auto intro: delivered_older older_trans dest: consume_entries_old)

lemma reclaim_old: "rs_Reclaim q d n s = (s', ms, x) \<Longrightarrow> old s s'"
  by (erule reclaim_cases) (auto intro: unchanged_older claimed_older older_trans dest: reclaim_entries_old)

end

sublocale redis_ride_queue < queue_ledger
  "redis_queue q" "rs_held entries deliv q" "rs_claimed deliv q" "\<lambda>s. used s (streamKey q)"
  "rs_slack entries q" "rs_dead entries q" "rs_deadroom entries q"
  "nat (so_MaxLen (rq_opts q))" "storable_in (rq_conv q)"
  by unfold_locales (auto simp: redis_queue_def intro: publish_old dead_letter_old republish_old consume_old reclaim_old)

context redis_ride_queue
begin

lemma keeps_ledger:
  "queue_ledger (redis_queue q) hld clm (\<lambda>s. used s K) slk ded room M (storable_in (rq_conv q))"
  by (rule queue_ledger_axioms)

end

section \<open>The protocol\<close>

text \<open>
  A state is the world, the messages handed out to batchers so far and the request ids that some
  engine has answered to be matched. \<open>Qs\<close> are the handles on the stream, \<open>Es\<close> the engines, and \<open>idle\<close>
  is any step that does not touch the stream. A message is settled only by who was handed it, and
  acknowledged by itself only after the engine matched its request. \<open>N\<close> bounds the size of a reclaim.
\<close>

type_synonym 's ledger = "'s \<times> Message set \<times> string set"

inductive queue_op ::
  "'s Queue set \<Rightarrow> 's Client set \<Rightarrow> nat \<Rightarrow> ('s \<Rightarrow> 's \<Rightarrow> bool) \<Rightarrow> 's ledger \<Rightarrow> 's ledger \<Rightarrow> bool"
  for Qs Es N idle where
    op_publish: "Q \<in> Qs \<Longrightarrow> Publish Q r s = (s', x) \<Longrightarrow> queue_op Qs Es N idle (s, H, A) (s', H, A)"
  | op_consume: "Q \<in> Qs \<Longrightarrow> Consume Q n blk s = (s', y) \<Longrightarrow>
      H' = H \<union> (case y of Inl _ \<Rightarrow> {} | Inr ms \<Rightarrow> set ms) \<Longrightarrow> queue_op Qs Es N idle (s, H, A) (s', H', A)"
  | op_reclaim: "Q \<in> Qs \<Longrightarrow> nat (max 1 n) \<le> N \<Longrightarrow> Reclaim Q d n s = (s', ms, e) \<Longrightarrow>
      H' = H \<union> set ms \<Longrightarrow> queue_op Qs Es N idle (s, H, A) (s', H', A)"
  | op_dead_letter: "Q \<in> Qs \<Longrightarrow> m \<in> H \<Longrightarrow> DeadLetter Q m why s = (s', e) \<Longrightarrow>
      queue_op Qs Es N idle (s, H, A) (s', H, A)"
  | op_republish: "Q \<in> Qs \<Longrightarrow> m \<in> H \<Longrightarrow> Republish Q m s = (s', e) \<Longrightarrow>
      queue_op Qs Es N idle (s, H, A) (s', H, A)"
  | op_ack: "Q \<in> Qs \<Longrightarrow> set ids \<subseteq> ID ` {m \<in> H. RequestID (Request m) \<in> A} \<Longrightarrow> Ack Q ids s = (s', e) \<Longrightarrow>
      queue_op Qs Es N idle (s, H, A) (s', H, A)"
  | op_solve: "E \<in> Es \<Longrightarrow> api_SolveBatch (ec_api E) c rq s = (s', y) \<Longrightarrow>
      A' = A \<union> (case y of Inl _ \<Rightarrow> {} | Inr resp \<Rightarrow> RiderId ` set (Matches resp)) \<Longrightarrow>
      queue_op Qs Es N idle (s, H, A) (s', H, A')"
  | op_other: "idle s s' \<Longrightarrow> queue_op Qs Es N idle (s, H, A) (s', H, A)"

text \<open>A path with the worlds it visits after its start.\<close>

inductive op_path ::
  "'s Queue set \<Rightarrow> 's Client set \<Rightarrow> nat \<Rightarrow> ('s \<Rightarrow> 's \<Rightarrow> bool) \<Rightarrow> 's ledger \<Rightarrow> 's list \<Rightarrow> 's ledger \<Rightarrow> bool"
  for Qs Es N idle where
    path_nil: "op_path Qs Es N idle x [] x"
  | path_snoc: "op_path Qs Es N idle x ss y \<Longrightarrow> queue_op Qs Es N idle y (s, H, A) \<Longrightarrow>
      op_path Qs Es N idle x (ss @ [s]) (s, H, A)"

inductive_cases op_path_consE: "op_path Qs Es N idle x (ss @ [s]) y"

lemma op_path_step: "queue_op Qs Es N idle x (s, H, A) \<Longrightarrow> op_path Qs Es N idle x [s] (s, H, A)"
  using path_snoc [OF path_nil, of Qs Es N idle x s H A] by simp

lemma op_path_append:
  "op_path Qs Es N idle y ss' z \<Longrightarrow> op_path Qs Es N idle x ss y \<Longrightarrow> op_path Qs Es N idle x (ss @ ss') z"
  by (induction rule: op_path.induct) (auto simp flip: append_assoc intro: path_snoc)

text \<open>Room enough in the stream and in the dead-letter log that the next operation evicts nothing, and
  requests that can be written back.\<close>

definition ample ::
  "('s \<Rightarrow> string \<Rightarrow> RideRequest option) \<Rightarrow> ('s \<Rightarrow> string \<Rightarrow> nat) \<Rightarrow> ('s \<Rightarrow> nat) \<Rightarrow> (RideRequest \<Rightarrow> bool) \<Rightarrow>
   nat \<Rightarrow> 's \<Rightarrow> bool" where
  "ample held slack deadroom storable N s \<longleftrightarrow>
     N \<le> deadroom s \<and> (\<forall>i r. held s i = Some r \<longrightarrow> 0 < slack s i \<and> storable r)"

text \<open>The request of an id is the one of the message, or it is gone.\<close>

definition agrees ::
  "('s \<Rightarrow> string \<Rightarrow> RideRequest option) \<Rightarrow> ('s \<Rightarrow> string set) \<Rightarrow> 's \<Rightarrow> Message \<Rightarrow> bool" where
  "agrees held known s m \<longleftrightarrow> ID m \<in> known s \<and> (\<forall>r. held s (ID m) = Some r \<longrightarrow> r = Request m)"

lemma agrees_older: "older held known s s' \<Longrightarrow> agrees held known s m \<Longrightarrow> agrees held known s' m"
  by (auto simp: older_def agrees_def)

locale ride_stream =
  fixes Qs :: "'s Queue set" and Es :: "'s Client set" and idle :: "'s \<Rightarrow> 's \<Rightarrow> bool"
    and held claimed_by known slack dead deadroom cap storable
  assumes queues: "Q \<in> Qs \<Longrightarrow> queue_ledger Q held claimed_by known slack dead deadroom cap storable"
    and engines: "E \<in> Es \<Longrightarrow> api_SolveBatch (ec_api E) c rq s = (s', y) \<Longrightarrow>
      same_view held claimed_by known slack dead deadroom s s'"
    and idles: "idle s s' \<Longrightarrow> same_view held claimed_by known slack dead deadroom s s'"
begin

lemmas contracts = queues [THEN queue_ledger.axioms(1)]

abbreviation agree :: "'s \<Rightarrow> Message \<Rightarrow> bool" where
  "agree \<equiv> agrees held known"

abbreviation roomy :: "nat \<Rightarrow> 's \<Rightarrow> bool" where
  "roomy \<equiv> ample held slack deadroom storable"

lemma same_older: "same_view held claimed_by known slack dead deadroom s s' \<Longrightarrow> older held known s s'"
  by (intro older_eq) (simp_all add: same_view_def)

lemma claimed_agree:
  assumes "Q \<in> Qs" "\<forall>m\<in>set ms. held s (ID m) = Some (Request m) \<and> claimed_by s (ID m)" "m \<in> set ms"
  shows "agree s m"
  using assms queue_contract.held_known [OF contracts [OF assms(1)]] by (simp add: agrees_def)

lemma op_agrees:
  assumes "queue_op Qs Es N idle (s, H, A) (s', H', A')" "\<forall>m\<in>H. agree s m"
  shows "\<forall>m\<in>H'. agree s' m"
  using assms(1)
proof (cases rule: queue_op.cases)
  case (op_consume Q n blk y)
  have "older held known s s'" using queue_ledger.consume_older [OF queues [OF op_consume(2)] op_consume(3)] .
  moreover have "agree s' m" if "y = Inr ms" "m \<in> set ms" for m ms
    using queue_contract.consume_claims [OF contracts [OF op_consume(2)], of n blk s s' ms] claimed_agree [OF op_consume(2) _ that(2)]
      that op_consume(3) by blast
  ultimately show ?thesis using assms(2) op_consume(4) agrees_older by (cases y) fastforce+
next
  case (op_reclaim Q n d ms e)
  have "older held known s s'" using queue_ledger.reclaim_older [OF queues [OF op_reclaim(2)] op_reclaim(4)] .
  moreover have "agree s' m" if "m \<in> set ms" for m
    using queue_contract.reclaim_claims [OF contracts [OF op_reclaim(2)] op_reclaim(4)] claimed_agree [OF op_reclaim(2) _ that] by blast
  ultimately show ?thesis using assms(2) op_reclaim(5) agrees_older by fastforce
qed (use assms(2) queues engines idles in \<open>metis agrees_older same_older queue_ledger.publish_older queue_ledger.dead_letter_older
      queue_ledger.republish_older queue_ledger.ack_older\<close>)+

text \<open>Still held under some id, answered to be matched, or in the dead-letter log.\<close>

abbreviation safe :: "'s \<Rightarrow> string set \<Rightarrow> string \<Rightarrow> bool" where
  "safe s A rid \<equiv> (\<exists>i r. held s i = Some r \<and> RequestID r = rid) \<or> rid \<in> A \<or> (\<exists>i. dead s i rid)"

lemma settled_safe:
  assumes Q: "Q \<in> Qs" and m: "agree s m" and h: "held s j = Some r" and a: "roomy N s"
    and op: "(\<exists>why e. DeadLetter Q m why s = (s', e)) \<or> (\<exists>e. Republish Q m s = (s', e))"
  shows "safe s' A (RequestID r)"
proof -
  note C = contracts [OF Q]
  have sl: "0 < slack s j" "storable r" using a h by (auto simp: ample_def)
  show ?thesis
  proof (cases "j = ID m")
    case False
    with op h sl queue_contract.dead_letter_keeps [OF C, of m _ s s' _ j] queue_contract.republish_keeps [OF C, of m s s' _ j r]
    show ?thesis by metis
  next
    case True
    with m h have r: "r = Request m" by (simp add: agrees_def)
    from op show ?thesis
    proof
      assume "\<exists>why e. DeadLetter Q m why s = (s', e)"
      with h True r queue_contract.dead_letter_failed [OF C, of m _ s s'] queue_contract.dead_letter_done [OF C, of m _ s s']
      show ?thesis by (metis option.exhaust)
    next
      assume "\<exists>e. Republish Q m s = (s', e)"
      with h True r sl obtain i r' where "held s' i = Some r'" "RequestID r' = RequestID r"
        using queue_contract.republish_safe [OF C, of m s s'] by (auto simp: retried_def)
      then show ?thesis by blast
    qed
  qed
qed

lemma op_safe:
  assumes op: "queue_op Qs Es N idle (s, H, A) (s', H', A')" and ag: "\<forall>m\<in>H. agree s m" and a: "roomy N s"
    and h: "held s j = Some r"
  shows "safe s' A' (RequestID r)"
  using op
proof (cases rule: queue_op.cases)
  case (op_publish Q rr x)
  then show ?thesis using queue_contract.publish_keeps [OF contracts, of Q rr s s' x j r] h a by (auto simp: ample_def)
next
  case (op_consume Q n blk y)
  then show ?thesis using queue_contract.consume_keeps [OF contracts, of Q n blk s s' y j r] h by blast
next
  case (op_reclaim Q n d ms e)
  then show ?thesis using queue_contract.reclaim_keeps [OF contracts, of Q d n s s' ms e j r] h a by (auto simp: ample_def)
next
  case (op_dead_letter Q m why e)
  then show ?thesis using settled_safe [OF _ _ h a] ag by blast
next
  case (op_republish Q m e)
  then show ?thesis using settled_safe [OF _ _ h a] ag by blast
next
  case (op_ack Q ids e)
  show ?thesis
  proof (cases "j \<in> set ids")
    case True
    with op_ack obtain m where "m \<in> H" "ID m = j" "RequestID (Request m) \<in> A" by blast
    with ag h op_ack show ?thesis by (auto simp: agrees_def)
  next
    case False
    with op_ack h queue_contract.ack_keeps [OF contracts, of Q ids s s' e j] show ?thesis by auto
  qed
next
  case (op_solve E c rq y)
  with engines [of E c rq s s' y] h show ?thesis by (auto simp: same_view_def)
next
  case op_other
  with idles [of s s'] h show ?thesis by (auto simp: same_view_def)
qed

lemma op_matched: "queue_op Qs Es N idle (s, H, A) (s', H', A') \<Longrightarrow> A \<subseteq> A'"
  by (erule queue_op.cases) auto

lemma path_agrees:
  "op_path Qs Es N idle x ss y \<Longrightarrow> \<forall>m\<in>fst (snd x). agree (fst x) m \<Longrightarrow> \<forall>m\<in>fst (snd y). agree (fst y) m"
proof (induction rule: op_path.induct)
  case (path_snoc x ss y s H A)
  then show ?case using op_agrees [of N "fst y" "fst (snd y)" "snd (snd y)"] by simp
qed

lemma path_world: "op_path Qs Es N idle x ss y \<Longrightarrow> fst y \<in> set (fst x # ss)"
  by (erule op_path.cases) auto

lemma path_safe:
  assumes "op_path Qs Es N idle x ss y" "\<forall>m\<in>fst (snd x). agree (fst x) m" "\<forall>t\<in>set (fst x # ss). roomy N t"
    and "held (fst x) j = Some r"
  shows "(\<exists>i r'. held (fst y) i = Some r' \<and> RequestID r' = RequestID r) \<or> RequestID r \<in> snd (snd y) \<or>
    (\<exists>t\<in>set (fst x # ss). \<exists>i. dead t i (RequestID r))"
  using assms
proof (induction rule: op_path.induct)
  case (path_snoc x ss y s H A)
  obtain s0 H0 A0 where y: "y = (s0, H0, A0)" by (metis prod_cases3)
  have ag: "\<forall>m\<in>H0. agree s0 m" using path_agrees [OF path_snoc.hyps(1)] path_snoc.prems(1) y by simp
  have op: "queue_op Qs Es N idle (s0, H0, A0) (s, H, A)" using path_snoc.hyps(2) y by simp
  have s0: "s0 \<in> set (fst x # ss)" using path_world [OF path_snoc.hyps(1)] y by simp
  from path_snoc.IH path_snoc.prems y consider
      (there) i r' where "held s0 i = Some r'" "RequestID r' = RequestID r"
    | (matched) "RequestID r \<in> A0"
    | (logged) t i where "t \<in> set (fst x # ss)" "dead t i (RequestID r)" by auto
  then show ?case
  proof cases
    case there
    with op_safe [OF op ag _ there(1)] path_snoc.prems(2) s0 show ?thesis by auto
  next
    case matched
    with op_matched [OF op] show ?thesis by auto
  qed auto
qed auto

end

subsection \<open>Several handles on one stream\<close>

text \<open>Handles on the same stream differ in their consumer's name, their client and their clock only.\<close>

definition same_stream :: "'s RedisStream \<Rightarrow> 's RedisStream \<Rightarrow> bool" where
  "same_stream q q' \<longleftrightarrow>
     so_TenantID (rq_opts q') = so_TenantID (rq_opts q) \<and> so_Group (rq_opts q') = so_Group (rq_opts q) \<and>
     so_MaxLen (rq_opts q') = so_MaxLen (rq_opts q) \<and> rq_conv q' = rq_conv q"

lemma same_stream_views:
  assumes "same_stream q q'"
  shows "streamKey q' = streamKey q" "deadKey q' = deadKey q" "rs_held entries deliv q' = rs_held entries deliv q"
    "rs_claimed deliv q' = rs_claimed deliv q" "rs_slack entries q' = rs_slack entries q"
    "rs_dead entries q' = rs_dead entries q" "rs_deadroom entries q' = rs_deadroom entries q"
proof -
  show k: "streamKey q' = streamKey q" "deadKey q' = deadKey q"
    using assms by (simp_all add: same_stream_def streamKey_def deadKey_def)
  show "rs_held entries deliv q' = rs_held entries deliv q" "rs_claimed deliv q' = rs_claimed deliv q"
    "rs_slack entries q' = rs_slack entries q" "rs_dead entries q' = rs_dead entries q"
    "rs_deadroom entries q' = rs_deadroom entries q"
    using assms k by (simp_all add: same_stream_def fun_eq_iff rs_held_def rs_claimed_def rs_slack_def rs_dead_def rs_deadroom_def)
qed

lemma handles_ride_stream:
  assumes "\<And>q'. q' \<in> S \<Longrightarrow> redis_ride_queue q' entries used deliv \<and> same_stream q q'"
    and "\<And>E c rq s s' y. E \<in> Es \<Longrightarrow> api_SolveBatch (ec_api E) c rq s = (s', y) \<Longrightarrow> unchanged entries used deliv s s'"
    and "\<And>s s'. idle s s' \<Longrightarrow> unchanged entries used deliv s s'"
  shows "ride_stream (redis_queue ` S) Es idle (rs_held entries deliv q) (rs_claimed deliv q) (\<lambda>s. used s (streamKey q))
    (rs_slack entries q) (rs_dead entries q) (rs_deadroom entries q) (nat (so_MaxLen (rq_opts q))) (storable_in (rq_conv q))"
proof (rule ride_stream.intro)
  have same: "same_view (rs_held entries deliv q) (rs_claimed deliv q) (\<lambda>s. used s (streamKey q)) (rs_slack entries q)
      (rs_dead entries q) (rs_deadroom entries q) s s'" if "unchanged entries used deliv s s'" for s s'
    using that by (simp add: unchanged_def same_view_def fun_eq_iff rs_held_def rs_claimed_def rs_slack_def rs_dead_def rs_deadroom_def)
  show "queue_ledger Q (rs_held entries deliv q) (rs_claimed deliv q) (\<lambda>s. used s (streamKey q)) (rs_slack entries q)
      (rs_dead entries q) (rs_deadroom entries q) (nat (so_MaxLen (rq_opts q))) (storable_in (rq_conv q))"
    if Q: "Q \<in> redis_queue ` S" for Q
  proof -
    from Q obtain q' where q': "q' \<in> S" "Q = redis_queue q'" by blast
    with assms(1) have r: "redis_ride_queue q' entries used deliv" and st: "same_stream q q'" by blast+
    then have "so_MaxLen (rq_opts q') = so_MaxLen (rq_opts q)" "rq_conv q' = rq_conv q" by (simp_all add: same_stream_def)
    with redis_ride_queue.keeps_ledger [OF r] q'(2) show ?thesis by (simp only: same_stream_views [OF st])
  qed
  show "same_view (rs_held entries deliv q) (rs_claimed deliv q) (\<lambda>s. used s (streamKey q)) (rs_slack entries q)
      (rs_dead entries q) (rs_deadroom entries q) s s'" if "E \<in> Es" "api_SolveBatch (ec_api E) c rq s = (s', y)" for E c rq s s' y
    by (rule same [OF assms(2) [OF that]])
  show "same_view (rs_held entries deliv q) (rs_claimed deliv q) (\<lambda>s. used s (streamKey q)) (rs_slack entries q)
      (rs_dead entries q) (rs_deadroom entries q) s s'" if "idle s s'" for s s'
    by (rule same [OF assms(3) [OF that]])
qed


section \<open>The batcher follows the protocol\<close>

text \<open>A batcher among the actors: its queue, its engine and its batch size are theirs, and the driver
  store, the metrics, the hook and the pause do not touch the stream.\<close>

locale batcher_actor =
  fixes b :: "'s Batcher" and Qs :: "'s Queue set" and Es :: "'s Client set" and N :: nat and idle :: "'s \<Rightarrow> 's \<Rightarrow> bool"
  assumes handle: "b_queue b \<in> Qs" "b_engine b \<in> Es" "nat (max 1 (MaxBatchSize (b_cfg b))) \<le> N"
    and nearby_idle: "repo_NearbyMany (b_drivers b) qs s = (s', x) \<Longrightarrow> idle s s'"
    and prom_idle: "idle s (prom b xs s)"
    and hook_idle: "OnBatch (b_cfg b) = Some f \<Longrightarrow> idle s (f bm s)"
    and pause_idle: "idle s (pause b t s)"
begin

abbreviation step :: "'s ledger \<Rightarrow> 's ledger \<Rightarrow> bool" where
  "step \<equiv> queue_op Qs Es N idle"

definition reaches :: "'s ledger \<Rightarrow> 's ledger \<Rightarrow> bool" where
  "reaches x y \<longleftrightarrow> (\<exists>ss. op_path Qs Es N idle x ss y)"

lemma reaches_refl [simp]: "reaches x x"
  unfolding reaches_def by (rule exI, rule path_nil)

lemma reaches_trans [trans]: "reaches x y \<Longrightarrow> reaches y z \<Longrightarrow> reaches x z"
  unfolding reaches_def using op_path_append by blast

lemma reaches_step: "step x y \<Longrightarrow> reaches x y"
  unfolding reaches_def by (cases y) (blast intro: op_path_step)

lemma reaches_other: "idle s s' \<Longrightarrow> reaches (s, H, A) (s', H, A)"
  by (intro reaches_step op_other)

text \<open>One message dead-lettered or republished.\<close>

definition settled :: "Message \<Rightarrow> 's \<Rightarrow> 's \<Rightarrow> bool" where
  "settled m s s' \<longleftrightarrow>
     (\<exists>why e. DeadLetter (b_queue b) m why s = (s', e)) \<or> (\<exists>e. Republish (b_queue b) m s = (s', e))"

lemma settledI:
  "DeadLetter (b_queue b) m why s = (s', e) \<Longrightarrow> settled m s s'"
  "Republish (b_queue b) m s = (s', e) \<Longrightarrow> settled m s s'"
  by (auto simp: settled_def)

lemma settled_reaches: "settled m s s' \<Longrightarrow> m \<in> H \<Longrightarrow> reaches (s, H, A) (s', H, A)"
  unfolding settled_def by (blast intro: reaches_step op_dead_letter [OF handle(1)] op_republish [OF handle(1)])

lemma emit_reaches: "reaches (s, H, A) (emit b m started s, H, A)"
  using reaches_other [OF prom_idle] reaches_trans [OF reaches_other [OF prom_idle] reaches_other [OF hook_idle]]
  by (auto simp: emit_def Let_def split: option.split)

lemma dead_letter_all_reaches:
  "set ms \<subseteq> H \<Longrightarrow> reaches (s, H, A) (dead_letter_all (b_queue b) why ms s, H, A)"
proof (induction ms arbitrary: s)
  case (Cons m ms)
  have "reaches (s, H, A) (fst (DeadLetter (b_queue b) m why s), H, A)"
    using Cons.prems settledI(1) [of m why s] by (intro settled_reaches [of m]) (metis prod.collapse, simp)
  also have "reaches \<dots> (dead_letter_all (b_queue b) why (m # ms) s, H, A)" using Cons by simp
  finally show ?case .
qed simp

lemma settle_loop_reaches:
  "settle_loop (b_queue b) a M msgs s = (s', acks, rq, ex) \<Longrightarrow> set msgs \<subseteq> H \<Longrightarrow>
     reaches (s, H, A) (s', H, A) \<and> set acks \<subseteq> ID ` {m \<in> H. RequestID (Request m) \<in> M}"
proof (induction msgs arbitrary: s acks rq ex)
  case (Cons m msgs)
  show ?case
  proof (cases "RequestID (Request m) \<in> M")
    case True
    with Cons.prems obtain acks' where "settle_loop (b_queue b) a M msgs s = (s', acks', rq, ex)" "acks = ID m # acks'"
      by (auto split: prod.splits)
    with Cons.IH [of s acks' rq ex] Cons.prems(2) True show ?thesis by auto
  next
    case False
    with Cons.prems obtain t rq' ex' where "settled m s t" and l: "settle_loop (b_queue b) a M msgs t = (s', acks, rq', ex')"
      by (auto simp: Let_def split: if_splits prod.splits dest!: settledI)
    then have t: "reaches (s, H, A) (t, H, A)" using Cons.prems(2) by (intro settled_reaches) auto
    from Cons.IH [OF l] Cons.prems(2) reaches_trans [OF t] show ?thesis by auto
  qed
qed simp

lemma settle_batch_reaches:
  assumes sb: "settle_batch b msgs resp metrics started (s, st) = (s', st')" and H: "set msgs \<subseteq> H" and A: "matched_set resp \<subseteq> A"
  shows "reaches (s, H, A) (s', H, A)"
proof -
  obtain s1 acks rq ex where
    l: "settle_loop (b_queue b) (MaxMatchAttempts (b_cfg b)) (matched_set resp) msgs s = (s1, acks, rq, ex)"
    by (metis prod_cases4)
  obtain s2 e where k: "ack_all (b_queue b) acks s1 = (s2, e)" by force
  have e: "\<exists>bm. s' = emit b bm started s2" using sb l k by (auto simp: settle_batch_def Let_def)
  have loop: "reaches (s, H, A) (s1, H, A)" "set acks \<subseteq> ID ` {m \<in> H. RequestID (Request m) \<in> A}"
    using settle_loop_reaches [OF l H, of A] A by blast+
  note loop(1)
  also have "reaches (s1, H, A) (s2, H, A)"
    using k loop(2) op_ack [OF handle(1), of acks H A s1 s2 e] by (auto simp: ack_all_def split: if_splits intro: reaches_step)
  also have "reaches (s2, H, A) (s', H, A)" using e emit_reaches by auto
  finally show ?thesis .
qed

lemma solve_batch_reaches:
  assumes sb: "solve_batch b ctx batchID msgs drivers metrics started (s, st) = (s', st')" and H: "set msgs \<subseteq> H"
  shows "\<exists>A'. A \<subseteq> A' \<and> reaches (s, H, A) (s', H, A')"
proof -
  let ?rq = "batch_request b batchID msgs drivers"
  obtain s1 r where r: "SolveBatch (b_engine b) (with_timeout (api_now (ec_api (b_engine b)) s) (SolveTimeout (b_cfg b)) ctx)
      (Some ?rq) s = (s1, r)" by force
  obtain c y where y: "api_SolveBatch (ec_api (b_engine b)) c ?rq s = (s1, y)"
    "\<And>resp. r = Inr resp \<Longrightarrow> matched_set resp \<subseteq> (case y of Inl _ \<Rightarrow> {} | Inr resp \<Rightarrow> RiderId ` set (Matches resp))"
    using r by (cases rule: SolveBatch_cases) (force simp: matched_set_def)+
  define A' where "A' = A \<union> (case y of Inl _ \<Rightarrow> {} | Inr resp \<Rightarrow> RiderId ` set (Matches resp))"
  have "reaches (s, H, A) (s1, H, A')" by (intro reaches_step op_solve [OF handle(2) y(1)]) (simp add: A'_def)
  also have "reaches (s1, H, A') (s', H, A')"
  proof (cases r)
    case (Inl err)
    with sb r have "\<exists>bm. s' = emit b bm started s1 \<or> s' = emit b bm started (dead_letter_all (b_queue b) (error_text err) msgs s1)"
      by (auto simp: solve_batch_def Let_def simp del: Retryable.simps split: if_splits)
    then show ?thesis using emit_reaches reaches_trans [OF dead_letter_all_reaches [OF H] emit_reaches] by auto
  next
    case (Inr resp)
    with sb r obtain bm where "settle_batch b msgs resp bm started (s1, st) = (s', st')"
      by (auto simp: solve_batch_def Let_def)
    moreover have "matched_set resp \<subseteq> A'" using y(2) [OF Inr] by (auto simp: A'_def)
    ultimately show ?thesis using settle_batch_reaches [OF _ H] by blast
  qed
  finally show ?thesis by (auto simp: A'_def)
qed

lemma processBatch_reaches:
  assumes pb: "processBatch b ctx msgs reason (s, st) = (s', st')" and H: "set msgs \<subseteq> H"
  shows "\<exists>A'. A \<subseteq> A' \<and> reaches (s, H, A) (s', H, A')"
proof (cases "msgs = []")
  case False
  obtain s1 r where r: "repo_NearbyMany (b_drivers b) (batch_queries (b_cfg b) msgs) s = (s1, r)" by force
  have n: "reaches (s, H, A) (s1, H, A)" by (rule reaches_other [OF nearby_idle [OF r]])
  from pb False r have "(\<exists>bm started. s' = emit b bm started s1) \<or>
      (\<exists>i ds bm started st1. solve_batch b ctx i msgs ds bm started (s1, st1) = (s', st'))"
    by (auto simp: processBatch_def Let_def split: sum.splits if_splits)
  then show ?thesis
  proof
    assume "\<exists>bm started. s' = emit b bm started s1"
    then show ?thesis using reaches_trans [OF n emit_reaches] by auto
  next
    assume "\<exists>i ds bm started st1. solve_batch b ctx i msgs ds bm started (s1, st1) = (s', st')"
    then show ?thesis using solve_batch_reaches [OF _ H] reaches_trans [OF n] by meson
  qed
qed (use pb in \<open>auto simp: processBatch_def\<close>)

lemma flush_reaches:
  assumes "(s', st') = processBatch b ctx msgs reason (s, st)" "reaches x (s, H, A)" "set msgs \<subseteq> H"
  shows "\<exists>A'. A \<subseteq> A' \<and> reaches x (s', H, A')"
  using processBatch_reaches [of ctx msgs reason s st s' st' H A] assms reaches_trans by metis

lemma consume_reaches:
  "Consume (b_queue b) n blk s = (s', y) \<Longrightarrow> reaches (s, H, A) (s', H \<union> (case y of Inl _ \<Rightarrow> {} | Inr ms \<Rightarrow> set ms), A)"
  by (intro reaches_step op_consume [OF handle(1)]) auto

text \<open>An iteration of the main loop, with what it holds pending among the messages handed out.\<close>

lemma run_step_reaches:
  assumes "run_step b ctx d l (msgs, batch) l'" "set (lp_pending l) \<subseteq> H"
  shows "\<exists>H' A'. A \<subseteq> A' \<and> H \<subseteq> H' \<and> set (lp_pending l') \<subseteq> H' \<and> reaches (fst (lp_world l), H, A) (fst (lp_world l'), H', A')"
proof -
  obtain s st s' st' where w: "lp_world l = (s, st)" "lp_world l' = (s', st')" by (metis prod.exhaust)
  from assms(1) show ?thesis
  proof (cases rule: run_step.cases)
    case cancelled
    show ?thesis
    proof (cases "lp_pending l = []")
      case True
      with cancelled w have "s' = s" "lp_pending l' = []" by (auto simp: loop_shutdown_def)
      with w show ?thesis by (intro exI [of _ H] exI [of _ A]) simp
    next
      case False
      with cancelled w have l': "processBatch b (with_timeout (wall b s) (SolveTimeout (b_cfg b)) None) (lp_pending l) FlushShutdown (s, st) = (s', st')" "lp_pending l' = []"
        by (auto simp: loop_shutdown_def)
      from processBatch_reaches [OF l'(1) assms(2), of A] w l'(2) show ?thesis by auto
    qed
  next
    case ticked
    show ?thesis
    proof (cases "lp_pending l = []")
      case True
      with ticked w have "s' = s" "lp_pending l' = []" by (auto simp: loop_timer_def new_window_def)
      with w show ?thesis by (intro exI [of _ H] exI [of _ A]) simp
    next
      case False
      with ticked w have l': "processBatch b (ctx) (lp_pending l) FlushTimer (s, st) = (s', st')" "lp_pending l' = []"
        by (auto simp: loop_timer_def new_window_def)
      from processBatch_reaches [OF l'(1) assms(2), of A] w l'(2) show ?thesis by auto
    qed
  next
    case polled
    define left where "left = Window (b_cfg b) - time_sub (Now (b_cfg b) s) (lp_windowStart l)"
    define blk where "blk = (if left \<le> 0 then millisecond else left)"
    obtain s1 r where c: "Consume (b_queue b) (MaxBatchSize (b_cfg b) - int (length (lp_pending l))) blk s = (s1, r)" by force
    note reach = consume_reaches [OF c, of H A]
    show ?thesis
    proof (cases r)
      case (Inl e)
      with polled w c have "s' = s1 \<or> (\<exists>t. s' = pause b t s1)" "lp_pending l' = lp_pending l"
        by (auto simp: loop_default_def Let_def blk_def left_def split: if_splits)
      moreover have "reaches (s, H, A) (s1, H, A)" using reach Inl by simp
      ultimately have "reaches (s, H, A) (s', H, A)" using reaches_trans reaches_other [OF pause_idle] by blast
      with w assms(2) \<open>lp_pending l' = lp_pending l\<close> show ?thesis by auto
    next
      case (Inr ms)
      let ?H = "H \<union> set ms"
      have reach: "reaches (s, H, A) (s1, ?H, A)" using reach Inr by simp
      have "(\<exists>reason. lp_world l' = processBatch b ctx (lp_pending l @ ms) reason (s1, st)) \<and> lp_pending l' = [] \<or>
          fst (lp_world l') = s1 \<and> lp_pending l' = lp_pending l @ ms"
        using polled w(1) c Inr by (auto simp: loop_default_def new_window_def Let_def blk_def left_def split: if_splits)
      then have "(\<exists>reason. (s', st') = processBatch b ctx (lp_pending l @ ms) reason (s1, st)) \<and> lp_pending l' = [] \<or>
          s' = s1 \<and> lp_pending l' = lp_pending l @ ms" by (simp only: w(2) fst_conv)
      then show ?thesis
      proof
        assume p: "(\<exists>reason. (s', st') = processBatch b ctx (lp_pending l @ ms) reason (s1, st)) \<and> lp_pending l' = []"
        then obtain reason where pb: "(s', st') = processBatch b ctx (lp_pending l @ ms) reason (s1, st)" by blast
        have "set (lp_pending l @ ms) \<subseteq> ?H" using assms(2) by auto
        from flush_reaches [OF pb reach this] obtain A' where A': "A \<subseteq> A'" "reaches (s, H, A) (s', ?H, A')" by blast
        from p have "set (lp_pending l') \<subseteq> ?H" by simp
        with A' show ?thesis unfolding w fst_conv by blast
      next
        assume p: "s' = s1 \<and> lp_pending l' = lp_pending l @ ms"
        then have "set (lp_pending l') \<subseteq> ?H" using assms(2) by auto
        with p reach show ?thesis unfolding w fst_conv by blast
      qed
    qed
  qed
qed

lemma reclaim_tick_reaches:
  assumes "reclaim_tick b ctx (s, st) = (s', st')"
  shows "\<exists>H' A'. A \<subseteq> A' \<and> H \<subseteq> H' \<and> reaches (s, H, A) (s', H', A')"
proof -
  obtain s1 ms e where r: "Reclaim (b_queue b) (ReclaimMinIdle (b_cfg b)) (MaxBatchSize (b_cfg b)) s = (s1, ms, e)"
    by (metis prod_cases3)
  have reach: "reaches (s, H, A) (s1, H \<union> set ms, A)"
    by (intro reaches_step op_reclaim [OF handle(1,3) r]) simp
  from assms r have "s' = s1 \<or> (s', st') = processBatch b ctx ms FlushTimer (s1, st)"
    by (auto simp: reclaim_tick_def split: if_splits)
  then show ?thesis
  proof
    assume "(s', st') = processBatch b ctx ms FlushTimer (s1, st)"
    from flush_reaches [OF this reach] show ?thesis by blast
  qed (use reach in blast)
qed

end

text \<open>C4. The batcher follows the protocol. Every iteration of \<open>Run\<close>, whichever case its \<open>select\<close> takes, and every
  tick of the reclaimer is a path of the protocol's operations: it settles only messages it was handed,
  acknowledges a message on its own only when the engine answered that its request is matched, and
  what \<open>Run\<close> keeps pending was handed to it.\<close>

theorem batcher_follows_protocol:
  assumes "batcher_actor b Qs Es N idle"
  shows "(\<forall>l msgs batch l'. run_step b ctx d l (msgs, batch) l' \<and> set (lp_pending l) \<subseteq> H \<longrightarrow>
      (\<exists>ss H' A'. op_path Qs Es N idle (fst (lp_world l), H, A) ss (fst (lp_world l'), H', A') \<and> H \<subseteq> H' \<and> A \<subseteq> A' \<and>
         set (lp_pending l') \<subseteq> H')) \<and>
    (\<forall>s st s' st'. reclaim_tick b ctx (s, st) = (s', st') \<longrightarrow>
      (\<exists>ss H' A'. op_path Qs Es N idle (s, H, A) ss (s', H', A') \<and> H \<subseteq> H' \<and> A \<subseteq> A'))"
proof (intro conjI allI impI)
  show "\<exists>ss H' A'. op_path Qs Es N idle (fst (lp_world l), H, A) ss (fst (lp_world l'), H', A') \<and> H \<subseteq> H' \<and> A \<subseteq> A' \<and>
      set (lp_pending l') \<subseteq> H'" if "run_step b ctx d l (msgs, batch) l' \<and> set (lp_pending l) \<subseteq> H" for l msgs batch l'
    using batcher_actor.run_step_reaches [OF assms that [THEN conjunct1] that [THEN conjunct2], of A]
    unfolding batcher_actor.reaches_def [OF assms] by blast
  show "\<exists>ss H' A'. op_path Qs Es N idle (s, H, A) ss (s', H', A') \<and> H \<subseteq> H' \<and> A \<subseteq> A'"
    if "reclaim_tick b ctx (s, st) = (s', st')" for s st s' st'
    using batcher_actor.reclaim_tick_reaches [OF assms that, of A H] unfolding batcher_actor.reaches_def [OF assms] by blast
qed

section \<open>On the in-memory stream\<close>

lemma acme_handles: "q' \<in> {acme} \<Longrightarrow> redis_ride_queue q' mem_entries mem_used ms_deliv \<and> same_stream acme q'"
  using memq.redis_ride_queue_axioms by (simp add: same_stream_def)

lemma engine_unchanged:
  "E \<in> {fixed_engine answer} \<Longrightarrow> api_SolveBatch (ec_api E) c rq s = (s', y) \<Longrightarrow> unchanged mem_entries mem_used ms_deliv s s'"
  by (auto simp: fixed_engine_def unchanged_def)

interpretation acmes: ride_stream "redis_queue ` {acme}" "{fixed_engine answer}" "(=)" "rs_held mem_entries ms_deliv acme"
  "rs_claimed ms_deliv acme" "\<lambda>s. mem_used s (streamKey acme)" "rs_slack mem_entries acme" "rs_dead mem_entries acme"
  "rs_deadroom mem_entries acme" "nat (so_MaxLen (rq_opts acme))" "storable_in (rq_conv acme)"
  for answer
  by (rule handles_ride_stream) (use acme_handles engine_unchanged in \<open>auto simp: unchanged_def\<close>)

interpretation acmea: batcher_actor "mem_batcher ds answer" "redis_queue ` {acme}" "{fixed_engine answer}" 500 "(=)" for ds answer
  by unfold_locales (auto simp: mem_batcher_def fixed_drivers_def DefaultConfig_def)

lemma acme_actor: "batcher_actor (mem_batcher ds answer) (redis_queue ` {acme}) {fixed_engine answer} 500 (=)"
  by (rule acmea.batcher_actor_axioms)

text \<open>A stream that retains just the sample request has room.\<close>

lemma acme_ample:
  assumes "mem_entries s (streamKey acme) = [\<lparr>xm_id = mem_id 0, xm_values = sample_fields\<rparr>]" "mem_entries s (deadKey acme) = []"
  shows "ample (rs_held mem_entries ms_deliv acme) (rs_slack mem_entries acme) (rs_deadroom mem_entries acme) (storable_in mem_conv) 500 s"
proof -
  have d: "(case decode mem_conv \<lparr>xm_id = mem_id 0, xm_values = sample_fields\<rparr> of Inl _ \<Rightarrow> False | Inr m \<Rightarrow> storable_in mem_conv (Request m))"
    by code_simp
  have "0 < rs_slack mem_entries acme s i \<and> storable_in mem_conv r" if "rs_held mem_entries ms_deliv acme s i = Some r" for i r
  proof -
    from that have "storable_in mem_conv r"
      by (rule memq.held_SomeD) (use d assms(1) in \<open>auto split: sum.splits\<close>)
    moreover have "length (suffix_from i (mem_entries s (streamKey acme))) \<le> 1" by (simp add: assms(1) suffix_from_def)
    ultimately show ?thesis by (simp add: rs_slack_def)
  qed
  then show ?thesis by (simp add: ample_def rs_deadroom_def assms(2))
qed


lemma run_steps_none: "run_steps b ctx d l tr l' \<Longrightarrow> tr = [] \<Longrightarrow> l' = l"
  by (induction rule: run_steps.induct) auto

lemma run_steps_one: "run_steps b ctx d l tr l' \<Longrightarrow> tr = [x] \<Longrightarrow> run_step b ctx d l x l'"
  by (induction rule: run_steps.induct) (auto dest: run_steps_none)

theorem batcher_follows_protocol_witness:
  "\<exists>x l ss H A. run_steps (mem_batcher [] (Inr \<lparr>Matches = []\<rparr>)) None (\<lambda>_. False)
      (loop_start (mem_batcher [] (Inr \<lparr>Matches = []\<rparr>)) stored) [x] l \<and>
    op_path (redis_queue ` {acme}) {fixed_engine (Inr \<lparr>Matches = []\<rparr>)} 500 (=) (stored, {}, {}) ss (fst (lp_world l), H, A)"
proof -
  let ?b = "mem_batcher [] (Inr \<lparr>Matches = []\<rparr>)"
  obtain x l where r: "run_steps ?b None (\<lambda>_. False) (loop_start ?b stored) [x] l" by (rule mem_run)
  then have "run_step ?b None (\<lambda>_. False) (loop_start ?b stored) (fst x, snd x) l"
    using run_steps_one [OF _ refl] by simp
  then have s: "run_step ?b None (\<lambda>_. False) (loop_start ?b stored) (fst x, snd x) l \<and> set (lp_pending (loop_start ?b stored)) \<subseteq> {}"
    by (simp add: loop_start_def)
  have w: "fst (lp_world (loop_start ?b stored)) = stored" by (simp add: loop_start_def)
  from batcher_follows_protocol [OF acme_actor, THEN conjunct1, rule_format, OF s, of "{}"] r show ?thesis
    unfolding w by blast
qed

end
