(* ===== verification/Metrics.thy ===== *)
theory Metrics
  imports Batcher_Properties Api
begin

text \<open>
  \<open>internal/metrics\<close>: the collectors, their registration and the SLO constants, and what the
  Prometheus client requires of a sample: \<open>WithLabelValues\<close> panics on a wrong number of labels,
  \<open>Counter.Add\<close> on a negative value, \<open>MustRegister\<close> on a name that is taken. The batcher's samples
  never do any of this.
\<close>

section \<open>The collectors\<close>

datatype metric_kind = CounterVec | GaugeVec | HistogramVec "rat list"

text \<open>\<open>mt_var\<close> is the name of the Go variable, by which the code refers to the collector.\<close>

record metric =
  mt_var :: string
  mt_name :: string
  mt_kind :: metric_kind
  mt_labels :: "string list"

definition metric_of :: "string \<Rightarrow> string \<Rightarrow> metric_kind \<Rightarrow> string list \<Rightarrow> metric" where
  "metric_of v n k ls = \<lparr>mt_var = v, mt_name = ''ridematch_'' @ n, mt_kind = k, mt_labels = ls\<rparr>"

definition ingestion_metrics :: "metric list" where
  "ingestion_metrics =
     [metric_of ''DriverPingsTotal'' ''driver_pings_total'' CounterVec [''tenant'', ''result''],
      metric_of ''ActiveConnections'' ''websocket_connections'' GaugeVec [''tenant'']]"

definition request_metrics :: "metric list" where
  "request_metrics =
     [metric_of ''RideRequestsTotal'' ''ride_requests_total'' CounterVec [''tenant'', ''result''],
      metric_of ''RequestAcceptSeconds'' ''request_accept_seconds''
        (HistogramVec [0.0005, 0.001, 0.0025, 0.005, 0.01, 0.025, 0.05, 0.1, 0.25, 0.5, 1, 2.5]) [''tenant'']]"

definition matching_metrics :: "metric list" where
  "matching_metrics =
     [metric_of ''BatchesTotal'' ''batches_total'' CounterVec [''tenant'', ''reason''],
      metric_of ''BatchSize'' ''batch_size_riders''
        (HistogramVec [1, 5, 10, 25, 50, 100, 250, 500, 1000, 2500]) [''tenant''],
      metric_of ''SolveSeconds'' ''solve_seconds''
        (HistogramVec [0.0005, 0.001, 0.005, 0.01, 0.05, 0.1, 0.25, 0.5, 1, 2.5, 5]) [''tenant'', ''metric''],
      metric_of ''MatchLatencySeconds'' ''match_latency_seconds''
        (HistogramVec [0.5, 1, 2, 3, 4, 5, 7.5, 10, 20, 30]) [''tenant''],
      metric_of ''RidersTotal'' ''riders_total'' CounterVec [''tenant'', ''outcome'']]"

definition queue_metrics :: "metric list" where
  "queue_metrics =
     [metric_of ''QueueDepth'' ''queue_depth'' GaugeVec [''tenant''],
      metric_of ''QueuePending'' ''queue_pending'' GaugeVec [''tenant''],
      metric_of ''QueueDeadLettered'' ''queue_dead_lettered'' GaugeVec [''tenant'']]"

definition dependency_metrics :: "metric list" where
  "dependency_metrics =
     [metric_of ''DependencyErrorsTotal'' ''dependency_errors_total'' CounterVec [''dependency'', ''retryable''],
      metric_of ''DriversIndexed'' ''drivers_indexed'' GaugeVec [''tenant'']]"

definition http_metrics :: "metric list" where
  "http_metrics = [metric_of ''HTTPRequestsTotal'' ''http_requests_total'' CounterVec [''route'', ''status_class'']]"

definition all_metrics :: "metric list" where
  "all_metrics = ingestion_metrics @ request_metrics @ matching_metrics @ queue_metrics @ dependency_metrics @ http_metrics"

text \<open>\<open>MustRegister\<close>: \<open>None\<close> is its panic. \<open>base\<close> are the Go and process collectors of the client library.\<close>

fun must_register :: "metric list \<Rightarrow> string list \<Rightarrow> string list option" where
  "must_register [] reg = Some reg"
| "must_register (m # ms) reg = (if mt_name m \<in> set reg then None else must_register ms (reg @ [mt_name m]))"

definition Registry :: "string list \<Rightarrow> string list option" where
  "Registry base = must_register all_metrics base"

section \<open>The service levels\<close>

definition SLORequestAcceptP99 :: duration where
  "SLORequestAcceptP99 = 100 * millisecond"

definition SLOMatchLatencyP99 :: duration where
  "SLOMatchLatencyP99 = 5 * second"

section \<open>Samples\<close>

definition sample_ok :: "string \<times> string list \<times> rat \<Rightarrow> bool" where
  "sample_ok = (\<lambda>(v, labels, x).
     case find (\<lambda>m. mt_var m = v) all_metrics of
       None \<Rightarrow> False
     | Some m \<Rightarrow> length labels = length (mt_labels m) \<and> (mt_kind m = CounterVec \<longrightarrow> 0 \<le> x))"

text \<open>What \<open>internal/api\<close> observes, from the record of its state.\<close>

definition api_samples :: "api_state \<Rightarrow> (string \<times> string list \<times> rat) list" where
  "api_samples a =
     map (\<lambda>(route, class). (''HTTPRequestsTotal'', [route, class], 1)) (as_http a) @
     map (\<lambda>(tenant, result). (''RideRequestsTotal'', [tenant, result], 1)) (as_rides a) @
     map (\<lambda>(tenant, d). (''RequestAcceptSeconds'', [tenant], of_int d / of_int second)) (as_seconds a)"

lemmas metric_lists = all_metrics_def ingestion_metrics_def request_metrics_def matching_metrics_def queue_metrics_def
  dependency_metrics_def http_metrics_def metric_of_def

lemma sample_ok_eqs [simp]:
  "sample_ok (''BatchesTotal'', [a, b], x) = (0 \<le> x)" "sample_ok (''BatchSize'', [a], x)"
  "sample_ok (''SolveSeconds'', [a, b], x)" "sample_ok (''RidersTotal'', [a, b], x) = (0 \<le> x)"
  "sample_ok (''MatchLatencySeconds'', [a], x)" "sample_ok (''DependencyErrorsTotal'', [a, b], x) = (0 \<le> x)"
  "sample_ok (''HTTPRequestsTotal'', [a, b], x) = (0 \<le> x)" "sample_ok (''RideRequestsTotal'', [a, b], x) = (0 \<le> x)"
  "sample_ok (''RequestAcceptSeconds'', [a], x)"
  by (simp_all add: sample_ok_def metric_lists)

definition counts_ok :: "BatchMetrics \<Rightarrow> bool" where
  "counts_ok m \<longleftrightarrow> 0 \<le> bm_Matched m \<and> 0 \<le> bm_Requeued m \<and> 0 \<le> bm_Exhausted m \<and> 0 \<le> bm_DeadLettered m"

lemma samples_ok: "counts_ok m \<Longrightarrow> list_all sample_ok (samples cfg m)"
  by (simp add: samples_def counts_ok_def Let_def split: option.split)

text \<open>A metrics sink that checks every sample, and does something else, \<open>g\<close>, with a bad one.\<close>

definition guarded :: "((string \<times> string list \<times> rat) list \<Rightarrow> 's \<Rightarrow> 's) \<Rightarrow> 's Batcher \<Rightarrow> 's Batcher" where
  "guarded g b = b\<lparr>prom := (\<lambda>xs s. if list_all sample_ok xs then prom b xs s else g xs s)\<rparr>"

lemma guarded_sel [simp]:
  "b_cfg (guarded g b) = b_cfg b" "b_queue (guarded g b) = b_queue b" "b_drivers (guarded g b) = b_drivers b"
  "b_engine (guarded g b) = b_engine b" "map_order (guarded g b) = map_order b"
  by (simp_all add: guarded_def)

lemma emit_guarded:
  assumes "counts_ok m"
  shows "emit (guarded g b) m started s = emit b m started s"
proof -
  have "counts_ok (finish_metrics b m started s)" using assms by (simp add: counts_ok_def finish_metrics_def Let_def)
  then have "list_all sample_ok (samples (b_cfg b) (finish_metrics b m started s))" by (rule samples_ok)
  moreover have "finish_metrics (guarded g b) m started s = finish_metrics b m started s"
    by (simp add: finish_metrics_def)
  moreover have "prom (guarded g b) xs s = prom b xs s" if "list_all sample_ok xs" for xs
    using that by (simp add: guarded_def)
  ultimately show ?thesis by (simp add: emit_def Let_def split: option.split)
qed

lemma counts_ok_new: "counts_ok (new_metrics i r n w)"
  by (simp add: counts_ok_def new_metrics_def)

lemma counts_ok_update [simp]:
  "counts_ok m \<Longrightarrow> counts_ok (m\<lparr>bm_Err := e\<rparr>)" "counts_ok m \<Longrightarrow> counts_ok (m\<lparr>bm_SolveDuration := d\<rparr>)"
  "counts_ok m \<Longrightarrow> counts_ok (m\<lparr>bm_Drivers := k\<rparr>)" "counts_ok m \<Longrightarrow> 0 \<le> k \<Longrightarrow> counts_ok (m\<lparr>bm_Requeued := k\<rparr>)"
  "counts_ok m \<Longrightarrow> 0 \<le> k \<Longrightarrow> counts_ok (m\<lparr>bm_DeadLettered := k\<rparr>)"
  by (simp_all add: counts_ok_def)

lemma settle_guarded:
  assumes "counts_ok m"
  shows "settle_batch (guarded g b) msgs resp m started w = settle_batch b msgs resp m started w"
proof -
  obtain s st where w: "w = (s, st)" by force
  obtain s1 acks rq ex where l: "settle_loop (b_queue b) (MaxMatchAttempts (b_cfg b)) (matched_set resp) msgs s = (s1, acks, rq, ex)"
    by (metis prod.exhaust)
  obtain s2 err where a: "ack_all (b_queue b) acks s1 = (s2, err)" by force
  have "0 \<le> rq" "0 \<le> ex" using settle_loop_counts [OF l] by auto
  then have c: "counts_ok (m\<lparr>bm_Err := e, bm_Matched := int (card M), bm_Unmatched := u, bm_Requeued := rq, bm_Exhausted := ex\<rparr>)"
    for e M u using assms by (simp add: counts_ok_def)
  show ?thesis by (simp add: settle_batch_def w l a Let_def emit_guarded [OF c])
qed

lemma solve_guarded:
  assumes "counts_ok m"
  shows "solve_batch (guarded g b) ctx i msgs ds m started w = solve_batch b ctx i msgs ds m started w"
proof -
  have r: "batch_request (guarded g b) i msgs ds = batch_request b i msgs ds" by (simp add: batch_request_def)
  obtain s st where w: "w = (s, st)" by force
  show ?thesis
    using assms by (simp add: solve_batch_def w r Let_def emit_guarded settle_guarded split: prod.split sum.split)
qed


text \<open>Registration does not panic either, whatever the client library registers under other names.\<close>

lemma must_register_ok:
  "distinct (map mt_name ms) \<Longrightarrow> set (map mt_name ms) \<inter> set reg = {} \<Longrightarrow> must_register ms reg = Some (reg @ map mt_name ms)"
  by (induction ms arbitrary: reg) auto

lemma registry_complete:
  assumes "set (map mt_name all_metrics) \<inter> set base = {}"
  shows "Registry base = Some (base @ map mt_name all_metrics)"
proof -
  have "distinct (map mt_name all_metrics)" by (simp add: metric_lists)
  then show ?thesis using must_register_ok assms by (simp add: Registry_def)
qed

lemma api_samples_ok: "list_all sample_ok (api_samples a)"
  by (auto simp: api_samples_def list_all_iff)

text \<open>A bucket of each latency histogram ends exactly at its service level, so whether it is met can be
  read off without interpolation.\<close>

lemma slo_on_bucket:
  "\<exists>m\<in>set all_metrics. mt_var m = ''RequestAcceptSeconds'' \<and>
     (\<exists>bs. mt_kind m = HistogramVec bs \<and> of_int SLORequestAcceptP99 / of_int second \<in> set bs)"
  "\<exists>m\<in>set all_metrics. mt_var m = ''MatchLatencySeconds'' \<and>
     (\<exists>bs. mt_kind m = HistogramVec bs \<and> of_int SLOMatchLatencyP99 / of_int second \<in> set bs)"
  by (simp_all add: metric_lists SLORequestAcceptP99_def SLOMatchLatencyP99_def)

text \<open>The batcher and the service never touch the gauges of the queue: they stay at their initial
  values, although the alerts in \<open>docs/Observability.md\<close> are written on them.\<close>

lemma queue_gauges_never_set:
  "m \<in> set queue_metrics \<Longrightarrow> mt_var m \<notin> fst ` set (samples cfg bm) \<union> fst ` set (api_samples a)"
  by (auto simp: queue_metrics_def metric_of_def samples_def api_samples_def Let_def split: option.splits if_splits)

end
