(* ===== verification/Lifecycle.thy ===== *)
theory Lifecycle
  imports Daemons_Properties Queue_Ledger Metrics
begin

text \<open>
  The daemons after their start-up: the admin port with its metrics, \<open>requestd\<close> serving and draining, and
  \<open>batcherd\<close> with the main loop and the reclaimer of its batcher up to the end of \<open>main\<close>. The steps
  interleave the goroutines. \<open>http.Server.Shutdown\<close> is modelled by what \<open>net/http\<close> documents: no new requests,
  and it returns \<open>nil\<close> only when none is in flight. When a deadline strikes is open.
\<close>

section \<open>The admin port\<close>

text \<open>What all three daemons do before anything else: \<open>None\<close> is a panic. \<open>base\<close> are the collectors
  of the client library.\<close>

definition open_admin :: "string list \<Rightarrow> string \<Rightarrow> string \<Rightarrow> (AdminServer \<times> string list) option" where
  "open_admin base service adminAddr =
     (let admin = NewAdmin \<lparr>ad_Addr = adminAddr, ad_DisableProfiling = False, ad_ServiceName = service\<rparr>
      in case Registry base of
           None \<Rightarrow> None
         | Some reg \<Rightarrow> map_option (\<lambda>srv. (srv, reg)) (admin_Handle ''GET /metrics'' admin))"

lemma open_admin_serves:
  assumes "set (map mt_name all_metrics) \<inter> set base = {}"
  shows "\<exists>srv reg. open_admin base service addr = Some (srv, reg) \<and> ''GET /metrics'' \<in> set (adm_routes srv) \<and>
    set (map mt_name all_metrics) \<subseteq> set reg \<and> ad_Addr (adm_cfg srv) \<noteq> []"
  using registry_complete [OF assms]
  by (auto simp: open_admin_def NewAdmin_def admin_Handle_def AdminDefaultConfig_def Let_def)

section \<open>cmd/requestd\<close>

text \<open>\<open>Stopped clean\<close>: \<open>main\<close> has returned, after \<open>Shutdown\<close> returned \<open>nil\<close> or its error.\<close>

datatype http_phase = Serving | ShuttingDown | Stopped bool

text \<open>\<open>rr_arrived\<close> is the history of the requests whose handling began, \<open>rr_answers\<close> of the answered ones
  with the world in which their handler ended.\<close>

record 's requestd_run =
  rr_phase :: http_phase
  rr_world :: "api_state \<times> 's"
  rr_inflight :: "request list"
  rr_arrived :: "request list"
  rr_answers :: "(request \<times> response) list"

definition requestd_start :: "api_state \<Rightarrow> 's \<Rightarrow> 's requestd_run" where
  "requestd_start a s = \<lparr>rr_phase = Serving, rr_world = (a, s), rr_inflight = [], rr_arrived = [], rr_answers = []\<rparr>"

text \<open>The signal and a failure of the listener, which calls \<open>stop()\<close>, end the serving alike.\<close>

inductive requestd_step :: "'s ApiServer \<Rightarrow> 's requestd_run \<Rightarrow> 's requestd_run \<Rightarrow> bool"
  for srv where
    arrives: "rr_phase st = Serving \<Longrightarrow>
      requestd_step srv st (st\<lparr>rr_inflight := rr_inflight st @ [r], rr_arrived := rr_arrived st @ [r]\<rparr>)"
  | answers: "rr_phase st = Serving \<or> rr_phase st = ShuttingDown \<Longrightarrow> rr_inflight st = xs @ r # ys \<Longrightarrow>
      Routes srv r fresh_response (rr_world st) = (w', resp, out) \<Longrightarrow>
      requestd_step srv st (st\<lparr>rr_world := w', rr_inflight := xs @ ys, rr_answers := rr_answers st @ [(r, resp)]\<rparr>)"
  | stop_called: "rr_phase st = Serving \<Longrightarrow> requestd_step srv st (st\<lparr>rr_phase := ShuttingDown\<rparr>)"
  | drained: "rr_phase st = ShuttingDown \<Longrightarrow> rr_inflight st = [] \<Longrightarrow> requestd_step srv st (st\<lparr>rr_phase := Stopped True\<rparr>)"
  | deadline: "rr_phase st = ShuttingDown \<Longrightarrow> requestd_step srv st (st\<lparr>rr_phase := Stopped False\<rparr>)"

definition requestd_ok :: "'s requestd_run \<Rightarrow> bool" where
  "requestd_ok st \<longleftrightarrow>
     mset (rr_arrived st) = mset (rr_inflight st) + mset (map fst (rr_answers st)) \<and>
     (rr_phase st = Stopped True \<longrightarrow> rr_inflight st = [])"

lemma requestd_step_ok: "requestd_step srv st st' \<Longrightarrow> requestd_ok st \<Longrightarrow> requestd_ok st'"
  by (induction rule: requestd_step.induct) (auto simp: requestd_ok_def)

text \<open>A clean stop drops nobody: every request whose handling began was answered; an unclean one leaves
  exactly the unanswered ones in flight.\<close>

theorem requestd_drains:
  assumes "(requestd_step srv)\<^sup>*\<^sup>* (requestd_start a s) st"
  shows "mset (rr_arrived st) = mset (rr_inflight st) + mset (map fst (rr_answers st)) \<and>
    (rr_phase st = Stopped True \<longrightarrow> mset (rr_arrived st) = mset (map fst (rr_answers st)))"
proof -
  from assms have "requestd_ok st"
  proof (induction rule: rtranclp_induct)
    case base
    show ?case by (simp add: requestd_ok_def requestd_start_def)
  next
    case (step y z)
    then show ?case by (blast intro: requestd_step_ok)
  qed
  then show ?thesis by (auto simp: requestd_ok_def)
qed

section \<open>cmd/batcherd\<close>

text \<open>The process: the main loop, whether the reclaimer still runs, whether the signal arrived, and how \<open>main\<close>
  ended (\<open>Some True\<close>: after \<open>b.Done()\<close>). The deferred wait of \<open>Run\<close> joins the reclaimer before \<open>Done\<close>.
  An iteration of the loop or a tick of the reclaimer is one step here, a path of single queue operations in the
  protocol; \<open>d\<close> is what the context says during the iteration, since the signal may arrive within it.\<close>

record 's batcherd_run =
  br_loop :: "'s loop"
  br_reclaiming :: bool
  br_signalled :: bool
  br_ended :: "bool option"

definition batcherd_start :: "'s Batcher \<Rightarrow> 's \<Rightarrow> 's batcherd_run" where
  "batcherd_start b s = \<lparr>br_loop = loop_start b s, br_reclaiming = True, br_signalled = False, br_ended = None\<rparr>"

inductive batcherd_step :: "'s Batcher \<Rightarrow> 's batcherd_run \<Rightarrow> 's batcherd_run \<Rightarrow> bool"
  for b where
    iterates: "br_ended p = None \<Longrightarrow> (br_signalled p \<Longrightarrow> d = (\<lambda>_. True)) \<Longrightarrow> run_step b None d (br_loop p) x l' \<Longrightarrow>
      batcherd_step b p (p\<lparr>br_loop := l',
        br_signalled := br_signalled p \<or> d (fst (lp_world (br_loop p))) \<or> d (fst (lp_world l'))\<rparr>)"
  | reclaims: "br_ended p = None \<Longrightarrow> br_reclaiming p \<Longrightarrow> reclaim_tick b None (lp_world (br_loop p)) = w' \<Longrightarrow>
      batcherd_step b p (p\<lparr>br_loop := (br_loop p)\<lparr>lp_world := w'\<rparr>\<rparr>)"
  | reclaimer_returns: "br_ended p = None \<Longrightarrow> br_signalled p \<Longrightarrow> batcherd_step b p (p\<lparr>br_reclaiming := False\<rparr>)"
  | signal: "br_ended p = None \<Longrightarrow> batcherd_step b p (p\<lparr>br_signalled := True\<rparr>)"
  | done_closed: "br_ended p = None \<Longrightarrow> br_signalled p \<Longrightarrow> lp_returned (br_loop p) \<Longrightarrow> \<not> br_reclaiming p \<Longrightarrow>
      batcherd_step b p (p\<lparr>br_ended := Some True\<rparr>)"
  | gives_up: "br_ended p = None \<Longrightarrow> br_signalled p \<Longrightarrow> batcherd_step b p (p\<lparr>br_ended := Some False\<rparr>)"

text \<open>What holds of the process: what it did is a path of the queue protocol, it keeps only messages that were
  handed to it, and when the loop has returned it keeps none.\<close>

definition batcherd_ok ::
  "'s Queue set \<Rightarrow> 's Client set \<Rightarrow> nat \<Rightarrow> ('s \<Rightarrow> 's \<Rightarrow> bool) \<Rightarrow> 's \<Rightarrow> 's batcherd_run \<Rightarrow> bool" where
  "batcherd_ok Qs Es N idle s0 p \<longleftrightarrow>
     (\<exists>ss H A. op_path Qs Es N idle (s0, {}, {}) ss (fst (lp_world (br_loop p)), H, A) \<and> set (lp_pending (br_loop p)) \<subseteq> H) \<and>
     (lp_returned (br_loop p) \<longrightarrow> lp_pending (br_loop p) = []) \<and>
     (br_ended p = Some True \<longrightarrow> lp_returned (br_loop p))"

lemma run_step_returned: "run_step b ctx d l x l' \<Longrightarrow> lp_returned l' \<Longrightarrow> lp_pending l' = []"
  by (induction rule: run_step.induct)
    (auto simp: loop_shutdown_def loop_timer_def loop_default_def new_window_def Let_def split: if_splits prod.splits sum.splits)

lemma batcherd_step_ok:
  assumes "batcher_actor b Qs Es N idle" "batcherd_step b p p'" "batcherd_ok Qs Es N idle s0 p"
  shows "batcherd_ok Qs Es N idle s0 p'"
proof -
  obtain ss H A where path: "op_path Qs Es N idle (s0, {}, {}) ss (fst (lp_world (br_loop p)), H, A)"
    and pend: "set (lp_pending (br_loop p)) \<subseteq> H" using assms(3) by (auto simp: batcherd_ok_def)
  from assms(2) show ?thesis
  proof (cases rule: batcherd_step.cases)
    case (iterates d x l')
    have "\<not> lp_returned (br_loop p)" using iterates(4) by (auto elim: run_step.cases)
    with assms(3) have e: "br_ended p \<noteq> Some True" by (auto simp: batcherd_ok_def)
    from iterates(4) have "run_step b None d (br_loop p) (fst x, snd x) l'" by simp
    from batcher_actor.run_step_reaches [OF assms(1) this pend, of A] obtain H' A' ss' where
      "op_path Qs Es N idle (fst (lp_world (br_loop p)), H, A) ss' (fst (lp_world l'), H', A')" "set (lp_pending l') \<subseteq> H'"
      unfolding batcher_actor.reaches_def [OF assms(1)] by blast
    with op_path_append [OF this(1) path] run_step_returned [OF iterates(4)] e iterates(1) show ?thesis
      unfolding batcherd_ok_def by auto
  next
    case (reclaims w')
    obtain s st s' st' where w: "lp_world (br_loop p) = (s, st)" "w' = (s', st')" by (metis prod.exhaust)
    with reclaims(4) have "reclaim_tick b None (s, st) = (s', st')" by simp
    from batcher_actor.reclaim_tick_reaches [OF assms(1) this, of A H] obtain H' A' ss' where
      "op_path Qs Es N idle (s, H, A) ss' (s', H', A')" "H \<subseteq> H'"
      unfolding batcher_actor.reaches_def [OF assms(1)] by blast
    with op_path_append [OF this(1)] path w pend assms(3) reclaims(1) show ?thesis
      unfolding batcherd_ok_def by fastforce
  qed (use assms(3) in \<open>auto simp: batcherd_ok_def\<close>)
qed



end
