(* ===== verification/Float_Rounding.thy ===== *)
theory Float_Rounding
  imports Complex_Main "HOL-Library.Log_Nat"
begin

text \<open>
  The rounding of \<open>float64\<close> arithmetic: the nearest number with 53 significant bits, ties to even, for
  values in the normal range. It is monotone and keeps a value in its binade, which is all that the
  code's uses of it need.
\<close>

definition round_even :: "rat \<Rightarrow> int" where
  "round_even x =
     (let f = \<lfloor>x\<rfloor>; d = x - of_int f
      in if d < 1 / 2 then f else if 1 / 2 < d then f + 1 else if even f then f else f + 1)"

lemma round_even_bounds: "\<lfloor>x\<rfloor> \<le> round_even x" "round_even x \<le> \<lfloor>x\<rfloor> + 1"
  by (simp_all add: round_even_def Let_def)

lemma round_even_mono: "x \<le> y \<Longrightarrow> round_even x \<le> round_even y"
proof (cases "\<lfloor>x\<rfloor> = \<lfloor>y\<rfloor>")
  case True
  assume "x \<le> y"
  with True show ?thesis by (auto simp: round_even_def Let_def)
next
  case False
  assume "x \<le> y"
  then have "\<lfloor>x\<rfloor> \<le> \<lfloor>y\<rfloor>" by (rule floor_mono)
  with False have "\<lfloor>x\<rfloor> + 1 \<le> \<lfloor>y\<rfloor>" by simp
  with round_even_bounds [of x] round_even_bounds [of y] show ?thesis by linarith
qed

lemma round_even_of_int [simp]: "round_even (of_int n) = n"
  by (simp add: round_even_def)

text \<open>The binary exponent of a positive rational.\<close>

definition ilog2 :: "rat \<Rightarrow> int" where
  "ilog2 x =
     (let (a, b) = quotient_of x; k = int (floorlog 2 (nat a)) - int (floorlog 2 (nat b))
      in if 2 powi k \<le> x then k else k - 1)"

lemma powi_2_mono: "i \<le> j \<Longrightarrow> (2 :: rat) powi i \<le> 2 powi j"
  by (rule power_int_increasing) auto

lemma powi_2_div: "(2 :: rat) powi i / 2 powi j = 2 powi (i - j)"
  by (simp add: power_int_diff)

lemma ilog2_bounds:
  assumes "0 < x"
  shows "2 powi ilog2 x \<le> x" "x < 2 powi (ilog2 x + 1)"
proof -
  obtain a b where q: "quotient_of x = (a, b)" by force
  then have b: "0 < b" by (rule quotient_of_denom_pos)
  have x: "x = of_int a / of_int b" by (rule quotient_of_div [OF q])
  with assms b have a: "0 < a" by (simp add: zero_less_divide_iff)
  define m n where "m = floorlog 2 (nat a)" and "n = floorlog 2 (nat b)"
  have A: "2 ^ (m - 1) \<le> nat a" "nat a < 2 ^ m" and B: "2 ^ (n - 1) \<le> nat b" "nat b < 2 ^ n"
    using floorlog_bounds [of "nat a" 2] floorlog_bounds [of "nat b" 2] a b by (auto simp: m_def n_def)
  have mn: "0 < m" "0 < n" using A(2) B(2) a b by (auto intro!: gr0I)
  have pw: "(2 :: rat) powi int i = of_nat (2 ^ i)" for i by (simp add: power_int_of_nat)
  have pw': "(2 :: rat) powi (int i - 1) = of_nat (2 ^ (i - 1))" if "0 < i" for i
    using that pw [of "i - 1"] by (simp add: of_nat_diff)
  have r: "(of_int c :: rat) = of_nat (nat c)" if "0 < c" for c using that by simp
  have A': "2 powi (int m - 1) \<le> (of_int a :: rat)" "(of_int a :: rat) < 2 powi int m"
    unfolding r [OF a] pw pw' [OF mn(1)] using A by (simp_all only: of_nat_le_iff of_nat_less_iff)
  have B': "2 powi (int n - 1) \<le> (of_int b :: rat)" "(of_int b :: rat) < 2 powi int n"
    unfolding r [OF b] pw pw' [OF mn(2)] using B by (simp_all only: of_nat_le_iff of_nat_less_iff)
  let ?k = "int m - int n"
  have k: "ilog2 x = (if 2 powi ?k \<le> x then ?k else ?k - 1)" by (simp add: ilog2_def q m_def n_def)
  have pos: "(0 :: rat) < 2 powi i" for i by simp
  have "x < 2 powi int m / 2 powi (int n - 1)"
    unfolding x using A' B' a b by (intro frac_less) auto
  also have "\<dots> = 2 powi (?k + 1)" unfolding powi_2_div by (simp add: algebra_simps)
  finally have up: "x < 2 powi (?k + 1)" .
  have "2 powi (int m - 1) / 2 powi int n \<le> x"
    unfolding x using A' B' a b pos by (intro frac_le) auto
  then have lo: "2 powi (?k - 1) \<le> x" unfolding powi_2_div by (simp add: algebra_simps)
  show "2 powi ilog2 x \<le> x" "x < 2 powi (ilog2 x + 1)" using k up lo by (auto split: if_splits)
qed

definition f64_round :: "rat \<Rightarrow> rat" where
  "f64_round x = (if x \<le> 0 then 0 else let u = 2 powi (ilog2 x - 52) in of_int (round_even (x / u)) * u)"

text \<open>A rounded value stays in the binade of the value.\<close>

lemma f64_round_binade:
  assumes "0 < x"
  shows "2 powi ilog2 x \<le> f64_round x" "f64_round x \<le> 2 powi (ilog2 x + 1)"
proof -
  let ?u = "(2 :: rat) powi (ilog2 x - 52)"
  have u: "0 < ?u" by simp
  have sh: "(2 :: rat) powi (ilog2 x + j) = 2 powi (52 + j) * ?u" for j by (simp flip: power_int_add add: ac_simps)
  have f: "f64_round x = of_int (round_even (x / ?u)) * ?u" using assms by (simp add: f64_round_def Let_def)
  have lo: "of_int (2 ^ 52) \<le> x / ?u" using ilog2_bounds(1) [OF assms] sh [of 0] u by (simp add: pos_le_divide_eq)
  have hi: "x / ?u \<le> of_int (2 ^ 53)" using ilog2_bounds(2) [OF assms] sh [of 1] u by (simp add: pos_divide_le_eq)
  have "2 ^ 52 \<le> round_even (x / ?u)" "round_even (x / ?u) \<le> 2 ^ 53"
    using round_even_mono [OF lo] round_even_mono [OF hi] by (simp_all only: round_even_of_int)
  then have "(2 ^ 52 :: rat) \<le> of_int (round_even (x / ?u))" "of_int (round_even (x / ?u)) \<le> (2 ^ 53 :: rat)"
    by (metis of_int_le_iff of_int_numeral of_int_power)+
  then show "2 powi ilog2 x \<le> f64_round x" "f64_round x \<le> 2 powi (ilog2 x + 1)"
    using sh [of 0] sh [of 1] u f by (auto simp: mult_right_mono)
qed

lemma ilog2_mono:
  assumes "0 < x" "x \<le> y"
  shows "ilog2 x \<le> ilog2 y"
proof (rule ccontr)
  assume "\<not> ilog2 x \<le> ilog2 y"
  then have "(2 :: rat) powi (ilog2 y + 1) \<le> 2 powi ilog2 x" by (intro powi_2_mono) simp
  with ilog2_bounds(2) [of y] ilog2_bounds(1) [of x] assms show False by simp
qed

lemma f64_round_mono:
  assumes "x \<le> y"
  shows "f64_round x \<le> f64_round y"
proof (cases "0 < x")
  case False
  have "0 \<le> f64_round y"
  proof (cases "0 < y")
    case True
    with f64_round_binade(1) [OF True] show ?thesis by (metis order_trans zero_le_power_int zero_le_numeral)
  qed (simp add: f64_round_def)
  with False show ?thesis by (simp add: f64_round_def)
next
  case True
  with assms have y: "0 < y" by simp
  show ?thesis
  proof (cases "ilog2 x = ilog2 y")
    case same: True
    have "x / 2 powi (ilog2 y - 52) \<le> y / 2 powi (ilog2 y - 52)" using assms by (simp add: divide_right_mono)
    from round_even_mono [OF this] True y same show ?thesis by (simp add: f64_round_def Let_def)
  next
    case False
    with ilog2_mono [OF True assms] have "(2 :: rat) powi (ilog2 x + 1) \<le> 2 powi ilog2 y" by (intro powi_2_mono) simp
    with f64_round_binade(2) [OF True] f64_round_binade(1) [OF y] show ?thesis by linarith
  qed
qed

text \<open>A value with at most 53 significant bits is kept.\<close>

lemma f64_round_exact:
  assumes "0 < x" "x = of_int n * 2 powi (ilog2 x - 52)"
  shows "f64_round x = x"
proof -
  have "x / 2 powi (ilog2 x - 52) = of_int n" using assms(2) by (metis nonzero_mult_div_cancel_right power_int_not_zero zero_neq_numeral)
  then show ?thesis using assms by (simp add: f64_round_def Let_def)
qed

text \<open>Powers of two in particular.\<close>

lemma ilog2_powi: "ilog2 (2 powi k) = k"
proof -
  have "(2 :: rat) powi ilog2 (2 powi k) \<le> 2 powi k" "(2 :: rat) powi k < 2 powi (ilog2 (2 powi k) + 1)"
    using ilog2_bounds [of "2 powi k"] by simp_all
  moreover have "(2 :: rat) powi k < 2 powi ilog2 (2 powi k)" if "k < ilog2 (2 powi k)"
    using that by (intro power_int_strict_increasing) simp_all
  moreover have "(2 :: rat) powi (ilog2 (2 powi k) + 1) \<le> 2 powi k" if "ilog2 (2 powi k) < k"
    using that by (intro powi_2_mono) simp
  ultimately show ?thesis by fastforce
qed

lemma f64_round_powi: "f64_round (2 powi k) = 2 powi k"
proof (rule f64_round_exact)
  show "(2 :: rat) powi k = of_int (2 ^ 52) * 2 powi (ilog2 (2 powi k) - 52)"
    by (simp add: ilog2_powi power_int_diff)
qed simp

text \<open>The rounding of a value of either sign is symmetric.\<close>

definition f64 :: "rat \<Rightarrow> rat" where
  "f64 x = (if x < 0 then - f64_round (- x) else f64_round x)"

lemma f64_round_error:
  assumes "0 < x"
  shows "\<bar>f64_round x - x\<bar> \<le> x / 2 ^ 52"
proof -
  let ?u = "(2 :: rat) powi (ilog2 x - 52)"
  have u: "0 < ?u" by simp
  have "\<bar>of_int (round_even y) - y\<bar> \<le> 1" for y :: rat
    using of_int_floor_le [of y] floor_correct [of y] round_even_bounds [of y] by (auto simp: round_even_def Let_def)
  then have "\<bar>of_int (round_even (x / ?u)) - x / ?u\<bar> * ?u \<le> 1 * ?u" using u by (intro mult_right_mono) simp_all
  moreover have "\<bar>y - x / ?u\<bar> * ?u = \<bar>y * ?u - x\<bar>" for y
  proof -
    have "\<bar>y - x / ?u\<bar> * ?u = \<bar>(y - x / ?u) * ?u\<bar>" using u by (simp only: abs_mult abs_of_pos)
    also have "(y - x / ?u) * ?u = y * ?u - x" by (simp add: left_diff_distrib)
    finally show ?thesis .
  qed
  moreover have "of_int (round_even (x / ?u)) * ?u = f64_round x" using assms by (simp add: f64_round_def Let_def)
  ultimately have "\<bar>f64_round x - x\<bar> \<le> ?u" by (simp only: mult_1)
  also have "?u = 2 powi ilog2 x / 2 ^ 52" by (simp add: power_int_diff)
  also have "\<dots> \<le> x / 2 ^ 52" using ilog2_bounds(1) [OF assms] by (simp add: divide_right_mono)
  finally show ?thesis .
qed

lemma f64_round_abs: "0 < x \<Longrightarrow> \<bar>f64_round x\<bar> \<le> x * (1001 / 1000)"
proof -
  assume x: "0 < x"
  then have "x / 2 ^ 52 \<le> x / 1000" by (intro divide_left_mono) simp_all
  with f64_round_error [OF x] have "\<bar>f64_round x - x\<bar> \<le> x / 1000" by (rule order_trans)
  with x show ?thesis unfolding abs_le_iff by simp
qed

lemma f64_abs: "\<bar>f64 x\<bar> \<le> \<bar>x\<bar> * (1001 / 1000)"
  using f64_round_abs [of x] f64_round_abs [of "- x"]
  by (cases x "0 :: rat" rule: linorder_cases) (auto simp: f64_def f64_round_def [of 0])

lemma f64_abs_le: "\<bar>x\<bar> \<le> b \<Longrightarrow> \<bar>f64 x\<bar> \<le> b * (1001 / 1000)"
  by (rule order_trans [OF f64_abs]) simp

end
