(* ===== verification/Loadtest.thy ===== *)
theory Loadtest
  imports Engine Float_Rounding Http
begin

text \<open>
  \<open>cmd/loadtest\<close>: the latency recorder with its percentiles, the classification of outcomes, and the
  complexity sweep against the engine. The random numbers of the batches (\<open>math/rand\<close>) are a
  parameter, and so are the clock and the engine's own timing of a solve. What the tool prints and
  the prose of the report files are not modelled; the pipeline mode is in \<open>Loadtest_Pipeline\<close>.
\<close>

section \<open>The recorder\<close>

record stats =
  ls_Count :: int
  ls_Min :: duration
  ls_P50 :: duration
  ls_P95 :: duration
  ls_P99 :: duration
  ls_P999 :: duration
  ls_Max :: duration
  ls_Mean :: duration

definition no_stats :: stats where
  "no_stats = \<lparr>ls_Count = 0, ls_Min = 0, ls_P50 = 0, ls_P95 = 0, ls_P99 = 0, ls_P999 = 0, ls_Max = 0, ls_Mean = 0\<rparr>"

text \<open>\<open>int(p * float64(n))\<close>, clamped to the last index. The literal and the product are rounded.\<close>

definition percentile_index :: "rat \<Rightarrow> nat \<Rightarrow> nat" where
  "percentile_index p n =
     (let idx = nat \<lfloor>f64_round (f64_round p * f64_round (of_nat n))\<rfloor> in if n \<le> idx then n - 1 else idx)"

definition sum_durations :: "duration list \<Rightarrow> duration" where
  "sum_durations ds = fold (\<lambda>d total. wrap64 (total + d)) ds 0"

definition recorder_stats :: "duration list \<Rightarrow> stats" where
  "recorder_stats samples =
     (if samples = [] then no_stats
      else
        let s = sort samples; n = length s; pct = (\<lambda>p. s ! percentile_index p n)
        in \<lparr>ls_Count = int n, ls_Min = s ! 0, ls_P50 = pct (50 / 100), ls_P95 = pct (95 / 100), ls_P99 = pct (99 / 100),
            ls_P999 = pct (999 / 1000), ls_Max = s ! (n - 1), ls_Mean = go_div (sum_durations s) (int n)\<rparr>)"

text \<open>\<open>Duration.Round\<close>: to the nearest multiple, halves away from zero, clamped on overflow.\<close>

definition go_rem :: "int \<Rightarrow> int \<Rightarrow> int" where
  "go_rem a b = a - b * go_div a b"

definition duration_round :: "duration \<Rightarrow> duration \<Rightarrow> duration" where
  "duration_round d m =
     (if m \<le> 0 then d
      else if d < 0 then
        let r = - go_rem d m in
        if r + r < m then d + r
        else let d1 = wrap64 (d - m + r) in if d1 < d then d1 else - (2 ^ 63)
      else
        let r = go_rem d m in
        if r + r < m then d - r
        else let d1 = wrap64 (d + m - r) in if d < d1 then d1 else 2 ^ 63 - 1)"

definition lt_round :: "duration \<Rightarrow> duration" where
  "lt_round d =
     (if second < d then duration_round d millisecond
      else if millisecond < d then duration_round d 10000
      else duration_round d 1000)"

section \<open>Outcomes\<close>

definition authHeader :: "string \<Rightarrow> header" where
  "authHeader apiKey = (if apiKey = [] then [] else [(''X-API-Key'', apiKey)])"

text \<open>A driver's dial: the error and, if there was one, the status of the response.\<close>

record ramp_counts =
  rc_connected :: int
  rc_failed :: int
  rc_refused :: int

definition count_dial :: "goerr option \<times> int option \<Rightarrow> ramp_counts \<Rightarrow> ramp_counts" where
  "count_dial = (\<lambda>(err, resp) c.
     if err \<noteq> None then (if resp = Some 503 then c\<lparr>rc_refused := rc_refused c + 1\<rparr> else c\<lparr>rc_failed := rc_failed c + 1\<rparr>)
     else c\<lparr>rc_connected := rc_connected c + 1\<rparr>)"

record submit_counts =
  sc_accepted :: int
  sc_rejected :: int
  sc_failed :: int
  sc_latency :: "duration list"

definition count_submit :: "(goerr + int) \<times> duration \<Rightarrow> submit_counts \<Rightarrow> submit_counts" where
  "count_submit = (\<lambda>(res, elapsed) c.
     case res of
       Inl _ \<Rightarrow> c\<lparr>sc_failed := sc_failed c + 1\<rparr>
     | Inr code \<Rightarrow>
         let c = c\<lparr>sc_latency := sc_latency c @ [elapsed]\<rparr> in
         if code = 202 then c\<lparr>sc_accepted := sc_accepted c + 1\<rparr>
         else if 500 \<le> code then c\<lparr>sc_failed := sc_failed c + 1\<rparr>
         else c\<lparr>sc_rejected := sc_rejected c + 1\<rparr>)"

text \<open>The interval of the submissions, \<open>None\<close> for a panic: a rate of zero divides by zero, and
  \<open>NewTicker\<close> panics on an interval that is not positive.\<close>

definition submit_interval :: "int \<Rightarrow> duration option" where
  "submit_interval rate =
     (if rate = 0 then None else let interval = go_div second rate in if interval \<le> 0 then None else Some interval)"

section \<open>The sweep\<close>

record sweepPoint =
  sp_Series :: string
  sp_Riders :: int
  sp_Drivers :: int
  sp_K :: int
  sp_Solve :: stats

text \<open>\<open>%0wd\<close> of a non-negative number.\<close>

definition pad_dec :: "nat \<Rightarrow> nat \<Rightarrow> string" where
  "pad_dec w n = (let d = dec_nat n in replicate (w - length d) (CHR ''0'') @ d)"

text \<open>\<open>draw seed i\<close> is the \<open>i\<close>-th \<open>Float64\<close> of the generator with that seed; a point takes two draws, the
  latitude first. The operations are rounded one by one.\<close>

definition sweep_coord :: "rat \<Rightarrow> rat \<Rightarrow> rat" where
  "sweep_coord centre u = f64 (f64 centre + f64 (f64 (u - 1 / 2) * f64 (18 / 100)))"

definition sweep_point :: "(nat \<Rightarrow> rat) \<Rightarrow> nat \<Rightarrow> LatLng" where
  "sweep_point rng i =
     \<lparr>ll_lat = Fin (sweep_coord (129716 / 10000) (rng (2 * i))), ll_lng = Fin (sweep_coord (775946 / 10000) (rng (2 * i + 1)))\<rparr>"

definition buildBatch :: "(int \<Rightarrow> nat \<Rightarrow> rat) \<Rightarrow> nat \<Rightarrow> nat \<Rightarrow> int \<Rightarrow> MatchBatchRequest" where
  "buildBatch draw n m k =
     (let rng = draw (wrap64 (wrap64 (int n * 1000003) + int m))
      in \<lparr>TenantId = ''loadtest'', BatchId = ''sweep-'' @ dec_nat n @ ''-'' @ dec_nat m @ ''-'' @ format_int k,
          Riders = map (\<lambda>i. \<lparr>rider_Id = ''R-'' @ pad_dec 6 i, rider_Pickup = sweep_point rng i\<rparr>) [0..<n],
          CandidateDrivers = map (\<lambda>j. \<lparr>driver_Id = ''D-'' @ pad_dec 6 j, driver_Location = sweep_point rng (n + j)\<rparr>) [0..<m],
          req_CostMetric = COST_METRIC_EUCLIDEAN, RoadGraphId = [], MaxCandidatesPerRider = to_int32 k\<rparr>)"

text \<open>The timed solves: a failed one is skipped. \<open>micros\<close> is \<open>GetComputeMicros\<close>, which is zero on \<open>nil\<close>;
  the engine's own measurement is preferred when there is one.\<close>

fun measure_loop ::
  "'s Client \<Rightarrow> ('s \<Rightarrow> gotime) \<Rightarrow> (MatchBatchResponse \<Rightarrow> int) \<Rightarrow> ctx \<Rightarrow> MatchBatchRequest \<Rightarrow> nat \<Rightarrow> 's \<Rightarrow> 's \<times> duration list" where
  "measure_loop client now micros ctx req 0 s = (s, [])"
| "measure_loop client now micros ctx req (Suc i) s =
     (let start = now s; (s1, r) = SolveBatch client ctx (Some req) s
      in case r of
           Inl _ \<Rightarrow> measure_loop client now micros ctx req i s1
         | Inr resp \<Rightarrow>
             let us = (case resp of None \<Rightarrow> 0 | Some x \<Rightarrow> micros x);
                 sample = (if 0 < us then wrap64 (us * 1000) else time_sub (now s1) start);
                 (s2, rest) = measure_loop client now micros ctx req i s1
             in (s2, sample # rest))"

definition measure_point ::
  "'s Client \<Rightarrow> ('s \<Rightarrow> gotime) \<Rightarrow> (MatchBatchResponse \<Rightarrow> int) \<Rightarrow> (int \<Rightarrow> nat \<Rightarrow> rat) \<Rightarrow> ctx \<Rightarrow> nat \<Rightarrow> nat \<Rightarrow> int \<Rightarrow> nat \<Rightarrow> 's \<Rightarrow>
     's \<times> sweepPoint" where
  "measure_point client now micros draw ctx n m k repeats s =
     (let req = buildBatch draw n m k;
          (s1, _) = SolveBatch client ctx (Some req) s;
          (s2, samples) = measure_loop client now micros ctx req repeats s1
      in (s2, \<lparr>sp_Series = [], sp_Riders = int n, sp_Drivers = int m, sp_K = k, sp_Solve = recorder_stats samples\<rparr>))"

text \<open>One series of the sweep: the pairs of rider and driver counts in order.\<close>

fun measure_series ::
  "(nat \<Rightarrow> nat \<Rightarrow> 's \<Rightarrow> 's \<times> sweepPoint) \<Rightarrow> string \<Rightarrow> (nat \<times> nat) list \<Rightarrow> 's \<Rightarrow> 's \<times> sweepPoint list" where
  "measure_series f series [] s = (s, [])"
| "measure_series f series ((n, m) # sizes) s =
     (let (s1, p) = f n m s; (s2, ps) = measure_series f series sizes s1 in (s2, p\<lparr>sp_Series := series\<rparr> # ps))"

text \<open>\<open>runSweep\<close> after the dial: the exit code, or the sparse and the dense points.\<close>

definition runSweep ::
  "'s Client \<Rightarrow> ('s \<Rightarrow> gotime) \<Rightarrow> (MatchBatchResponse \<Rightarrow> int) \<Rightarrow> (int \<Rightarrow> nat \<Rightarrow> rat) \<Rightarrow> 's \<Rightarrow>
     's \<times> (int + sweepPoint list \<times> sweepPoint list)" where
  "runSweep client now micros draw s =
     (let ctx = with_timeout (now s) (20 * 60 * second) None;
          (s1, h) = Health client ctx s
      in case h of
           Inl _ \<Rightarrow> (s1, Inl 1)
         | Inr _ \<Rightarrow>
             let sparse = (\<lambda>n m. measure_point client now micros draw ctx n m 8 7);
                 dense = (\<lambda>n m. measure_point client now micros draw ctx n m 0 3);
                 (s2, a) = measure_series sparse ''N'' (map (\<lambda>n. (n, 2000)) [100, 200, 400, 800, 1600, 3200]) s1;
                 (s3, b) = measure_series sparse ''M'' (map (\<lambda>m. (500, m)) [500, 1000, 2000, 4000, 8000, 16000]) s2;
                 (s4, c) = measure_series dense ''dense'' (map (\<lambda>n. (n, n)) [100, 200, 400, 800]) s3
             in (s4, Inr (a @ b, c)))"

text \<open>The rows of the analysis: two sizes and the ratio of their medians. A previous median of zero
  gives no row.\<close>

fun growth :: "(sweepPoint \<Rightarrow> int) \<Rightarrow> sweepPoint list \<Rightarrow> (int \<times> int \<times> rat) list" where
  "growth axis (prev # cur # ps) =
     (let old = ls_P50 (sp_Solve prev); new = ls_P50 (sp_Solve cur);
          rows = growth axis (cur # ps)
      in if 0 < old then (axis prev, axis cur, f64_round (f64_round (of_int new) / f64_round (of_int old))) # rows else rows)"
| "growth axis _ = []"

definition series_points :: "string \<Rightarrow> sweepPoint list \<Rightarrow> sweepPoint list" where
  "series_points series ps = filter (\<lambda>p. sp_Series p = series \<and> 0 < ls_Count (sp_Solve p)) ps"

definition analyse ::
  "sweepPoint list \<Rightarrow> sweepPoint list \<Rightarrow> (int \<times> int \<times> rat) list \<times> (int \<times> int \<times> rat) list \<times> (int \<times> int \<times> rat) list" where
  "analyse sparse dense =
     (growth sp_Riders (series_points ''N'' sparse), growth sp_Drivers (series_points ''M'' sparse), growth sp_Riders dense)"

text \<open>The tables of the sweep report: per row the size, the rounded percentiles and, from the second row on
  and for a positive previous median, the ratio to the previous row (the dash is \<open>None\<close>).\<close>

fun table_loop ::
  "(sweepPoint \<Rightarrow> int) \<Rightarrow> (sweepPoint \<Rightarrow> bool) \<Rightarrow> sweepPoint option \<Rightarrow> sweepPoint list \<Rightarrow>
     (int \<times> duration \<times> duration \<times> duration \<times> rat option) list" where
  "table_loop axis skip prev [] = []"
| "table_loop axis skip prev (p # ps) =
     (if skip p then table_loop axis skip prev ps
      else
        let st = sp_Solve p;
            ratio = (case prev of
                       None \<Rightarrow> None
                     | Some q \<Rightarrow>
                         if 0 < ls_P50 (sp_Solve q)
                         then Some (f64_round (f64_round (of_int (ls_P50 st)) / f64_round (of_int (ls_P50 (sp_Solve q))))) else None)
        in (axis p, lt_round (ls_P50 st), lt_round (ls_P95 st), lt_round (ls_P99 st), ratio) #
           table_loop axis skip (Some p) ps)"

definition table_a :: "sweepPoint list \<Rightarrow> (int \<times> duration \<times> duration \<times> duration \<times> rat option) list" where
  "table_a sparse = table_loop sp_Riders (\<lambda>p. sp_Series p \<noteq> ''N'' \<or> ls_Count (sp_Solve p) = 0) None sparse"

definition table_b :: "sweepPoint list \<Rightarrow> (int \<times> duration \<times> duration \<times> duration \<times> rat option) list" where
  "table_b sparse = table_loop sp_Drivers (\<lambda>p. sp_Series p \<noteq> ''M'' \<or> ls_Count (sp_Solve p) = 0) None sparse"

text \<open>The third table has no p99 column and skips nothing.\<close>

definition table_c :: "sweepPoint list \<Rightarrow> (int \<times> duration \<times> duration \<times> rat option) list" where
  "table_c dense = map (\<lambda>(n, p50, p95, _, ratio). (n, p50, p95, ratio)) (table_loop sp_Riders (\<lambda>_. False) None dense)"

text \<open>The ratios a table prints, with the size of their row.\<close>

definition ratios :: "(int \<times> duration \<times> duration \<times> duration \<times> rat option) list \<Rightarrow> (int \<times> rat) list" where
  "ratios rows = List.map_filter (\<lambda>(n, _, _, _, r). map_option (Pair n) r) rows"

section \<open>Report and analysis agree\<close>

lemma ratios_simps [simp]:
  "ratios [] = []"
  "ratios ((n, a, b, c, None) # rows) = ratios rows"
  "ratios ((n, a, b, c, Some r) # rows) = (n, r) # ratios rows"
  by (simp_all add: ratios_def map_filter_simps)

lemma ratios_table_loop:
  "ratios (table_loop axis skip prev ps) =
     map snd (growth axis (case prev of None \<Rightarrow> filter (\<lambda>p. \<not> skip p) ps | Some q \<Rightarrow> q # filter (\<lambda>p. \<not> skip p) ps))"
proof (induction ps arbitrary: prev)
  case Nil
  then show ?case by (cases prev) simp_all
next
  case (Cons p ps)
  show ?case
  proof (cases "skip p")
    case False
    note IH = Cons.IH [of "Some p"]
    show ?thesis
    proof (cases prev)
      case None
      then show ?thesis using False IH by (cases "filter (\<lambda>p. \<not> skip p) ps") (simp_all add: Let_def)
    next
      case (Some q)
      then show ?thesis using False IH by (simp add: Let_def)
    qed
  next
    case True
    then show ?thesis by (cases prev) (simp_all add: Cons.IH)
  qed
qed

section \<open>The sweep's batches\<close>

lemma sweep_coord_abs:
  assumes "0 \<le> u" "u \<le> 1"
  shows "\<bar>sweep_coord centre u\<bar> \<le> 1003 / 1000 * \<bar>centre\<bar> + 1 / 10"
proof -
  have "\<bar>u - 1 / 2\<bar> \<le> 1 / 2" using assms unfolding abs_le_iff by simp
  moreover have "\<bar>18 / 100 :: rat\<bar> \<le> 18 / 100" by simp
  ultimately have "\<bar>f64 (u - 1 / 2) * f64 (18 / 100)\<bar> \<le> 1 / 2 * (1001 / 1000) * (18 / 100 * (1001 / 1000))"
    unfolding abs_mult by (intro mult_mono f64_abs_le) simp_all
  from f64_abs_le [OF this] have "\<bar>f64 (f64 (u - 1 / 2) * f64 (18 / 100))\<bar> \<le> 95 / 1000" by simp
  with f64_abs [of centre] have "\<bar>f64 centre + f64 (f64 (u - 1 / 2) * f64 (18 / 100))\<bar> \<le> \<bar>centre\<bar> * (1001 / 1000) + 95 / 1000"
    by (intro order_trans [OF abs_triangle_ineq] add_mono)
  from f64_abs_le [OF this] have "\<bar>sweep_coord centre u\<bar> \<le> (\<bar>centre\<bar> * (1001 / 1000) + 95 / 1000) * (1001 / 1000)"
    by (simp only: sweep_coord_def)
  also have "\<dots> \<le> 1003 / 1000 * \<bar>centre\<bar> + 1 / 10" by simp
  finally show ?thesis .
qed

lemma parse_pad_dec: "n < 2 ^ 64 \<Longrightarrow> parse_digits 0 (pad_dec w n) = Some (Some n)"
proof -
  assume n: "n < 2 ^ 64"
  have "parse_digits 0 (replicate k (CHR ''0'') @ s) = parse_digits 0 s" for k s
    by (induction k) (simp_all add: char_digit_def)
  with n show ?thesis by (simp add: pad_dec_def Let_def parse_digits_dec_nat)
qed

lemma pad_dec_inj: "m < 2 ^ 64 \<Longrightarrow> n < 2 ^ 64 \<Longrightarrow> pad_dec w m = pad_dec w n \<longleftrightarrow> m = n"
  by (metis option.inject parse_pad_dec)

lemma distinct_pad_dec: "n \<le> 2 ^ 64 \<Longrightarrow> distinct (map (\<lambda>i. c # CHR ''-'' # pad_dec w i) [0..<n])"
  unfolding distinct_map by (intro conjI distinct_upt inj_onI) (metis list.inject pad_dec_inj atLeastLessThan_iff less_le_trans set_upt)

lemma sweep_point_valid:
  assumes "\<And>i. 0 \<le> rng i \<and> rng i < 1"
  shows "\<not> out_of_range (- 90) 90 (ll_lat (sweep_point rng i)) \<and> \<not> out_of_range (- 180) 180 (ll_lng (sweep_point rng i))"
proof -
  have "\<bar>sweep_coord centre (rng i)\<bar> \<le> 1003 / 1000 * \<bar>centre\<bar> + 1 / 10" for centre i
    using assms [of i] by (intro sweep_coord_abs) auto
  from this [of "129716 / 10000" "2 * i"] this [of "775946 / 10000" "2 * i + 1"] show ?thesis
    by (auto simp: sweep_point_def)
qed

text \<open>Every batch the sweep builds is one the engine accepts: the identifiers are distinct and the points are
  on the globe, whatever the generator draws.\<close>

theorem sweep_batch_valid:
  assumes "\<And>seed i. 0 \<le> draw seed i \<and> draw seed i < 1" "n \<le> 2 ^ 64" "m \<le> 2 ^ 64"
    and req_def: "req = buildBatch draw n m k"
  shows "length (Riders req) = n \<and> length (CandidateDrivers req) = m \<and>
    distinct (map rider_Id (Riders req)) \<and> distinct (map driver_Id (CandidateDrivers req)) \<and>
    (\<forall>p \<in> rider_Pickup ` set (Riders req) \<union> driver_Location ` set (CandidateDrivers req).
       \<not> out_of_range (- 90) 90 (ll_lat p) \<and> \<not> out_of_range (- 180) 180 (ll_lng p))"
proof -
  have "distinct (map rider_Id (Riders req))" "distinct (map driver_Id (CandidateDrivers req))"
    using distinct_pad_dec [OF assms(2)] distinct_pad_dec [OF assms(3)] by (simp_all add: req_def buildBatch_def Let_def comp_def)
  moreover have "\<not> out_of_range (- 90) 90 (ll_lat p) \<and> \<not> out_of_range (- 180) 180 (ll_lng p)"
    if "p \<in> rider_Pickup ` set (Riders req) \<union> driver_Location ` set (CandidateDrivers req)" for p
    using that sweep_point_valid [OF assms(1)] by (auto simp: req_def buildBatch_def Let_def)
  ultimately show ?thesis by (simp add: req_def buildBatch_def Let_def)
qed

section \<open>The sweep as a whole\<close>

lemma recorder_count: "ls_Count (recorder_stats samples) = int (length samples)"
  by (simp add: recorder_stats_def no_stats_def Let_def)

lemma measure_loop_length: "length (snd (measure_loop client now micros ctx req i s)) \<le> i"
  by (induction i arbitrary: s) (auto simp: Let_def split: prod.splits sum.splits, metis le_SucI snd_conv, metis snd_conv)

lemma measure_point_count:
  "measure_point client now micros draw ctx n m k repeats s = (s', p) \<Longrightarrow>
     0 \<le> ls_Count (sp_Solve p) \<and> ls_Count (sp_Solve p) \<le> int repeats"
  using measure_loop_length [of client now micros ctx "buildBatch draw n m k" repeats]
  by (auto simp: measure_point_def Let_def recorder_count split: prod.splits) (metis snd_conv)

lemma measure_series_points:
  assumes "\<And>n m s s' p. f n m s = (s', p) \<Longrightarrow> P (sp_Solve p)" "measure_series f series sizes s = (s', ps)"
  shows "length ps = length sizes \<and> (\<forall>p \<in> set ps. sp_Series p = series \<and> P (sp_Solve p))"
  using assms(2)
proof (induction sizes arbitrary: s ps)
  case (Cons nm sizes)
  obtain n m s1 p s2 qs where *: "nm = (n, m)" "f n m s = (s1, p)" "measure_series f series sizes s1 = (s2, qs)"
    by (metis prod.exhaust)
  with Cons.prems have "s2 = s'" "ps = p\<lparr>sp_Series := series\<rparr> # qs" by (auto simp: Let_def)
  with Cons.IH [of s1 qs] assms(1) [OF *(2)] *(3) show ?case by auto
qed simp

lemma runSweep_parts:
  assumes "runSweep client now micros draw s = (s', Inr (sparse, dense))"
  obtains a b where "sparse = a @ b" "length a = 6" "length b = 6" "length dense = 4"
    "\<forall>p \<in> set a. sp_Series p = ''N'' \<and> 0 \<le> ls_Count (sp_Solve p)" "\<forall>p \<in> set b. sp_Series p = ''M'' \<and> 0 \<le> ls_Count (sp_Solve p)"
proof -
  define ctx where "ctx = with_timeout (now s) (20 * 60 * second) None"
  define f where "f k repeats = (\<lambda>n m. measure_point client now micros draw ctx n m k repeats)" for k repeats
  have f: "f k repeats n m s = (s', p) \<Longrightarrow> 0 \<le> ls_Count (sp_Solve p)" for k repeats n m s s' p
    unfolding f_def by (blast dest: measure_point_count)
  have series: "measure_series (f k repeats) series sizes s = (s', ps) \<Longrightarrow>
      length ps = length sizes \<and> (\<forall>p \<in> set ps. sp_Series p = series \<and> 0 \<le> ls_Count (sp_Solve p))"
    for k repeats series sizes s s' ps
    by (erule measure_series_points [rotated]) (rule f)
  from assms obtain s1 s2 s3 a b where
    "measure_series (f 8 7) ''N'' (map (\<lambda>n. (n, 2000)) [100, 200, 400, 800, 1600, 3200]) s1 = (s2, a)"
    "measure_series (f 8 7) ''M'' (map (\<lambda>m. (500, m)) [500, 1000, 2000, 4000, 8000, 16000]) s2 = (s3, b)"
    "measure_series (f 0 3) ''dense'' (map (\<lambda>n. (n, n)) [100, 200, 400, 800]) s3 = (s', dense)" "sparse = a @ b"
    by (auto simp: runSweep_def Let_def f_def ctx_def simp del: measure_series.simps split: prod.splits sum.splits)
  from this(1-3) [THEN series] this(4) show ?thesis
    by (intro that [of a b]) simp_all
qed

lemma ratios_series:
  assumes "\<forall>p \<in> set ps. 0 \<le> ls_Count (sp_Solve p)"
  shows "ratios (table_loop axis (\<lambda>p. sp_Series p \<noteq> series \<or> ls_Count (sp_Solve p) = 0) None ps) =
    map snd (growth axis (series_points series ps))"
proof -
  have "filter (\<lambda>p. \<not> (sp_Series p \<noteq> series \<or> ls_Count (sp_Solve p) = 0)) ps = series_points series ps"
    unfolding series_points_def using assms by (intro filter_cong) auto
  then show ?thesis by (simp only: ratios_table_loop option.case)
qed

text \<open>A sweep whose health check passes always yields six points per sparse series and four dense ones,
  failed solves or not, and the ratios of the report's tables are exactly the rows of the analysis.\<close>

theorem sweep_report_agrees:
  assumes "runSweep client now micros draw s = (s', Inr (sparse, dense))" "analyse sparse dense = (rows_n, rows_m, rows_d)"
  shows "length (filter (\<lambda>p. sp_Series p = ''N'') sparse) = 6 \<and> length (filter (\<lambda>p. sp_Series p = ''M'') sparse) = 6 \<and>
    length dense = 4 \<and> ratios (table_a sparse) = map snd rows_n \<and> ratios (table_b sparse) = map snd rows_m \<and>
    List.map_filter (\<lambda>(n, _, _, r). map_option (Pair n) r) (table_c dense) = map snd rows_d"
proof -
  from assms(1) obtain a b where ab: "sparse = a @ b" "length a = 6" "length b = 6" "length dense = 4"
    "\<forall>p \<in> set a. sp_Series p = ''N'' \<and> 0 \<le> ls_Count (sp_Solve p)" "\<forall>p \<in> set b. sp_Series p = ''M'' \<and> 0 \<le> ls_Count (sp_Solve p)"
    by (rule runSweep_parts)
  then have "filter (\<lambda>p. sp_Series p = ''N'') a = a" "filter (\<lambda>p. sp_Series p = ''N'') b = []"
    "filter (\<lambda>p. sp_Series p = ''M'') a = []" "filter (\<lambda>p. sp_Series p = ''M'') b = b"
    by (auto simp: filter_empty_conv intro!: filter_True)
  moreover have "\<forall>p \<in> set sparse. 0 \<le> ls_Count (sp_Solve p)" using ab by auto
  from ratios_series [OF this, of sp_Riders "''N''"] ratios_series [OF this, of sp_Drivers "''M''"]
  have "ratios (table_a sparse) = map snd rows_n" "ratios (table_b sparse) = map snd rows_m"
    using assms(2) unfolding table_a_def table_b_def analyse_def by blast+
  moreover have "List.map_filter (\<lambda>(n, _, _, r). map_option (Pair n) r) (table_c dense) =
      ratios (table_loop sp_Riders (\<lambda>_. False) None dense)"
    by (simp add: table_c_def ratios_def List.map_filter_def filter_map comp_def case_prod_beta)
  ultimately show ?thesis
    using ab assms(2) by (simp add: analyse_def ratios_table_loop)
qed

text \<open>A measurement that failed altogether counts as zero in the dense control, which skips nothing: the row
  after it is missing and its own row shows a ratio of zero.\<close>

theorem dense_failure_shows_zero:
  assumes "0 < ls_P50 (sp_Solve p)" "sp_Solve q = recorder_stats []"
  shows "growth axis [p, q, r] = [(axis p, axis q, 0)]"
  using assms by (simp add: Let_def recorder_stats_def no_stats_def f64_round_def)

text \<open>The submissions start for exactly the rates from one to a thousand million per second: no flag is checked.\<close>

theorem submit_interval_defined: "submit_interval rate \<noteq> None \<longleftrightarrow> 0 < rate \<and> rate \<le> 1000000000"
proof (cases "0 < rate")
  case True
  then have "go_div second rate = second div rate" by (intro go_div_nonneg) simp_all
  moreover have "second div rate \<le> 0 \<longleftrightarrow> second < rate" using pos_imp_zdiv_pos_iff [OF True, of second] by linarith
  ultimately show ?thesis using True by (simp add: submit_interval_def Let_def not_less)
next
  case False
  have "0 \<le> second div \<bar>rate\<bar>" by (cases "rate = 0") (simp_all add: pos_imp_zdiv_nonneg_iff)
  with False show ?thesis by (auto simp: submit_interval_def Let_def go_div_def sgn_if)
qed

section \<open>Percentiles\<close>

lemma percentile_index_less: "0 < n \<Longrightarrow> percentile_index p n < n"
  by (simp add: percentile_index_def Let_def)

lemma percentile_index_mono:
  assumes "p \<le> q"
  shows "percentile_index p n \<le> percentile_index q n"
proof -
  have "0 \<le> f64_round (of_nat n)" using f64_round_mono [of 0 "of_nat n"] by (simp add: f64_round_def)
  with f64_round_mono [OF assms] have "f64_round p * f64_round (of_nat n) \<le> f64_round q * f64_round (of_nat n)"
    by (rule mult_right_mono)
  then have "f64_round (f64_round p * f64_round (of_nat n)) \<le> f64_round (f64_round q * f64_round (of_nat n))"
    by (rule f64_round_mono)
  then have "nat \<lfloor>f64_round (f64_round p * f64_round (of_nat n))\<rfloor> \<le> nat \<lfloor>f64_round (f64_round q * f64_round (of_nat n))\<rfloor>"
    by (intro nat_mono floor_mono)
  then show ?thesis by (auto simp: percentile_index_def Let_def)
qed

text \<open>The percentile is not the nearest rank: of two samples the median is the larger, where half of the samples
  lie at or below the smaller.\<close>

lemma median_of_two: "x \<le> y \<Longrightarrow> ls_P50 (recorder_stats [x, y]) = y"
proof -
  assume "x \<le> y"
  have "f64_round (1 / 2) = 1 / 2" "f64_round 2 = 2" "f64_round 1 = 1"
    using f64_round_powi [of "- 1"] f64_round_powi [of 1] f64_round_powi [of 0] by (simp_all add: field_simps)
  with \<open>x \<le> y\<close> show ?thesis by (simp add: recorder_stats_def percentile_index_def Let_def)
qed

text \<open>The recorder's summary of any non-empty sample is consistent: minimum and maximum are those of
  the sample, every percentile is a measured value, and they are ordered
  min \<open>\<le>\<close> p50 \<open>\<le>\<close> p95 \<open>\<le>\<close> p99 \<open>\<le>\<close> p99.9 \<open>\<le>\<close> max, with the rounding of \<open>float64\<close> in the index taken into account.\<close>

theorem percentiles_ordered:
  assumes "samples \<noteq> []" "recorder_stats samples = st"
  shows "ls_Count st = int (length samples) \<and> ls_Min st = Min (set samples) \<and> ls_Max st = Max (set samples) \<and>
    {ls_P50 st, ls_P95 st, ls_P99 st, ls_P999 st} \<subseteq> set samples \<and>
    ls_Min st \<le> ls_P50 st \<and> ls_P50 st \<le> ls_P95 st \<and> ls_P95 st \<le> ls_P99 st \<and> ls_P99 st \<le> ls_P999 st \<and> ls_P999 st \<le> ls_Max st"
proof -
  define s where "s = sort samples"
  define n where "n = length s"
  have n: "0 < n" using assms(1) by (simp add: n_def s_def)
  have ne: "s \<noteq> []" using n by (auto simp: n_def)
  have st: "st = \<lparr>ls_Count = int n, ls_Min = s ! 0, ls_P50 = s ! percentile_index (50 / 100) n,
      ls_P95 = s ! percentile_index (95 / 100) n, ls_P99 = s ! percentile_index (99 / 100) n,
      ls_P999 = s ! percentile_index (999 / 1000) n, ls_Max = s ! (n - 1), ls_Mean = go_div (sum_durations s) (int n)\<rparr>"
    using assms by (simp add: recorder_stats_def s_def n_def Let_def)
  have le: "s ! i \<le> s ! j" if "i \<le> j" "j < n" for i j
    using that by (intro sorted_nth_mono) (simp_all add: s_def n_def)
  have mem: "s ! i \<in> set samples" if "i < n" for i using that nth_mem [of i s] by (simp add: s_def n_def)
  have i: "percentile_index p n < n" for p using n by (rule percentile_index_less)
  have ub: "x \<le> s ! (n - 1)" "s ! 0 \<le> x" if x: "x \<in> set samples" for x
  proof -
    from x have "x \<in> set s" by (simp add: s_def)
    then obtain j where "j < n" "x = s ! j" unfolding in_set_conv_nth n_def by blast
    then show "x \<le> s ! (n - 1)" "s ! 0 \<le> x" using le [of j "n - 1"] le [of 0 j] by auto
  qed
  have "Min (set samples) = s ! 0" using ub mem [OF n] by (intro Min_eqI) auto
  moreover have "Max (set samples) = s ! (n - 1)" using ub mem [of "n - 1"] n by (intro Max_eqI) auto
  moreover have "s ! percentile_index p n \<le> s ! percentile_index q n" if "p \<le> q" for p q
    by (rule le [OF percentile_index_mono [OF that] i])
  ultimately show ?thesis
    using mem i ub by (simp add: st) (simp add: n_def s_def)
qed

theorem percentiles_ordered_witness:
  "ls_P50 (recorder_stats [3, 1, 2]) \<le> ls_P95 (recorder_stats [3, 1, 2]) \<and> ls_Max (recorder_stats [3, 1, 2]) = 3"
  using percentiles_ordered [of "[3, 1, 2]", OF _ refl] by simp

end
