(* ===== verification/Mockdrivers.thy ===== *)
theory Mockdrivers
  imports Loadtest
begin

text \<open>
  \<open>cmd/mockdrivers\<close>: the fleet of simulated drivers. Each driver is a goroutine, here a state machine
  that an event advances; the fleet interleaves them over the shared atomic counters. The dialer, the
  clock, the generator and the JSON encoder are outside: their results are in the events or parameters.
  The progress log is not modelled.
\<close>

section \<open>A driver\<close>

record MockPing =
  mp_DriverID :: string
  mp_Lat :: rat
  mp_Lng :: rat
  mp_SentAtUnixMs :: int

record mock_config =
  mk_key :: string
  mk_interval :: duration
  mk_lat :: rat
  mk_lng :: rat
  mk_spread :: rat

text \<open>\<open>Dialing\<close> until the dial returns, \<open>Staggering\<close> until the first delay is over, then \<open>Streaming\<close>.\<close>

datatype driver_phase = Dialing | Staggering | Streaming | Returned

record mock_driver =
  md_phase :: driver_phase
  md_lat :: rat
  md_lng :: rat
  md_draws :: nat

record fleet_counters =
  fc_connected :: int
  fc_sent :: int
  fc_failed :: int
  fc_refused :: int

definition mock_id :: "nat \<Rightarrow> string" where
  "mock_id i = ''D-'' @ pad_dec 5 i"

definition mock_seed :: "nat \<Rightarrow> int" where
  "mock_seed i = wrap64 (wrap64 (int i * 7919) + 13)"

definition mock_header :: "mock_config \<Rightarrow> header" where
  "mock_header cfg = (if mk_key cfg \<noteq> [] then [(''X-API-Key'', mk_key cfg)] else [])"

text \<open>The start is spread around the centre; a tick drifts by at most 0.0001 degrees.\<close>

definition mock_start :: "rat \<Rightarrow> rat \<Rightarrow> rat \<Rightarrow> rat" where
  "mock_start centre spread u = f64 (centre + f64 (f64 (f64 (f64 (u - 1 / 2) * 2) * spread) / 111))"

definition mock_drift :: "rat \<Rightarrow> rat \<Rightarrow> rat" where
  "mock_drift x u = f64 (x + f64 (f64 (u - 1 / 2) * f64 (2 / 10000)))"

definition new_driver :: "(int \<Rightarrow> nat \<Rightarrow> rat) \<Rightarrow> mock_config \<Rightarrow> nat \<Rightarrow> mock_driver" where
  "new_driver draw cfg i =
     \<lparr>md_phase = Dialing, md_lat = mock_start (mk_lat cfg) (mk_spread cfg) (draw (mock_seed i) 0),
      md_lng = mock_start (mk_lng cfg) (mk_spread cfg) (draw (mock_seed i) 1), md_draws = 2\<rparr>"

text \<open>What a driver waits for. A tick carries the time and whether the write succeeds.\<close>

datatype driver_event =
  Dialed "goerr option" "int option"
| StaggerOver
| ContextDone
| Tick gotime bool

record mock_fleet =
  fl_drivers :: "mock_driver list"
  fl_count :: fleet_counters
  fl_wire :: "(nat \<times> string) list"
  fl_crashed :: bool

definition leave :: "mock_driver \<Rightarrow> fleet_counters \<Rightarrow> mock_driver \<times> fleet_counters" where
  "leave d c = (d\<lparr>md_phase := Returned\<rparr>, c\<lparr>fc_connected := fc_connected c - 1\<rparr>)"

text \<open>\<open>runDriver\<close>, one event at a time: the driver, the counters, the message written if any, and whether
  the process panicked. \<open>rng.Int63n\<close> panics on an interval that is not positive, after the driver was
  counted as connected; the deferred decrement still runs. \<open>None\<close>: the driver does not wait for that event.\<close>

fun run_driver ::
  "(int \<Rightarrow> nat \<Rightarrow> rat) \<Rightarrow> (MockPing \<Rightarrow> string option) \<Rightarrow> mock_config \<Rightarrow> nat \<Rightarrow> driver_event \<Rightarrow> mock_driver \<Rightarrow> fleet_counters \<Rightarrow>
     ((mock_driver \<times> fleet_counters) \<times> string option \<times> bool) option" where
  "run_driver draw marshal cfg i (Dialed err resp) d c =
     (if md_phase d \<noteq> Dialing then None
      else if err \<noteq> None then
        Some ((d\<lparr>md_phase := Returned\<rparr>,
               if resp = Some 503 then c\<lparr>fc_refused := fc_refused c + 1\<rparr> else c\<lparr>fc_failed := fc_failed c + 1\<rparr>), None, False)
      else
        let c1 = c\<lparr>fc_connected := fc_connected c + 1\<rparr> in
        if mk_interval cfg \<le> 0 then Some (leave d c1, None, True)
        else Some ((d\<lparr>md_phase := Staggering\<rparr>, c1), None, False))"
| "run_driver draw marshal cfg i StaggerOver d c =
     (if md_phase d = Staggering then Some ((d\<lparr>md_phase := Streaming\<rparr>, c), None, False) else None)"
| "run_driver draw marshal cfg i ContextDone d c =
     (if md_phase d = Staggering \<or> md_phase d = Streaming then Some (leave d c, None, False) else None)"
| "run_driver draw marshal cfg i (Tick now written) d c =
     (if md_phase d \<noteq> Streaming then None
      else
        let u = draw (mock_seed i);
            d1 = d\<lparr>md_lat := mock_drift (md_lat d) (u (md_draws d)), md_lng := mock_drift (md_lng d) (u (md_draws d + 1)),
                   md_draws := md_draws d + 2\<rparr>;
            failed = leave d1 (c\<lparr>fc_failed := fc_failed c + 1\<rparr>)
        in case marshal \<lparr>mp_DriverID = mock_id i, mp_Lat = md_lat d1, mp_Lng = md_lng d1, mp_SentAtUnixMs = unix_milli now\<rparr> of
             None \<Rightarrow> Some (failed, None, False)
           | Some msg \<Rightarrow>
               if \<not> written then Some (failed, None, False)
               else Some ((d1, c\<lparr>fc_sent := fc_sent c + 1\<rparr>), Some msg, False))"

section \<open>The fleet\<close>

definition no_counters :: fleet_counters where
  "no_counters = \<lparr>fc_connected = 0, fc_sent = 0, fc_failed = 0, fc_refused = 0\<rparr>"

definition new_fleet :: "(int \<Rightarrow> nat \<Rightarrow> rat) \<Rightarrow> mock_config \<Rightarrow> nat \<Rightarrow> mock_fleet" where
  "new_fleet draw cfg n =
     \<lparr>fl_drivers = map (new_driver draw cfg) [0..<n], fl_count = no_counters, fl_wire = [], fl_crashed = False\<rparr>"

text \<open>One driver handles one event; nothing runs after a panic.\<close>

inductive fleet_step ::
  "(int \<Rightarrow> nat \<Rightarrow> rat) \<Rightarrow> (MockPing \<Rightarrow> string option) \<Rightarrow> mock_config \<Rightarrow> mock_fleet \<Rightarrow> mock_fleet \<Rightarrow> bool"
  for draw marshal cfg where
  step_driver: "\<not> fl_crashed f \<Longrightarrow> i < length (fl_drivers f) \<Longrightarrow>
     run_driver draw marshal cfg i e (fl_drivers f ! i) (fl_count f) = Some ((d, c), out, crash) \<Longrightarrow>
     fleet_step draw marshal cfg f
       \<lparr>fl_drivers = (fl_drivers f)[i := d], fl_count = c,
        fl_wire = fl_wire f @ (case out of None \<Rightarrow> [] | Some msg \<Rightarrow> [(i, msg)]), fl_crashed = crash\<rparr>"

section \<open>Accounting\<close>

definition phase_count :: "(driver_phase \<Rightarrow> bool) \<Rightarrow> mock_fleet \<Rightarrow> nat" where
  "phase_count P f = length (filter P (map md_phase (fl_drivers f)))"

definition on_line :: "driver_phase \<Rightarrow> bool" where
  "on_line p \<longleftrightarrow> p = Staggering \<or> p = Streaming"

lemma filter_update_length:
  assumes "i < length xs"
  shows "int (length (filter P (xs[i := y]))) = int (length (filter P xs)) - of_bool (P (xs ! i)) + of_bool (P y)"
  using assms
  by (subst (2) id_take_nth_drop [OF assms]) (simp add: upd_conv_take_nth_drop)

text \<open>The effect of one event on the counters, in terms of the phases before and after.\<close>

lemma run_driver_effect:
  assumes "run_driver draw marshal cfg i e d c = Some ((d', c'), out, crash)"
  shows "fc_connected c' = fc_connected c - of_bool (on_line (md_phase d)) + of_bool (on_line (md_phase d'))"
    "fc_failed c' + fc_refused c' \<le> fc_failed c + fc_refused c - of_bool (md_phase d = Returned) + of_bool (md_phase d' = Returned)"
    "fc_failed c \<le> fc_failed c' \<and> fc_refused c \<le> fc_refused c'"
    "fc_sent c' = fc_sent c + (case out of None \<Rightarrow> 0 | Some _ \<Rightarrow> 1)"
    "crash \<Longrightarrow> mk_interval cfg \<le> 0"
    "out = Some msg \<Longrightarrow> \<exists>p. marshal p = Some msg \<and> mp_DriverID p = mock_id i"
  using assms
  by (cases e; auto simp: on_line_def leave_def Let_def split: if_splits option.splits)+

definition fleet_ok :: "(MockPing \<Rightarrow> string option) \<Rightarrow> mock_config \<Rightarrow> nat \<Rightarrow> mock_fleet \<Rightarrow> bool" where
  "fleet_ok marshal cfg n f \<longleftrightarrow>
     length (fl_drivers f) = n \<and>
     fc_connected (fl_count f) = int (phase_count on_line f) \<and>
     fc_sent (fl_count f) = int (length (fl_wire f)) \<and>
     0 \<le> fc_failed (fl_count f) \<and> 0 \<le> fc_refused (fl_count f) \<and>
     fc_failed (fl_count f) + fc_refused (fl_count f) \<le> int (phase_count (\<lambda>p. p = Returned) f) \<and>
     (fl_crashed f \<longrightarrow> mk_interval cfg \<le> 0) \<and>
     (\<forall>(i, msg) \<in> set (fl_wire f). i < n \<and> (\<exists>p. marshal p = Some msg \<and> mp_DriverID p = mock_id i))"

lemma new_fleet_ok: "fleet_ok marshal cfg n (new_fleet draw cfg n)"
  by (simp add: fleet_ok_def new_fleet_def no_counters_def phase_count_def on_line_def new_driver_def comp_def)

lemma fleet_step_ok:
  assumes "fleet_step draw marshal cfg f f'" "fleet_ok marshal cfg n f"
  shows "fleet_ok marshal cfg n f'"
  using assms
proof (cases rule: fleet_step.cases)
  case (step_driver i e d c out crash)
  note run = run_driver_effect [OF step_driver(4)]
  have *: "int (length (filter P (map md_phase ((fl_drivers f)[i := d])))) =
      int (length (filter P (map md_phase (fl_drivers f)))) - of_bool (P (md_phase (fl_drivers f ! i))) + of_bool (P (md_phase d))" for P
    using filter_update_length [of i "map md_phase (fl_drivers f)" P "md_phase d"] step_driver(3) by (simp add: map_update)
  show ?thesis
    using assms(2) run(1-4) * [of on_line] * [of "\<lambda>p. p = Returned"] run(5,6) step_driver(3)
    by (auto simp: step_driver(1) fleet_ok_def phase_count_def split: option.splits)
qed

text \<open>The fleet's counters are exact at every moment: \<open>connected\<close> is the number of drivers on line, \<open>sent\<close> the
  number of messages on the wire, each driver contributes at most one of \<open>failed\<close> and \<open>refused\<close>, and
  every message carries the identifier of its sender. Once every driver has returned \<open>connected\<close> is zero.\<close>

theorem fleet_accounting:
  assumes "(fleet_step draw marshal cfg)\<^sup>*\<^sup>* (new_fleet draw cfg n) f"
  shows "fleet_ok marshal cfg n f \<and>
    ((\<forall>d \<in> set (fl_drivers f). md_phase d = Returned) \<longrightarrow>
       fc_connected (fl_count f) = 0 \<and> fc_failed (fl_count f) + fc_refused (fl_count f) \<le> int n)"
proof -
  from assms have ok: "fleet_ok marshal cfg n f"
    by (induction rule: rtranclp_induct) (auto intro: new_fleet_ok fleet_step_ok)
  moreover have "phase_count on_line f = 0" if "\<forall>d \<in> set (fl_drivers f). md_phase d = Returned"
    using that by (auto simp: phase_count_def on_line_def filter_empty_conv)
  moreover have "phase_count P f \<le> n" for P
    using ok length_filter_le [of P "map md_phase (fl_drivers f)"] by (simp add: phase_count_def fleet_ok_def)
  ultimately show ?thesis by (auto simp: fleet_ok_def intro: order_trans)
qed

end
