(* ===== verification/Loadtest_Pipeline.thy ===== *)
theory Loadtest_Pipeline
  imports Mockdrivers
begin

text \<open>
  The pipeline mode of \<open>cmd/loadtest\<close>: the ramp of drivers behind the dial semaphore, the wait for the ramp,
  and the paced submissions, as a step relation that interleaves \<open>main\<close> with the goroutines of the drivers and of
  the submissions. Time passes between the steps. The results of the dialer and of the HTTP client are in the
  steps; \<open>math/rand\<close>, \<open>json.Marshal\<close> (whose error the code ignores) and \<open>%f\<close> are parameters. The goroutine
  that reads and drops what the server sends has no state.
\<close>

section \<open>The drivers\<close>

record pipeline_config =
  pl_restURL :: string
  pl_apiKey :: string
  pl_numDrivers :: int
  pl_numRiders :: int
  pl_rate :: int
  pl_pingEvery :: duration
  pl_draw :: "int \<Rightarrow> nat \<Rightarrow> rat"
  pl_marshal :: "string \<Rightarrow> rat \<Rightarrow> rat \<Rightarrow> string"
  pl_percent_f :: "float64 \<Rightarrow> string"

text \<open>\<open>LtWaiting\<close> for the semaphore, \<open>LtDialing start\<close> while it is held, \<open>LtDialed\<close> when the dial has returned and
  the semaphore is free again, \<open>LtRecorded\<close> between the latency sample and the counter.\<close>

datatype lt_phase =
  LtWaiting
| LtDialing gotime
| LtDialed gotime "goerr option" "int option"
| LtRecorded
| LtStaggering
| LtStreaming
| LtReturned

record lt_driver =
  ld_phase :: lt_phase
  ld_lat :: rat
  ld_lng :: rat
  ld_draws :: nat

datatype lt_event =
  EvAcquired
| EvDialed "goerr option" "int option"
| EvCounted
| EvConnected
| EvStaggered
| EvTick bool
| EvCancelled

definition lt_coord :: "rat \<Rightarrow> rat \<Rightarrow> rat" where
  "lt_coord centre u = f64 (f64 centre + f64 (f64 (u - 1 / 2) * f64 (9 / 100)))"

definition lt_seed :: "nat \<Rightarrow> int" where
  "lt_seed i = wrap64 (wrap64 (int i * 7919) + 3)"

text \<open>A driver handles an event: the driver, the counters and latency samples, the message written, and whether
  \<open>rng.Int63n\<close> panicked. \<open>None\<close>: it does not wait for that event.\<close>

fun lt_run_driver ::
  "pipeline_config \<Rightarrow> nat \<Rightarrow> gotime \<Rightarrow> lt_event \<Rightarrow> lt_driver \<Rightarrow> ramp_counts \<times> duration list \<Rightarrow>
     (lt_driver \<times> (ramp_counts \<times> duration list) \<times> string option \<times> bool) option" where
  "lt_run_driver cfg i now EvAcquired d w =
     (if ld_phase d = LtWaiting then Some (d\<lparr>ld_phase := LtDialing now\<rparr>, w, None, False) else None)"
| "lt_run_driver cfg i now (EvDialed err resp) d w =
     (case ld_phase d of
        LtDialing start \<Rightarrow> Some (d\<lparr>ld_phase := LtDialed start err resp\<rparr>, w, None, False)
      | _ \<Rightarrow> None)"
| "lt_run_driver cfg i now EvCounted d (c, lat) =
     (case ld_phase d of
        LtDialed start err resp \<Rightarrow>
          if err \<noteq> None then Some (d\<lparr>ld_phase := LtReturned\<rparr>, (count_dial (err, resp) c, lat), None, False)
          else Some (d\<lparr>ld_phase := LtRecorded\<rparr>, (c, lat @ [time_sub now start]), None, False)
      | _ \<Rightarrow> None)"
| "lt_run_driver cfg i now EvConnected d (c, lat) =
     (if ld_phase d \<noteq> LtRecorded then None
      else
        let u = pl_draw cfg (lt_seed i); c1 = count_dial (None, None) c;
            d1 = d\<lparr>ld_lat := lt_coord (129716 / 10000) (u 0), ld_lng := lt_coord (775946 / 10000) (u 1), ld_draws := 2\<rparr>
        in if pl_pingEvery cfg \<le> 0 then Some (d1\<lparr>ld_phase := LtReturned\<rparr>, (c1, lat), None, True)
           else Some (d1\<lparr>ld_phase := LtStaggering\<rparr>, (c1, lat), None, False))"
| "lt_run_driver cfg i now EvStaggered d w =
     (if ld_phase d = LtStaggering then Some (d\<lparr>ld_phase := LtStreaming\<rparr>, w, None, False) else None)"
| "lt_run_driver cfg i now (EvTick written) d w =
     (if ld_phase d \<noteq> LtStreaming then None
      else
        let u = pl_draw cfg (lt_seed i);
            d1 = d\<lparr>ld_lat := mock_drift (ld_lat d) (u (ld_draws d)), ld_lng := mock_drift (ld_lng d) (u (ld_draws d + 1)),
                   ld_draws := ld_draws d + 2\<rparr>
        in if written then Some (d1, w, Some (pl_marshal cfg (''D-'' @ pad_dec 6 i) (ld_lat d1) (ld_lng d1)), False)
           else Some (d1\<lparr>ld_phase := LtReturned\<rparr>, w, None, False))"
| "lt_run_driver cfg i now EvCancelled d w =
     (if ld_phase d = LtStaggering \<or> ld_phase d = LtStreaming then Some (d\<lparr>ld_phase := LtReturned\<rparr>, w, None, False) else None)"

section \<open>The submissions\<close>

datatype sub_phase = SubReady | SubSent gotime | SubReturned

record submission =
  sb_lat :: rat
  sb_lng :: rat
  sb_phase :: sub_phase

text \<open>The \<open>i\<close>-th rider takes two draws of the generator with seed 42.\<close>

definition new_submission :: "pipeline_config \<Rightarrow> nat \<Rightarrow> submission" where
  "new_submission cfg i =
     \<lparr>sb_lat = lt_coord (129716 / 10000) (pl_draw cfg 42 (2 * i)), sb_lng = lt_coord (775946 / 10000) (pl_draw cfg 42 (2 * i + 1)),
      sb_phase = SubReady\<rparr>"

definition submit_body :: "pipeline_config \<Rightarrow> nat \<Rightarrow> submission \<Rightarrow> string" where
  "submit_body cfg i sb =
     ''{\"rider_id\":\"R-'' @ pad_dec 6 i @ ''\",\"pickup\":{\"lat\":'' @ pl_percent_f cfg (Fin (sb_lat sb)) @ '',\"lng\":'' @
     pl_percent_f cfg (Fin (sb_lng sb)) @ ''}}''"

definition submit_header :: "pipeline_config \<Rightarrow> header" where
  "submit_header cfg =
     (''Content-Type'', ''application/json'') # (if pl_apiKey cfg \<noteq> [] then [(''X-API-Key'', pl_apiKey cfg)] else [])"

section \<open>The run\<close>

text \<open>Where \<open>main\<close> is: starting the drivers, polling the counters (until the deadline, asleep until the second
  time), asleep before the riders, submitting since \<open>submitStart\<close> with the ticker's interval, waiting for the
  answers, and past \<open>cancel()\<close>.\<close>

datatype lt_main =
  Spawning
| Ramping gotime gotime
| Warming gotime
| Submitting gotime duration
| Joining gotime
| Finished

record lt_run =
  lt_now :: gotime
  lt_main :: lt_main
  lt_rampStart :: gotime
  lt_polls :: nat
  lt_drivers :: "lt_driver list"
  lt_ramp :: "ramp_counts \<times> duration list"
  lt_wire :: "(nat \<times> string) list"
  lt_rampDuration :: duration
  lt_subs :: "submission list"
  lt_posts :: "(nat \<times> string \<times> header \<times> string) list"
  lt_counts :: submit_counts
  lt_submitDuration :: duration
  lt_panicked :: bool

definition lt_start :: "gotime \<Rightarrow> lt_run" where
  "lt_start t =
     \<lparr>lt_now = t, lt_main = Spawning, lt_rampStart = t, lt_polls = 0, lt_drivers = [],
      lt_ramp = (\<lparr>rc_connected = 0, rc_failed = 0, rc_refused = 0\<rparr>, []), lt_wire = [], lt_rampDuration = 0, lt_subs = [],
      lt_posts = [], lt_counts = \<lparr>sc_accepted = 0, sc_rejected = 0, sc_failed = 0, sc_latency = []\<rparr>,
      lt_submitDuration = 0, lt_panicked = False\<rparr>"

definition is_dialing :: "lt_phase \<Rightarrow> bool" where
  "is_dialing p \<longleftrightarrow> (case p of LtDialing _ \<Rightarrow> True | _ \<Rightarrow> False)"

definition phases :: "(lt_phase \<Rightarrow> bool) \<Rightarrow> lt_run \<Rightarrow> int" where
  "phases P st = int (length (filter P (map ld_phase (lt_drivers st))))"

definition ramp_done :: "ramp_counts \<Rightarrow> int" where
  "ramp_done c = rc_connected c + rc_failed c + rc_refused c"

text \<open>One iteration of the loop that waits for the ramp.\<close>

definition ramp_poll :: "pipeline_config \<Rightarrow> gotime \<Rightarrow> lt_run \<Rightarrow> lt_run" where
  "ramp_poll cfg deadline st =
     (if lt_now st < deadline \<and> ramp_done (fst (lt_ramp st)) < pl_numDrivers cfg
      then st\<lparr>lt_main := Ramping deadline (lt_now st + 200 * millisecond), lt_polls := lt_polls st + 1\<rparr>
      else st\<lparr>lt_main := Warming (lt_now st + wrap64 (2 * pl_pingEvery cfg)),
              lt_rampDuration := time_sub (lt_now st) (lt_rampStart st)\<rparr>)"

text \<open>The \<open>k\<close>-th tick of a ticker comes no earlier than \<open>k\<close> intervals after it was made; late ticks are dropped.
  Nothing runs after a panic.\<close>

inductive lt_step :: "pipeline_config \<Rightarrow> lt_run \<Rightarrow> lt_run \<Rightarrow> bool" for cfg where
  time_passes: "lt_now st \<le> t \<Longrightarrow> lt_step cfg st (st\<lparr>lt_now := t\<rparr>)"
| spawns: "\<not> lt_panicked st \<Longrightarrow> lt_main st = Spawning \<Longrightarrow> int (length (lt_drivers st)) < pl_numDrivers cfg \<Longrightarrow>
    lt_step cfg st (st\<lparr>lt_drivers := lt_drivers st @ [\<lparr>ld_phase = LtWaiting, ld_lat = 0, ld_lng = 0, ld_draws = 0\<rparr>]\<rparr>)"
| spawned: "\<not> lt_panicked st \<Longrightarrow> lt_main st = Spawning \<Longrightarrow> pl_numDrivers cfg \<le> int (length (lt_drivers st)) \<Longrightarrow>
    lt_step cfg st (st\<lparr>lt_main := Ramping (lt_now st + 90 * second) (lt_now st)\<rparr>)"
| driver: "\<not> lt_panicked st \<Longrightarrow> i < length (lt_drivers st) \<Longrightarrow> (e = EvAcquired \<Longrightarrow> phases is_dialing st < 200) \<Longrightarrow>
    (e = EvCancelled \<Longrightarrow> lt_main st = Finished) \<Longrightarrow>
    lt_run_driver cfg i (lt_now st) e (lt_drivers st ! i) (lt_ramp st) = Some (d, w, out, crash) \<Longrightarrow>
    lt_step cfg st (st\<lparr>lt_drivers := (lt_drivers st)[i := d], lt_ramp := w,
      lt_wire := lt_wire st @ (case out of None \<Rightarrow> [] | Some msg \<Rightarrow> [(i, msg)]), lt_panicked := crash\<rparr>)"
| polls: "\<not> lt_panicked st \<Longrightarrow> lt_main st = Ramping deadline wake \<Longrightarrow> wake \<le> lt_now st \<Longrightarrow>
    lt_step cfg st (ramp_poll cfg deadline st)"
| warmed: "\<not> lt_panicked st \<Longrightarrow> lt_main st = Warming wake \<Longrightarrow> wake \<le> lt_now st \<Longrightarrow>
    lt_step cfg st (case submit_interval (pl_rate cfg) of
                      None \<Rightarrow> st\<lparr>lt_panicked := True\<rparr>
                    | Some interval \<Rightarrow> st\<lparr>lt_main := Submitting (lt_now st) interval\<rparr>)"
| submits: "\<not> lt_panicked st \<Longrightarrow> lt_main st = Submitting start interval \<Longrightarrow> int (length (lt_subs st)) < pl_numRiders cfg \<Longrightarrow>
    start + (int (length (lt_subs st)) + 1) * interval \<le> lt_now st \<Longrightarrow>
    lt_step cfg st (st\<lparr>lt_subs := lt_subs st @ [new_submission cfg (length (lt_subs st))]\<rparr>)"
| submitted: "\<not> lt_panicked st \<Longrightarrow> lt_main st = Submitting start interval \<Longrightarrow> pl_numRiders cfg \<le> int (length (lt_subs st)) \<Longrightarrow>
    lt_step cfg st (st\<lparr>lt_main := Joining start\<rparr>)"
| bad_request: "\<not> lt_panicked st \<Longrightarrow> i < length (lt_subs st) \<Longrightarrow> sb_phase (lt_subs st ! i) = SubReady \<Longrightarrow>
    lt_step cfg st (st\<lparr>lt_subs := (lt_subs st)[i := (lt_subs st ! i)\<lparr>sb_phase := SubReturned\<rparr>],
      lt_counts := (lt_counts st)\<lparr>sc_failed := sc_failed (lt_counts st) + 1\<rparr>\<rparr>)"
| posts: "\<not> lt_panicked st \<Longrightarrow> i < length (lt_subs st) \<Longrightarrow> sb_phase (lt_subs st ! i) = SubReady \<Longrightarrow>
    lt_step cfg st (st\<lparr>lt_subs := (lt_subs st)[i := (lt_subs st ! i)\<lparr>sb_phase := SubSent (lt_now st)\<rparr>],
      lt_posts := lt_posts st @
        [(i, pl_restURL cfg @ ''/v1/ride-requests'', submit_header cfg, submit_body cfg i (lt_subs st ! i))]\<rparr>)"
| responds: "\<not> lt_panicked st \<Longrightarrow> i < length (lt_subs st) \<Longrightarrow> sb_phase (lt_subs st ! i) = SubSent start \<Longrightarrow>
    lt_step cfg st (st\<lparr>lt_subs := (lt_subs st)[i := (lt_subs st ! i)\<lparr>sb_phase := SubReturned\<rparr>],
      lt_counts := count_submit (res, time_sub (lt_now st) start) (lt_counts st)\<rparr>)"
| joined: "\<not> lt_panicked st \<Longrightarrow> lt_main st = Joining start \<Longrightarrow> (\<forall>sb \<in> set (lt_subs st). sb_phase sb = SubReturned) \<Longrightarrow>
    lt_step cfg st (st\<lparr>lt_main := Finished, lt_submitDuration := time_sub (lt_now st) start\<rparr>)"

text \<open>What the tool prints and reports at the end: the counters, the two summaries and the durations.\<close>

definition pipeline_summary :: "lt_run \<Rightarrow> ramp_counts \<times> stats \<times> submit_counts \<times> stats \<times> duration \<times> duration" where
  "pipeline_summary st =
     (fst (lt_ramp st), recorder_stats (snd (lt_ramp st)), lt_counts st, recorder_stats (sc_latency (lt_counts st)),
      lt_rampDuration st, lt_submitDuration st)"

definition report_row :: "stats \<Rightarrow> int \<times> duration list" where
  "report_row s = (ls_Count s, map lt_round [ls_Min s, ls_P50 s, ls_P95 s, ls_P99 s, ls_P999 s, ls_Max s])"

section \<open>Accounting\<close>

definition is_settled :: "lt_phase \<Rightarrow> bool" where
  "is_settled p \<longleftrightarrow> p = LtStaggering \<or> p = LtStreaming \<or> p = LtReturned"

lemma lt_run_driver_effect:
  assumes "lt_run_driver cfg i now e d (c, lat) = Some (d', (c', lat'), out, crash)"
  shows "ramp_done c' = ramp_done c - of_bool (is_settled (ld_phase d)) + of_bool (is_settled (ld_phase d'))"
    "ramp_done c \<le> ramp_done c'" "rc_connected c \<le> rc_connected c'" "rc_failed c \<le> rc_failed c'" "rc_refused c \<le> rc_refused c'"
    "int (length lat') - rc_connected c' - of_bool (ld_phase d' = LtRecorded) =
       int (length lat) - rc_connected c - of_bool (ld_phase d = LtRecorded)"
    "is_dialing (ld_phase d') \<longrightarrow> e = EvAcquired"
    "crash \<longrightarrow> pl_pingEvery cfg \<le> 0"
  using assms
  by (cases e; auto simp: ramp_done_def is_settled_def is_dialing_def count_dial_def Let_def split: if_splits lt_phase.splits)+

lemma phases_update:
  assumes "i < length (lt_drivers st)" "lt_drivers st' = (lt_drivers st)[i := d]"
  shows "phases P st' = phases P st - of_bool (P (ld_phase (lt_drivers st ! i))) + of_bool (P (ld_phase d))"
  using filter_update_length [of i "map ld_phase (lt_drivers st)" P "ld_phase d"] assms
  by (simp add: phases_def map_update)

text \<open>The ramp: at most 200 dials at a time, every driver counted exactly once, and one latency sample per connection.\<close>

definition ramp_ok :: "pipeline_config \<Rightarrow> lt_run \<Rightarrow> bool" where
  "ramp_ok cfg st \<longleftrightarrow>
     phases is_dialing st \<le> 200 \<and>
     ramp_done (fst (lt_ramp st)) = phases is_settled st \<and>
     0 \<le> rc_connected (fst (lt_ramp st)) \<and> 0 \<le> rc_failed (fst (lt_ramp st)) \<and> 0 \<le> rc_refused (fst (lt_ramp st)) \<and>
     int (length (snd (lt_ramp st))) = rc_connected (fst (lt_ramp st)) + phases (\<lambda>p. p = LtRecorded) st \<and>
     int (length (lt_drivers st)) \<le> max 0 (pl_numDrivers cfg) \<and>
     (lt_main st \<noteq> Spawning \<longrightarrow> pl_numDrivers cfg \<le> int (length (lt_drivers st))) \<and>
     (lt_panicked st \<longrightarrow> pl_pingEvery cfg \<le> 0 \<or> submit_interval (pl_rate cfg) = None)"

lemma ramp_ok_cong:
  assumes "ramp_ok cfg st" "lt_drivers st' = lt_drivers st" "lt_ramp st' = lt_ramp st" "lt_main st = Spawning \<Longrightarrow> lt_main st' = Spawning"
    "lt_panicked st' \<Longrightarrow> lt_panicked st"
  shows "ramp_ok cfg st'"
  using assms by (auto simp: ramp_ok_def phases_def)

lemma ramp_step_ok:
  assumes "lt_step cfg st st'" "ramp_ok cfg st"
  shows "ramp_ok cfg st'"
  using assms(1)
proof (cases rule: lt_step.cases)
  case spawns
  then show ?thesis using assms(2) by (auto simp: ramp_ok_def phases_def is_dialing_def is_settled_def)
next
  case spawned
  then show ?thesis using assms(2) by (auto simp: ramp_ok_def phases_def)
next
  case (driver i e d w out crash)
  obtain c lat c' lat' where w: "lt_ramp st = (c, lat)" "w = (c', lat')" by (metis prod.exhaust)
  note eff = lt_run_driver_effect [OF driver(6) [unfolded w]]
  have upd: "phases P st' = phases P st - of_bool (P (ld_phase (lt_drivers st ! i))) + of_bool (P (ld_phase d))" for P
    using driver by (intro phases_update) simp_all
  have "phases is_dialing st' \<le> 200"
    using upd [of is_dialing] eff(7) driver(4) assms(2) by (auto simp: ramp_ok_def)
  then show ?thesis
    using eff upd [of is_settled] upd [of "\<lambda>p. p = LtRecorded"] assms(2) w driver(1) by (auto simp: ramp_ok_def)
next
  case (warmed wake)
  then show ?thesis using assms(2) by (auto simp: ramp_ok_def phases_def split: option.splits)
qed (use assms(2) in \<open>auto intro!: ramp_ok_cong [OF assms(2)] simp: ramp_poll_def\<close>)

text \<open>The wait for the ramp: at most 450 polls, and it ends with every dial settled or after the full 90 seconds.\<close>

definition wait_ok :: "pipeline_config \<Rightarrow> lt_run \<Rightarrow> bool" where
  "wait_ok cfg st \<longleftrightarrow>
     lt_rampStart st \<le> lt_now st \<and> lt_polls st \<le> 450 \<and>
     (case lt_main st of
        Spawning \<Rightarrow> lt_polls st = 0
      | Ramping deadline wake \<Rightarrow>
          lt_rampStart st + 90 * second \<le> deadline \<and> deadline - 90 * second + int (lt_polls st) * (200 * millisecond) \<le> wake
      | _ \<Rightarrow> pl_numDrivers cfg \<le> ramp_done (fst (lt_ramp st)) \<or> 90 * second \<le> lt_rampDuration st)"

lemma wait_ok_cong:
  assumes "wait_ok cfg st" "lt_main st' = lt_main st" "lt_rampStart st' = lt_rampStart st" "lt_now st \<le> lt_now st'"
    "lt_polls st' = lt_polls st" "lt_rampDuration st' = lt_rampDuration st"
    "ramp_done (fst (lt_ramp st)) \<le> ramp_done (fst (lt_ramp st'))"
  shows "wait_ok cfg st'"
  using assms by (auto simp: wait_ok_def split: lt_main.splits)

lemma wait_step_ok:
  assumes "lt_step cfg st st'" "wait_ok cfg st"
  shows "wait_ok cfg st'"
  using assms(1)
proof (cases rule: lt_step.cases)
  case (driver i e d w out crash)
  obtain c lat c' lat' where w: "lt_ramp st = (c, lat)" "w = (c', lat')" by (metis prod.exhaust)
  show ?thesis
    by (rule wait_ok_cong [OF assms(2)]) (use driver w lt_run_driver_effect(2) [OF driver(6) [unfolded w]] in simp_all)
next
  case (polls deadline wake)
  then show ?thesis using assms(2) by (auto simp: wait_ok_def ramp_poll_def time_sub_def)
qed (use assms(2) in \<open>auto simp: wait_ok_def split: option.splits lt_main.splits\<close>)

text \<open>The submissions: every request is sent at most once and counted once, no faster than the rate.\<close>

definition returned :: "submission list \<Rightarrow> int" where
  "returned subs = int (length (filter (\<lambda>sb. sb_phase sb = SubReturned) subs))"

definition submit_ok :: "pipeline_config \<Rightarrow> lt_run \<Rightarrow> bool" where
  "submit_ok cfg st \<longleftrightarrow>
     int (length (lt_subs st)) \<le> max 0 (pl_numRiders cfg) \<and>
     sc_accepted (lt_counts st) + sc_rejected (lt_counts st) + sc_failed (lt_counts st) = returned (lt_subs st) \<and>
     sc_accepted (lt_counts st) + sc_rejected (lt_counts st) \<le> int (length (sc_latency (lt_counts st))) \<and>
     int (length (sc_latency (lt_counts st))) \<le> returned (lt_subs st) \<and>
     distinct (map fst (lt_posts st)) \<and>
     (\<forall>i \<in> set (map fst (lt_posts st)). i < length (lt_subs st) \<and> sb_phase (lt_subs st ! i) \<noteq> SubReady) \<and>
     (case lt_main st of
        Submitting start interval \<Rightarrow> submit_interval (pl_rate cfg) = Some interval \<and> start + int (length (lt_subs st)) * interval \<le> lt_now st
      | Joining start \<Rightarrow> pl_numRiders cfg \<le> int (length (lt_subs st))
      | Finished \<Rightarrow> pl_numRiders cfg \<le> int (length (lt_subs st)) \<and> (\<forall>sb \<in> set (lt_subs st). sb_phase sb = SubReturned)
      | _ \<Rightarrow> lt_subs st = [])"

lemma returned_update:
  assumes "i < length subs"
  shows "returned (subs[i := sb]) = returned subs - of_bool (sb_phase (subs ! i) = SubReturned) + of_bool (sb_phase sb = SubReturned)"
  unfolding returned_def by (rule filter_update_length [OF assms])

lemma count_submit_effect:
  shows "sc_accepted (count_submit r c) + sc_rejected (count_submit r c) + sc_failed (count_submit r c) =
      sc_accepted c + sc_rejected c + sc_failed c + 1"
    "length (sc_latency (count_submit r c)) = length (sc_latency c) + of_bool (\<not> isl (fst r))"
    "sc_accepted (count_submit r c) + sc_rejected (count_submit r c) \<le> sc_accepted c + sc_rejected c + of_bool (\<not> isl (fst r))"
  by (auto simp: count_submit_def Let_def split: prod.splits sum.splits)

text \<open>A step on submission \<open>i\<close> that leaves \<open>main\<close> alone.\<close>

lemma submit_ok_goroutine:
  assumes "submit_ok cfg st" "i < length (lt_subs st)" "sb_phase (lt_subs st ! i) \<noteq> SubReturned" "sb_phase sb \<noteq> SubReady"
    and st': "lt_subs st' = (lt_subs st)[i := sb]" "lt_main st' = lt_main st" "lt_now st' = lt_now st"
    and posts: "lt_posts st' = lt_posts st \<or> sb_phase (lt_subs st ! i) = SubReady \<and> (\<exists>x. lt_posts st' = lt_posts st @ [(i, x)])"
    and counts: "sc_accepted (lt_counts st') + sc_rejected (lt_counts st') + sc_failed (lt_counts st') =
        sc_accepted (lt_counts st) + sc_rejected (lt_counts st) + sc_failed (lt_counts st) + of_bool (sb_phase sb = SubReturned)"
      "length (sc_latency (lt_counts st')) = length (sc_latency (lt_counts st)) + k" "int k \<le> of_bool (sb_phase sb = SubReturned)"
      "sc_accepted (lt_counts st') + sc_rejected (lt_counts st') \<le> sc_accepted (lt_counts st) + sc_rejected (lt_counts st) + int k"
  shows "submit_ok cfg st'"
proof -
  have fin: "lt_main st \<noteq> Finished" using assms(1-3) by (auto simp: submit_ok_def)
  have fresh: "i \<notin> set (map fst (lt_posts st))" if "sb_phase (lt_subs st ! i) = SubReady"
    using assms(1) that by (auto simp: submit_ok_def)
  have upd: "returned (lt_subs st') = returned (lt_subs st) + of_bool (sb_phase sb = SubReturned)"
    using returned_update [OF assms(2), of sb] assms(3) by (simp add: st')
  have ps: "distinct (map fst (lt_posts st'))"
    "\<forall>j \<in> set (map fst (lt_posts st')). j < length (lt_subs st') \<and> sb_phase (lt_subs st' ! j) \<noteq> SubReady"
    using posts fresh assms(1,2,4) by (auto simp: submit_ok_def st' nth_list_update)
  show ?thesis
    using assms(1) counts upd fin unfolding submit_ok_def st' using ps [unfolded st']
    by (auto simp: st' split: lt_main.splits)
qed

lemma submit_ok_before:
  assumes "submit_ok cfg st" "lt_subs st' = lt_subs st" "lt_posts st' = lt_posts st" "lt_counts st' = lt_counts st"
    "lt_main st = Spawning" "lt_main st' = Spawning \<or> (\<exists>d w. lt_main st' = Ramping d w)"
  shows "submit_ok cfg st'"
  using assms(1,5,6) unfolding submit_ok_def assms(2-4) by (elim conjE disjE exE; intro conjI; (assumption | simp))

lemma submit_step_ok:
  assumes "lt_step cfg st st'" "submit_ok cfg st"
  shows "submit_ok cfg st'"
  using assms(1)
proof (cases rule: lt_step.cases)
  case spawns
  then show ?thesis by (intro submit_ok_before [OF assms(2)]) simp_all
next
  case spawned
  then show ?thesis by (intro submit_ok_before [OF assms(2)]) simp_all
next
  case (submits start interval)
  then show ?thesis
    using assms(2) by (auto simp: submit_ok_def returned_def new_submission_def nth_append algebra_simps)
next
  case (bad_request i)
  then show ?thesis by (intro submit_ok_goroutine [OF assms(2), where k = 0 and sb = "(lt_subs st ! i)\<lparr>sb_phase := SubReturned\<rparr>"]) simp_all
next
  case (posts i)
  then show ?thesis by (intro submit_ok_goroutine [OF assms(2), where k = 0 and sb = "(lt_subs st ! i)\<lparr>sb_phase := SubSent (lt_now st)\<rparr>"]) auto
next
  case (responds i start res)
  then show ?thesis
    by (intro submit_ok_goroutine [OF assms(2), where k = "of_bool (\<not> isl res)" and sb = "(lt_subs st ! i)\<lparr>sb_phase := SubReturned\<rparr>"])
      (use count_submit_effect [of "(res, time_sub (lt_now st) start)" "lt_counts st"] in \<open>auto split: if_splits\<close>)
next
  case (warmed wake)
  then show ?thesis using assms(2) by (auto simp: submit_ok_def split: option.splits)
qed (use assms(2) in \<open>auto simp: submit_ok_def ramp_poll_def split: lt_main.splits\<close>)

text \<open>At every moment of a run: at most 200 dials are open, no driver is counted twice, the wait for the ramp polls at
  most 450 times and gives up no earlier than after 90 seconds, and the process panics only for an interval or a rate
  that is not positive (or a rate above one per nanosecond). When it has finished, every rider was submitted and
  is counted exactly once as accepted, rejected or failed, and no rider was submitted twice.\<close>

theorem pipeline_accounting:
  assumes "(lt_step cfg)\<^sup>*\<^sup>* (lt_start t) st"
  shows "ramp_ok cfg st \<and> wait_ok cfg st \<and> submit_ok cfg st \<and>
    (lt_main st = Finished \<longrightarrow>
       sc_accepted (lt_counts st) + sc_rejected (lt_counts st) + sc_failed (lt_counts st) = max 0 (pl_numRiders cfg))"
proof -
  from assms have ok: "ramp_ok cfg st \<and> wait_ok cfg st \<and> submit_ok cfg st"
  proof (induction rule: rtranclp_induct)
    case base
    show ?case by (simp add: lt_start_def ramp_ok_def wait_ok_def submit_ok_def phases_def ramp_done_def returned_def)
  next
    case (step y z)
    then show ?case by (blast intro: ramp_step_ok wait_step_ok submit_step_ok)
  qed
  moreover have "returned (lt_subs st) = int (length (lt_subs st))" if "\<forall>sb \<in> set (lt_subs st). sb_phase sb = SubReturned"
    using that by (simp add: returned_def)
  ultimately show ?thesis by (auto simp: submit_ok_def)
qed

end
