(* ===== verification/Testutil.thy ===== *)
theory Testutil
  imports Http
begin

text \<open>
  \<open>internal/testutil\<close>: how the integration tests find the repository, start, await and stop the real engine and the
  real Redis. The machine (files, processes, clock) is the record \<open>harness\<close>. A helper ends the test by
  \<open>t.Fatal\<close> or \<open>t.Skip\<close> as a value, and \<open>t.Cleanup\<close> adds to the list of processes that are stopped when the test ends.
  Absolute, clean paths are lists of components.
\<close>

section \<open>The machine\<close>

type_synonym path = "string list"

definition path_text :: "path \<Rightarrow> string" where
  "path_text p = (if p = [] then ''/'' else concat (map (\<lambda>c. ''/'' @ c) p))"

text \<open>\<open>h_Stdout pid d\<close> is what the scanner goroutine and the \<open>select\<close> see of the standard output: the lines up to and
  with the readiness line, or all lines when the output ends without one; \<open>None\<close> when neither happened within \<open>d\<close>.
  \<open>h_Wait\<close> returns when the process has exited.\<close>

record 's harness =
  h_Now :: "'s \<Rightarrow> gotime"
  h_Sleep :: "duration \<Rightarrow> 's \<Rightarrow> 's"
  h_Getwd :: "'s \<Rightarrow> goerr + path"
  h_Stat :: "path \<Rightarrow> 's \<Rightarrow> bool"
  h_LookPath :: "string \<Rightarrow> 's \<Rightarrow> bool"
  h_MkdirTemp :: "'s \<Rightarrow> 's \<times> (goerr + path)"
  h_StdoutPipe :: "'s \<Rightarrow> goerr option"
  h_Start :: "string \<Rightarrow> string list \<Rightarrow> 's \<Rightarrow> 's \<times> (goerr + nat)"
  h_Stdout :: "nat \<Rightarrow> duration \<Rightarrow> 's \<Rightarrow> 's \<times> string list option"
  h_Kill :: "nat \<Rightarrow> 's \<Rightarrow> 's \<times> goerr option"
  h_Wait :: "nat \<Rightarrow> 's \<Rightarrow> 's"

datatype 'a test_outcome = Started 'a | Skipped | Fatal

section \<open>Waiting\<close>

text \<open>\<open>WaitFor\<close>, with \<open>cond\<close> as an observation that may change the state. \<open>pause\<close> is the \<open>select\<close> of the context
  and the timer, \<open>True\<close> when the context was done first.\<close>

partial_function (option) wait_loop ::
  "'s harness \<Rightarrow> ('s \<Rightarrow> 's \<times> bool) \<Rightarrow> gotime \<Rightarrow> ('s \<Rightarrow> 's \<times> bool) \<Rightarrow> 's \<Rightarrow> ('s \<times> bool) option" where
  "wait_loop h pause deadline cond s =
     (if \<not> h_Now h s < deadline then Some (cond s)
      else case cond s of
             (s1, holds) \<Rightarrow>
               if holds then Some (s1, True)
               else case pause s1 of
                      (s2, cancelled) \<Rightarrow> if cancelled then Some (s2, False) else wait_loop h pause deadline cond s2)"

definition WaitFor :: "'s harness \<Rightarrow> (duration \<Rightarrow> 's \<Rightarrow> 's \<times> bool) \<Rightarrow> duration \<Rightarrow> ('s \<Rightarrow> 's \<times> bool) \<Rightarrow> 's \<Rightarrow> ('s \<times> bool) option" where
  "WaitFor h select timeout cond s = wait_loop h (select (10 * millisecond)) (h_Now h s + timeout) cond s"

definition fileExists :: "'s harness \<Rightarrow> path \<Rightarrow> 's \<Rightarrow> bool" where
  "fileExists h p s = h_Stat h p s"

partial_function (option) file_loop :: "'s harness \<Rightarrow> path \<Rightarrow> gotime \<Rightarrow> 's \<Rightarrow> ('s \<times> bool) option" where
  "file_loop h p deadline s =
     (if \<not> h_Now h s < deadline then Some (s, fileExists h p s)
      else if fileExists h p s then Some (s, True)
      else file_loop h p deadline (h_Sleep h (10 * millisecond) s))"

definition WaitForFile :: "'s harness \<Rightarrow> path \<Rightarrow> duration \<Rightarrow> 's \<Rightarrow> ('s \<times> bool) option" where
  "WaitForFile h p timeout s = file_loop h p (h_Now h s + timeout) s"

section \<open>The engine\<close>

record EngineProcess =
  ep_cmd :: "nat option"
  ep_Addr :: string
  ep_GraphID :: string

text \<open>The method of both process types: kill, wait, and forget the handle.\<close>

definition stop_cmd :: "'s harness \<Rightarrow> nat option \<Rightarrow> 's \<Rightarrow> 's" where
  "stop_cmd h cmd s = (case cmd of None \<Rightarrow> s | Some pid \<Rightarrow> h_Wait h pid (fst (h_Kill h pid s)))"

definition engine_Stop :: "'s harness \<Rightarrow> EngineProcess \<Rightarrow> 's \<Rightarrow> 's \<times> EngineProcess" where
  "engine_Stop h p s = (stop_cmd h (ep_cmd p) s, p\<lparr>ep_cmd := None\<rparr>)"

definition engine_Kill :: "'s harness \<Rightarrow> EngineProcess \<Rightarrow> 's \<Rightarrow> 's \<times> EngineProcess test_outcome" where
  "engine_Kill h p s =
     (case ep_cmd p of
        None \<Rightarrow> (s, Started p)
      | Some pid \<Rightarrow>
          (case h_Kill h pid s of
             (s1, Some _) \<Rightarrow> (s1, Fatal)
           | (s1, None) \<Rightarrow> (h_Wait h pid s1, Started (p\<lparr>ep_cmd := None\<rparr>))))"

definition has_marker :: "'s harness \<Rightarrow> 's \<Rightarrow> path \<Rightarrow> bool" where
  "has_marker h s dir = h_Stat h (dir @ [''matching_engine'', ''CMakeLists.txt'']) s"

fun root_loop :: "'s harness \<Rightarrow> 's \<Rightarrow> nat \<Rightarrow> path \<Rightarrow> path option" where
  "root_loop h s 0 dir = None"
| "root_loop h s (Suc n) dir =
     (if has_marker h s dir then Some dir
      else let parent = butlast dir in if parent = dir then None else root_loop h s n parent)"

definition repoRoot :: "'s harness \<Rightarrow> 's \<Rightarrow> path option" where
  "repoRoot h s = (case h_Getwd h s of Inl _ \<Rightarrow> None | Inr dir \<Rightarrow> root_loop h s 10 dir)"

definition ready_prefix :: string where
  "ready_prefix = ''matching_server listening on ''"

text \<open>The scanner of the output: the text after the prefix on the first line that has it.\<close>

fun scan_ready :: "string list \<Rightarrow> string option" where
  "scan_ready [] = None"
| "scan_ready (l # ls) = (if has_prefix l ready_prefix then Some (drop (length ready_prefix) l) else scan_ready ls)"

text \<open>The second component of the result are the processes whose \<open>Stop\<close> was registered with \<open>t.Cleanup\<close>.\<close>

definition StartEngine :: "'s harness \<Rightarrow> bool \<Rightarrow> 's \<Rightarrow> 's \<times> nat list \<times> EngineProcess test_outcome" where
  "StartEngine h withGraph s =
     (case repoRoot h s of
        None \<Rightarrow> (s, [], Fatal)
      | Some rootDir \<Rightarrow>
          let bin = rootDir @ [''matching_engine'', ''build'', ''matching_server''];
              graphPath = rootDir @ [''matching_engine'', ''data'', ''bengaluru_roads.osm''];
              graphID = (if withGraph then ''blr-central'' else []);
              args = [''--port'', ''0''] @ (if withGraph then [''--graph'', graphID @ ''='' @ path_text graphPath] else [])
          in if \<not> h_Stat h bin s then (s, [], Skipped)
             else if withGraph \<and> \<not> h_Stat h graphPath s then (s, [], Skipped)
             else if h_StdoutPipe h s \<noteq> None then (s, [], Fatal)
             else case h_Start h (path_text bin) args s of
                    (s1, Inl _) \<Rightarrow> (s1, [], Fatal)
                  | (s1, Inr pid) \<Rightarrow>
                      (case h_Stdout h pid (30 * second) s1 of
                         (s2, None) \<Rightarrow> (s2, [pid], Fatal)
                       | (s2, Some ls) \<Rightarrow>
                           (case scan_ready ls of
                              None \<Rightarrow> (s2, [pid], Fatal)
                            | Some port \<Rightarrow>
                                (s2, [pid], Started \<lparr>ep_cmd = Some pid, ep_Addr = ''127.0.0.1:'' @ trim_space port, ep_GraphID = graphID\<rparr>))))"

definition port_of :: "string \<Rightarrow> string" where
  "port_of addr = rev (takeWhile (\<lambda>c. c \<noteq> CHR '':'') (rev addr))"

fun restart_loop :: "'s harness \<Rightarrow> path \<Rightarrow> string \<Rightarrow> nat \<Rightarrow> 's \<Rightarrow> 's \<times> nat list \<times> EngineProcess test_outcome" where
  "restart_loop h bin addr 0 s = (s, [], Fatal)"
| "restart_loop h bin addr (Suc n) s =
     (if h_StdoutPipe h s \<noteq> None then (s, [], Fatal)
      else case h_Start h (path_text bin) [''--port'', port_of addr] s of
             (s1, Inl _) \<Rightarrow> restart_loop h bin addr n (h_Sleep h (100 * millisecond) s1)
           | (s1, Inr pid) \<Rightarrow>
               (let again = (\<lambda>t. restart_loop h bin addr n (h_Sleep h (100 * millisecond) (h_Wait h pid t)))
                in case h_Stdout h pid (10 * second) s1 of
                     (s2, None) \<Rightarrow> again (fst (h_Kill h pid s2))
                   | (s2, Some ls) \<Rightarrow>
                       if scan_ready ls \<noteq> None then (s2, [pid], Started \<lparr>ep_cmd = Some pid, ep_Addr = addr, ep_GraphID = []\<rparr>)
                       else again s2))"

definition StartEngineAt :: "'s harness \<Rightarrow> string \<Rightarrow> 's \<Rightarrow> 's \<times> nat list \<times> EngineProcess test_outcome" where
  "StartEngineAt h addr s =
     (case repoRoot h s of
        None \<Rightarrow> (s, [], Fatal)
      | Some rootDir \<Rightarrow>
          let bin = rootDir @ [''matching_engine'', ''build'', ''matching_server'']
          in if \<not> h_Stat h bin s then (s, [], Skipped) else restart_loop h bin addr 40 s)"

section \<open>Redis\<close>

record RedisProcess =
  rp_cmd :: "nat option"
  rp_Addr :: string

definition redis_Stop :: "'s harness \<Rightarrow> RedisProcess \<Rightarrow> 's \<Rightarrow> 's \<times> RedisProcess" where
  "redis_Stop h p s = (stop_cmd h (rp_cmd p) s, p\<lparr>rp_cmd := None\<rparr>)"

definition redis_Kill :: "'s harness \<Rightarrow> RedisProcess \<Rightarrow> 's \<Rightarrow> 's \<times> RedisProcess" where
  "redis_Kill h p s = redis_Stop h p s"

text \<open>\<open>None\<close>: the wait for the socket does not end. On a time-out the process is stopped at once and its
  registered \<open>Stop\<close> finds no handle.\<close>

definition StartRedis :: "'s harness \<Rightarrow> 's \<Rightarrow> ('s \<times> nat list \<times> RedisProcess test_outcome) option" where
  "StartRedis h s =
     (if \<not> h_LookPath h ''redis-server'' s then Some (s, [], Skipped)
      else case h_MkdirTemp h s of
             (s1, Inl _) \<Rightarrow> Some (s1, [], Fatal)
           | (s1, Inr dir) \<Rightarrow>
               (let socket = dir @ [''r.sock''] in
                if 100 < length (path_text socket) then Some (s1, [], Skipped)
                else case h_Start h ''redis-server''
                            [''--port'', ''0'', ''--unixsocket'', path_text socket, ''--save'', [], ''--appendonly'', ''no'',
                             ''--dir'', path_text dir] s1 of
                       (s2, Inl _) \<Rightarrow> Some (s2, [], Fatal)
                     | (s2, Inr pid) \<Rightarrow>
                         map_option (\<lambda>(s3, up).
                             if up then (s3, [pid], Started \<lparr>rp_cmd = Some pid, rp_Addr = path_text socket\<rparr>)
                             else (stop_cmd h (Some pid) s3, [], Fatal))
                           (WaitForFile h socket (10 * second) s2)))"

definition redis_network :: "string \<Rightarrow> string" where
  "redis_network addr = (if 0 < length addr \<and> addr ! 0 = CHR ''/'' then ''unix'' else ''tcp'')"

definition RedisCmd :: "(string \<Rightarrow> string \<Rightarrow> string list \<Rightarrow> 's \<Rightarrow> 's \<times> goerr option) \<Rightarrow> string \<Rightarrow> string list \<Rightarrow> 's \<Rightarrow> 's \<times> goerr option" where
  "RedisCmd redis_Do addr args s = redis_Do (redis_network addr) addr args s"

section \<open>What the waits promise\<close>

text \<open>The clock moves: a pause that the context does not end takes its time, and looking does not turn time back.\<close>

definition pauses :: "'s harness \<Rightarrow> ('s \<Rightarrow> 's \<times> bool) \<Rightarrow> ('s \<Rightarrow> 's \<times> bool) \<Rightarrow> bool" where
  "pauses h pause cond \<longleftrightarrow>
     (\<forall>s. h_Now h s \<le> h_Now h (fst (cond s))) \<and>
     (\<forall>s s'. pause s = (s', False) \<longrightarrow> h_Now h s + 10 * millisecond \<le> h_Now h s')"

lemma wait_loop_decides:
  assumes p: "pauses h pause cond" and n: "deadline - h_Now h s \<le> int n * (10 * millisecond)"
  shows "\<exists>s' ok. wait_loop h pause deadline cond s = Some (s', ok) \<and>
    (if ok then \<exists>t. cond t = (s', True)
     else (\<exists>t. pause t = (s', True)) \<or> (\<exists>t. cond t = (s', False) \<and> deadline \<le> h_Now h t))"
  using n
proof (induction n arbitrary: s)
  case 0
  then show ?case by (subst wait_loop.simps) (cases "cond s"; auto)
next
  case (Suc n)
  obtain s1 b where c: "cond s = (s1, b)" by force
  obtain s2 e where e: "pause s1 = (s2, e)" by force
  show ?case
  proof (cases "h_Now h s < deadline \<and> \<not> b \<and> \<not> e")
    case True
    have "h_Now h s \<le> h_Now h s1" "h_Now h s1 + 10 * millisecond \<le> h_Now h s2"
      using p c e True unfolding pauses_def by (metis fst_conv)+
    with Suc.prems have "deadline - h_Now h s2 \<le> int n * (10 * millisecond)" by (simp add: algebra_simps)
    from Suc.IH [OF this] show ?thesis using True c e by (subst wait_loop.simps) auto
  next
    case False
    then consider "\<not> h_Now h s < deadline" | "h_Now h s < deadline" b | "h_Now h s < deadline" "\<not> b" e by blast
    then show ?thesis
    proof cases
      case 1
      then have "wait_loop h pause deadline cond s = Some (s1, b)" using c by (subst wait_loop.simps) simp
      moreover have "deadline \<le> h_Now h s" using 1 by simp
      ultimately show ?thesis using c by (intro exI [of _ s1] exI [of _ b]) (cases b; simp; blast)
    next
      case 2
      then have "wait_loop h pause deadline cond s = Some (s1, True)" using c by (subst wait_loop.simps) simp
      with 2 c show ?thesis by auto
    next
      case 3
      then have "wait_loop h pause deadline cond s = Some (s2, False)" using c e by (subst wait_loop.simps) simp
      with 3 e show ?thesis by auto
    qed
  qed
qed

text \<open>\<open>WaitFor\<close> always returns; \<open>true\<close> means that the condition was just seen to hold, and \<open>false\<close> that the context ended
  or that the condition was seen to fail once more after the deadline.\<close>

theorem wait_for_decides:
  assumes "pauses h (select (10 * millisecond)) cond"
  shows "\<exists>s' ok. WaitFor h select timeout cond s = Some (s', ok) \<and>
    (if ok then \<exists>t. cond t = (s', True)
     else (\<exists>t. select (10 * millisecond) t = (s', True)) \<or> (\<exists>t. cond t = (s', False) \<and> h_Now h s + timeout \<le> h_Now h t))"
  unfolding WaitFor_def by (rule wait_loop_decides [OF assms, where n = "nat timeout"]) auto

definition file_seen :: "'s harness \<Rightarrow> path \<Rightarrow> 's \<Rightarrow> 's \<times> bool" where
  "file_seen h p s = (s, fileExists h p s)"

definition plain_pause :: "'s harness \<Rightarrow> duration \<Rightarrow> 's \<Rightarrow> 's \<times> bool" where
  "plain_pause h d s = (h_Sleep h d s, False)"

definition sleeps :: "'s harness \<Rightarrow> bool" where
  "sleeps h \<longleftrightarrow> (\<forall>d s. h_Now h s + d \<le> h_Now h (h_Sleep h d s))"

lemma sleeps_pauses: "sleeps h \<Longrightarrow> pauses h (plain_pause h (10 * millisecond)) (file_seen h p)"
  by (auto simp: sleeps_def pauses_def plain_pause_def file_seen_def)

text \<open>\<open>WaitForFile\<close> is \<open>WaitFor\<close> on the existence of the file, with a context that never ends.\<close>

theorem wait_for_file_is_wait_for:
  assumes "sleeps h"
  shows "WaitForFile h p timeout s = WaitFor h (plain_pause h) timeout (file_seen h p) s"
proof -
  define pause cond where "pause = plain_pause h (10 * millisecond)" and "cond = file_seen h p"
  have eqs: "pause s = (h_Sleep h (10 * millisecond) s, False)" "cond s = (s, fileExists h p s)" for s
    by (simp_all add: pause_def cond_def plain_pause_def file_seen_def)
  have "file_loop h p deadline s = wait_loop h pause deadline cond s"
    if "deadline - h_Now h s \<le> int n * (10 * millisecond)" for n deadline s
    using that
  proof (induction n arbitrary: s)
    case 0
    then show ?case by (subst file_loop.simps, subst wait_loop.simps) (simp add: eqs [of s])
  next
    case (Suc n)
    have "h_Now h s + 10 * millisecond \<le> h_Now h (h_Sleep h (10 * millisecond) s)" using assms by (simp add: sleeps_def)
    with Suc.prems have "deadline - h_Now h (h_Sleep h (10 * millisecond) s) \<le> int n * (10 * millisecond)"
      by (simp add: algebra_simps)
    note IH = Suc.IH [OF this]
    show ?case by (subst file_loop.simps, subst wait_loop.simps) (use IH in \<open>simp add: eqs [of s]\<close>)
  qed
  from this [of "h_Now h s + timeout" s "nat timeout"] show ?thesis
    by (auto simp: WaitForFile_def WaitFor_def pause_def cond_def)
qed

section \<open>The repository root\<close>

text \<open>The search finds the nearest directory above, among the first ten, that holds the marker.\<close>

theorem root_loop_nearest:
  "root_loop h s n dir = Some rootDir \<longleftrightarrow>
     (\<exists>k < n. k \<le> length dir \<and> rootDir = take (length dir - k) dir \<and> has_marker h s rootDir \<and>
        (\<forall>j < k. \<not> has_marker h s (take (length dir - j) dir)))"
proof (induction n arbitrary: dir)
  case 0
  then show ?case by simp
next
  case (Suc n)
  show ?case
  proof (cases "has_marker h s dir \<or> dir = []")
    case True
    then show ?thesis by (force simp: Let_def)
  next
    case False
    then have drop: "take (length (butlast dir) - j) (butlast dir) = take (length dir - Suc j) dir" for j
      by (simp add: butlast_conv_take take_take min_def)
    have len: "k \<le> length (butlast dir) \<longleftrightarrow> Suc k \<le> length dir" for k using False by (cases dir) auto
    have "butlast dir \<noteq> dir" using False by (metis append_butlast_last_id self_append_conv not_Cons_self2)
    with False have "root_loop h s (Suc n) dir = root_loop h s n (butlast dir)" by (simp add: Let_def)
    also have "\<dots> = Some rootDir \<longleftrightarrow> (\<exists>k < n. Suc k \<le> length dir \<and> rootDir = take (length dir - Suc k) dir \<and> has_marker h s rootDir \<and>
        (\<forall>j < k. \<not> has_marker h s (take (length dir - Suc j) dir)))"
      unfolding Suc.IH drop len ..
    also have "\<dots> \<longleftrightarrow> (\<exists>k < Suc n. k \<le> length dir \<and> rootDir = take (length dir - k) dir \<and> has_marker h s rootDir \<and>
        (\<forall>j < k. \<not> has_marker h s (take (length dir - j) dir)))"
      unfolding Ex_less_Suc2 All_less_Suc2 using False by auto
    finally show ?thesis .
  qed
qed

section \<open>No process is left behind\<close>

text \<open>What the helpers rely on: a process is live from its start until it exits, which is never later than the
  return of \<open>Wait\<close>, and nothing else makes one.\<close>

definition reaps :: "'s harness \<Rightarrow> ('s \<Rightarrow> nat set) \<Rightarrow> bool" where
  "reaps h live \<longleftrightarrow>
     (\<forall>bin args s s' pid. h_Start h bin args s = (s', Inr pid) \<longrightarrow> live s' \<subseteq> insert pid (live s)) \<and>
     (\<forall>bin args s s' e. h_Start h bin args s = (s', Inl e) \<longrightarrow> live s' \<subseteq> live s) \<and>
     (\<forall>pid d s. live (fst (h_Stdout h pid d s)) \<subseteq> live s) \<and>
     (\<forall>pid s. live (fst (h_Kill h pid s)) \<subseteq> live s) \<and>
     (\<forall>pid s. live (h_Wait h pid s) \<subseteq> live s - {pid}) \<and>
     (\<forall>d s. live (h_Sleep h d s) \<subseteq> live s) \<and>
     (\<forall>s. live (fst (h_MkdirTemp h s)) \<subseteq> live s)"

lemma reapsD:
  assumes "reaps h live"
  shows start_live: "h_Start h bin args s = (s', Inr pid) \<Longrightarrow> live s' \<subseteq> insert pid (live s)"
    and start_failed: "h_Start h bin args s = (s', Inl e) \<Longrightarrow> live s' \<subseteq> live s"
    and stdout_live: "live (fst (h_Stdout h pid d s)) \<subseteq> live s"
    and kill_live: "live (fst (h_Kill h pid s)) \<subseteq> live s"
    and wait_live: "live (h_Wait h pid s) \<subseteq> live s - {pid}"
    and sleep_live: "live (h_Sleep h d s) \<subseteq> live s"
    and temp_live: "live (fst (h_MkdirTemp h s)) \<subseteq> live s"
  using assms unfolding reaps_def by simp_all blast

lemma stop_live:
  assumes "reaps h live"
  shows "live (stop_cmd h (Some pid) s) \<subseteq> live s - {pid}"
  using wait_live [OF assms, of pid "fst (h_Kill h pid s)"] kill_live [OF assms, of pid s] by (auto simp: stop_cmd_def)

lemma restart_loop_live:
  assumes r: "reaps h live" and "restart_loop h bin addr n s = (s', cleanup, res)"
  shows "live s' \<subseteq> live s \<union> set cleanup"
  using assms(2)
proof (induction n arbitrary: s)
  case (Suc n)
  obtain s1 x where st: "h_Start h (path_text bin) [''--port'', port_of addr] s = (s1, x)" by force
  have again: "live s' \<subseteq> live s \<union> set cleanup"
    if "restart_loop h bin addr n (h_Sleep h (100 * millisecond) t) = (s', cleanup, res)" "live t \<subseteq> live s" for t
    using Suc.IH [OF that(1)] that(2) sleep_live [OF r, of "100 * millisecond" t] by blast
  show ?case
  proof (cases x)
    case (Inl e)
    have "live s1 \<subseteq> live s" by (rule start_failed [OF r st [unfolded Inl]])
    with Suc.prems st Inl show ?thesis by (cases "h_StdoutPipe h s") (simp_all add: again)
  next
    case (Inr pid)
    obtain s2 ls where o: "h_Stdout h pid (10 * second) s1 = (s2, ls)" by force
    have l2: "live s2 \<subseteq> insert pid (live s)" using stdout_live [OF r, of pid "10 * second" s1] o start_live [OF r st [unfolded Inr]] by auto
    then have "live (h_Wait h pid s2) \<subseteq> live s" "live (h_Wait h pid (fst (h_Kill h pid s2))) \<subseteq> live s"
      using wait_live [OF r, of pid s2] stop_live [OF r, of pid s2] by (auto simp: stop_cmd_def)
    with Suc.prems st Inr o l2 again [of "h_Wait h pid s2"] again [of "h_Wait h pid (fst (h_Kill h pid s2))"] show ?thesis
      by (auto simp: Let_def split: if_splits option.splits)
  qed
qed simp

lemma start_engine_live:
  assumes r: "reaps h live" and "StartEngine h g s = (s', cleanup, res)"
  shows "live s' \<subseteq> live s \<union> set cleanup"
proof -
  have out: "live s2 \<subseteq> insert pid (live s)" if "h_Start h bin args s = (s1, Inr pid)" "h_Stdout h pid d s1 = (s2, ls)" for bin args s1 s2 pid d ls
    using start_live [OF r that(1)] stdout_live [OF r, of pid d s1] that(2) by auto
  show ?thesis
    using assms(2) unfolding StartEngine_def Let_def
    by (auto split: option.splits if_splits prod.splits sum.splits dest: out [THEN subsetD] start_failed [OF r, THEN subsetD])
qed

lemma start_engine_at_live:
  assumes r: "reaps h live" and "StartEngineAt h addr s = (s', cleanup, res)"
  shows "live s' \<subseteq> live s \<union> set cleanup"
  using assms(2)
  by (auto simp: StartEngineAt_def Let_def split: option.splits if_splits dest: restart_loop_live [OF r, THEN subsetD])

lemma file_loop_live:
  fixes h :: "'s harness"
  assumes r: "reaps h live" and "file_loop h p deadline s = Some (s', b)"
  shows "live s' \<subseteq> live s"
proof -
  have "reaps h live \<longrightarrow> live (fst (s', b)) \<subseteq> live s"
  proof (rule file_loop.raw_induct [OF _ assms(2)], intro impI)
    fix file_loop :: "'s harness \<Rightarrow> path \<Rightarrow> gotime \<Rightarrow> 's \<Rightarrow> ('s \<times> bool) option" and h p deadline s y
    assume IH: "\<And>h p d s y. file_loop h p d s = Some y \<Longrightarrow> reaps h live \<longrightarrow> live (fst y) \<subseteq> live s" and r: "reaps h live"
      and body: "(if \<not> h_Now h s < deadline then Some (s, fileExists h p s) else if fileExists h p s then Some (s, True)
        else file_loop h p deadline (h_Sleep h (10 * millisecond) s)) = Some y"
    show "live (fst y) \<subseteq> live s"
      using body IH [of h p deadline "h_Sleep h (10 * millisecond) s" y] r sleep_live [OF r, of "10 * millisecond" s]
      by (auto split: if_splits)
  qed
  with r show ?thesis by simp
qed

lemma start_redis_live:
  assumes r: "reaps h live" and "StartRedis h s = Some (s', cleanup, res)"
  shows "live s' \<subseteq> live s \<union> set cleanup"
proof -
  have temp: "live s1 \<subseteq> live s" if "h_MkdirTemp h s = (s1, x)" for s1 x
    using temp_live [OF r, of s] that by simp
  have up: "live s3 \<subseteq> insert pid (live s)"
    if "h_MkdirTemp h s = (s1, x)" "h_Start h bin args s1 = (s2, Inr pid)" "file_loop h p d s2 = Some (s3, b)" for s1 x bin args s2 pid p d s3 b
    using temp [OF that(1)] start_live [OF r that(2)] file_loop_live [OF r that(3)] by blast
  have stopped: "live (stop_cmd h (Some pid) s3) \<subseteq> live s"
    if "h_MkdirTemp h s = (s1, x)" "h_Start h bin args s1 = (s2, Inr pid)" "file_loop h p d s2 = Some (s3, b)" for s1 x bin args s2 pid p d s3 b
    using up [OF that] stop_live [OF r, of pid s3] by blast
  have started: "live s' \<subseteq> live s \<union> set cleanup"
    if "h_MkdirTemp h s = (s1, Inr dir)" "h_Start h bin args s1 = (s2, x)"
      "(case x of Inl e \<Rightarrow> Some (s2, [], Fatal)
        | Inr pid \<Rightarrow> map_option (\<lambda>(s3, up). if up then (s3, [pid], Started (mk pid)) else (stop_cmd h (Some pid) s3, [], Fatal))
            (WaitForFile h p d s2)) = Some (s', cleanup, res)" for s1 dir bin args s2 x mk p d
  proof (cases x)
    case (Inl e)
    with that show ?thesis using temp [OF that(1)] start_failed [OF r that(2) [unfolded Inl]] by auto
  next
    case (Inr pid)
    with that(3) obtain s3 b where w: "WaitForFile h p d s2 = Some (s3, b)" by (cases "WaitForFile h p d s2") auto
    note f = that(1) that(2) [unfolded Inr] w [unfolded WaitForFile_def]
    show ?thesis using that(3) Inr w up [OF f] stopped [OF f] by (cases b) auto
  qed
  obtain s1 x where t: "h_MkdirTemp h s = (s1, x)" by force
  show ?thesis
  proof (cases x)
    case (Inl e)
    then show ?thesis using assms(2) t temp [OF t] by (auto simp: StartRedis_def split: if_splits)
  next
    case (Inr dir)
    let ?socket = "dir @ [''r.sock'']"
    obtain s2 y where st: "h_Start h ''redis-server'' [''--port'', ''0'', ''--unixsocket'', path_text ?socket, ''--save'', [],
        ''--appendonly'', ''no'', ''--dir'', path_text dir] s1 = (s2, y)" by force
    note go = started [OF t [unfolded Inr] st, of "\<lambda>pid. \<lparr>rp_cmd = Some pid, rp_Addr = path_text ?socket\<rparr>" ?socket "10 * second"]
    show ?thesis
    proof (cases "h_LookPath h ''redis-server'' s \<and> length (path_text ?socket) \<le> 100")
      case True
      then show ?thesis using assms(2) t Inr st by (intro go) (cases y; simp add: StartRedis_def Let_def)
    next
      case False
      then show ?thesis using assms(2) t Inr temp [OF t] by (auto simp: StartRedis_def Let_def split: if_splits)
    qed
  qed
qed

lemma cleanup_live:
  assumes r: "reaps h live"
  shows "live (fold (\<lambda>pid. stop_cmd h (Some pid)) cleanup s) \<subseteq> live s - set cleanup"
proof (induction cleanup arbitrary: s)
  case (Cons pid ps)
  show ?case using Cons.IH [of "stop_cmd h (Some pid) s"] stop_live [OF r, of pid s] by auto
qed simp

text \<open>Whatever a helper does, and however often the engine fails to come back, the cleanup of the test leaves no
  process behind that was not there before.\<close>

theorem no_process_left:
  assumes r: "reaps h live"
    and "StartEngine h g s = (s', cleanup, e) \<or> StartEngineAt h addr s = (s', cleanup, e) \<or> StartRedis h s = Some (s', cleanup, q)"
  shows "live (fold (\<lambda>pid. stop_cmd h (Some pid)) cleanup s') \<subseteq> live s"
proof -
  have "live s' \<subseteq> live s \<union> set cleanup"
    using assms(2) start_engine_live [OF r, of g s s' cleanup e] start_engine_at_live [OF r, of addr s s' cleanup e]
      start_redis_live [OF r, of s s' cleanup q] by argo
  with cleanup_live [OF r, of cleanup s'] show ?thesis by blast
qed

text \<open>A machine in memory for which the assumptions hold: its clock, the live processes and the next process number.
  Every process says at once that it listens.\<close>

definition mem_machine :: "(gotime \<times> nat list \<times> nat) harness" where
  "mem_machine =
     \<lparr>h_Now = fst, h_Sleep = (\<lambda>d (t, ps). (t + max 0 d, ps)), h_Getwd = (\<lambda>_. Inr [''repo'', ''infrastructure'', ''internal'', ''batcher'']),
      h_Stat = (\<lambda>p _. take 2 p = [''repo'', ''matching_engine'']), h_LookPath = (\<lambda>_ _. True), h_MkdirTemp = (\<lambda>s. (s, Inr [''tmp'', ''rm1''])),
      h_StdoutPipe = (\<lambda>_. None), h_Start = (\<lambda>_ _ (t, ps, n). ((t, n # ps, n + 1), Inr n)),
      h_Stdout = (\<lambda>_ _ s. (s, Some [''loading'', ''matching_server listening on 50051 ''])), h_Kill = (\<lambda>_ s. (s, None)),
      h_Wait = (\<lambda>pid (t, ps, n). (t, removeAll pid ps, n))\<rparr>"

lemma mem_machine_laws: "sleeps mem_machine" "reaps mem_machine (\<lambda>(t, ps, n). set ps)"
  by (auto simp: sleeps_def reaps_def mem_machine_def)

lemma mem_machine_starts:
  "StartEngine mem_machine False (0, [], 0) =
     ((0, [0], 1), [0], Started \<lparr>ep_cmd = Some 0, ep_Addr = ''127.0.0.1:50051'', ep_GraphID = []\<rparr>)"
  by code_simp

end
