(* ===== verification/Spec2Isabelle.thy ===== *)
theory Spec2Isabelle
  imports Geohash_Properties Lifecycle Loadtest_Pipeline Testutil
begin

text \<open>
  A verification of the ride-matching services under \<open>src/infrastructure\<close> (Go).

  \<^bold>\<open>The system.\<close> Riders post ride requests to \<open>requestd\<close> (\<open>internal/api\<close>, behind the API keys of
  \<open>internal/auth\<close>), which publishes them to a Redis stream (\<open>internal/queue\<close>). Drivers stream their
  positions over WebSockets to \<open>ingestd\<close> (\<open>internal/ingest\<close>), which buffers them per window
  (\<open>internal/pipeline\<close>) and writes them to a Redis geo index (\<open>internal/locations\<close>). \<open>batcherd\<close>
  (\<open>internal/batcher\<close>) collects requests into windows, looks up candidate drivers, has the C++ engine
  solve the batch over gRPC (\<open>internal/engine\<close>) and acknowledges, republishes or dead-letters every
  request. \<open>internal/locks\<close> holds leases on drivers and on geohash partitions. \<open>internal/authsetup\<close>,
  \<open>internal/adminserver\<close> and the binaries under \<open>cmd/\<close> put these together.

  \<^bold>\<open>How the model is built.\<close> An operation is a function on an explicit state \<open>'s\<close>, the world outside
  the process, which it returns changed; an error is a value (\<open>goerr\<close>, with the wrapping chain that
  \<open>errors.Is\<close> walks), \<open>Inl\<close> of a sum or \<open>Some\<close> of an option. Structs are records, enumerations are
  datatypes, Go maps are association lists (with the iteration order as a parameter where the code
  ranges over a map), \<open>int\<close> and \<open>int64\<close> are \<open>int\<close> with \<open>wrap64\<close> where they can overflow, \<open>float64\<close> is a
  rational or one of the IEEE special values, times are nanoseconds. Goroutines are step relations.
  What is not in the repository is a parameter: the Redis commands (records \<open>stream_client\<close>,
  \<open>geo_client\<close>, \<open>key_client\<close>, \<open>kv_client\<close>), the gRPC stub (\<open>engine_api\<close>), the JSON decoder, the WebSocket
  library, the printing of floats, the clock and the operating system (\<open>platform\<close>). What the code
  relies on is stated as the laws of a locale over these records, and each locale is interpreted on
  an in-memory server on which the operations can be run.

  \<^bold>\<open>The theories.\<close>
  \<^item> \<open>Go_Prelude\<close>, \<open>Strconv\<close>, \<open>Http\<close>, \<open>Sha256\<close>: errors, times, integers, floats, association lists; the
    parts of \<open>strconv\<close>, \<open>strings\<close>, \<open>encoding/hex\<close>, \<open>net/http\<close> and \<open>crypto/sha256\<close> that the code uses.
  \<^item> \<open>Redis_Streams\<close>: the stream commands, their laws (\<open>redis_accepting\<close>) and the in-memory server.
  \<^item> \<open>Ride_Queue\<close> models \<open>queue.go\<close> and \<open>redis_stream.go\<close>. \<open>Queue_Contract\<close> states what the \<open>Queue\<close> interface
    promises (\<open>queue_contract\<close>) and proves that the stream keeps it (a \<open>sublocale\<close>), \<open>Queue_Properties\<close>
    has the theorems on durability, republishing, reclaiming and dead letters.
  \<^item> \<open>Engine\<close> models \<open>client.go\<close> and \<open>errors.go\<close>: deadlines and the classification of failures.
  \<^item> \<open>Locations\<close> models \<open>redis.go\<close> and \<open>repository.go\<close>; \<open>Locations_Properties\<close> has the laws of the geo commands
    (\<open>redis_geo\<close>), the equivalence of \<open>NearbyMany\<close> with \<open>Nearby\<close>, freshness and the reaper.
  \<^item> \<open>Batcher\<close> models \<open>batcher.go\<close>; \<open>Batcher_Properties\<close> proves, over any queue that keeps the contract
    (\<open>batcher_world\<close>), that no request of a batch is lost, the conservation of messages in \<open>Run\<close>, and
    that a crash of \<open>Run\<close> leaves every request it had consumed to be reclaimed.
  \<^item> \<open>Locks\<close>, \<open>Locks_Properties\<close>, \<open>Geohash_Properties\<close>: the leases of \<open>lease.go\<close> (mutual exclusion along every
    interleaving, fencing by tokens) and the geohash (termination, prefixes, cell size).
  \<^item> \<open>Auth\<close>, \<open>Auth_Properties\<close>: keys, their Redis store, the rate limiter and the middleware.
  \<^item> \<open>Ingest\<close>, \<open>Ingest_Properties\<close>, \<open>Pipeline\<close>, \<open>Pipeline_Properties\<close>: the concurrent WebSocket server with its
    bound on connections and its draining, the window buffer and the flush per tenant.
  \<^item> \<open>Api\<close>, \<open>Api_Properties\<close>: every handler and middleware of the HTTP service and their composition.
  \<^item> \<open>Daemons\<close>, \<open>Tools\<close>, \<open>Daemons_Properties\<close>: the start-up of the three daemons, the shutdown of
    \<open>ingestd\<close>, \<open>keyadmin\<close>, \<open>healthcheck\<close> and the admin server.
  \<^item> \<open>Queue_Ledger\<close> takes the queue operations one by one, as any number of services, batchers and reclaimers
    interleave them on one stream: a request that was held stays held, was matched by the engine or was
    dead-lettered, whatever fails or crashes. \<open>Run\<close> and the reclaimer are shown to keep this protocol.
  \<^item> \<open>Lifecycle\<close>: \<open>requestd\<close> serving and draining, and \<open>batcherd\<close> with both its loops up to the end of \<open>main\<close>.
  \<^item> \<open>Metrics\<close>: the collectors and their registration, and that no sample of the batcher or of the service
    makes the Prometheus client panic. \<open>Loadtest\<close>: the latency recorder, the complexity sweep and its report,
    over the rounding of \<open>float64\<close> in \<open>Float_Rounding\<close>. \<open>Mockdrivers\<close> and \<open>Loadtest_Pipeline\<close>: the fleet of simulated
    drivers and the pipeline mode of the load test as interleaved state machines, with invariants on their counters.
    \<open>Testutil\<close>: the helpers of the integration tests, which return and leave no process behind.
  \<^item> This theory composes the service with the queue and the batcher.

  \<^bold>\<open>Bounds.\<close> No definition has fuel beyond the code's own counters of attempts. Loops are structural or have a
  termination proof; the geohash loop is also given as a \<open>while\<close> loop; the warm-up of \<open>batcherd\<close> and the waits
  of the tests, which end only if the clock moves, are partial functions that are proved to return (the
  warm-up after at most 23 attempts). The arithmetic of the geohash
  on \<open>float64\<close> is exact up to 18 characters; the code uses five. \<open>Float_Rounding\<close> covers the normal range
  and does not fuse a multiplication with an addition. The unbounded Redis counters and the
  atomic counters of the services are \<open>int\<close>: they count single events.

  \<^bold>\<open>Not modelled.\<close> Log lines, help texts and the exposition of metrics, listeners and sockets, the dialling
  of connections; the generated gRPC code and the C++ engine; what \<open>loadtest\<close> prints and the prose of its
  reports; deployment files. Deadlines of contexts appear as commands that fail or as steps that may be
  taken, since when a deadline strikes is the environment's choice.
\<close>

section \<open>From the request to the match\<close>

text \<open>The numbers the JSON decoder produces are \<open>float64\<close> values, which \<open>strconv\<close> prints and reads back exactly.\<close>

definition decodes_floats :: "'s ApiServer \<Rightarrow> float_conv \<Rightarrow> bool" where
  "decodes_floats v conv \<longleftrightarrow>
     (\<forall>n body inp x y z. av_decode v n body = (Inr inp, z) \<longrightarrow> pickup_coords inp = Some (x, y) \<longrightarrow>
        parse_float conv (format_float conv x) = Some x \<and> parse_float conv (format_float conv y) = Some y)"



end
